(* ===== verification/Prelude.thy ===== *)
theory Prelude
  imports Main "HOL-Library.List_Lexorder" "HOL-Library.Char_ord" "HOL-Library.Sublist"
    "HOL-Library.Multiset"
begin

text \<open>
  Shared vocabulary of the development: the collections its proofs use, Go's 64-bit \<open>int\<close>,
  the byte strings of Go, and generic lemmas on results, lists and folds.

  A Go \<open>string\<close> is an arbitrary byte sequence, which is exactly Isabelle's \<open>string\<close> (a list of
  8-bit characters); \<open>List_Lexorder\<close> and \<open>Char_ord\<close> order it the way Go's \<open><\<close> does, bytewise.
  A Go \<open>int\<close> has 64 bits on the deployed platform. It is kept as an \<open>int\<close> and the arithmetic that
  the source performs on it is wrapped by \<open>i64\<close>; only the sum of the sizes of the files of one
  request is not, because these are lengths of different objects in memory, which cannot add up to
  \<open>2 ^ 63\<close>.
\<close>

named_theorems status_simps \<open>the outcome names of the wire contract and their membership\<close>

type_synonym bytes = string

definition nl :: bytes where "nl = [CHR 0x0A]"
definition dq :: bytes where "dq = [CHR 0x22]"

subsection \<open>64-bit integers\<close>

definition i64 :: "int \<Rightarrow> int" where
  "i64 x = (x + 2 ^ 63) mod 2 ^ 64 - 2 ^ 63"

definition fits64 :: "int \<Rightarrow> bool" where
  "fits64 x \<longleftrightarrow> - (2 ^ 63) \<le> x \<and> x < 2 ^ 63"

lemma i64_id [simp]: "fits64 x \<Longrightarrow> i64 x = x"
  by (simp add: i64_def fits64_def)

lemma i64_fits [simp, intro]: "fits64 (i64 x)"
  unfolding i64_def fits64_def by (simp add: algebra_simps)

lemma fits64_small: "\<bar>x\<bar> < 2 ^ 63 \<Longrightarrow> fits64 x"
  by (auto simp: fits64_def)

text \<open>Go's integer division truncates towards zero.\<close>

definition go_quot :: "int \<Rightarrow> int \<Rightarrow> int" where
  "go_quot a b = sgn a * sgn b * (\<bar>a\<bar> div \<bar>b\<bar>)"

lemma go_quot_nonneg: "0 \<le> a \<Longrightarrow> 0 < b \<Longrightarrow> go_quot a b = a div b"
  by (cases "a = 0") (auto simp: go_quot_def sgn_if)

lemma go_quot_neg: "a \<le> 0 \<Longrightarrow> 0 < b \<Longrightarrow> go_quot a b \<le> 0"
proof -
  assume a: "a \<le> 0" "0 < b"
  then have "0 \<le> - a div b" by (simp add: pos_imp_zdiv_nonneg_iff)
  with a show ?thesis by (auto simp: go_quot_def sgn_if)
qed

definition len :: "'a list \<Rightarrow> int" where
  "len xs = int (length xs)"

lemma len_simps [simp]:
  "len [] = 0" "len (x # xs) = 1 + len xs" "len (xs @ ys) = len xs + len ys"
  by (simp_all add: len_def)

lemma len_nonneg [simp]: "0 \<le> len xs"
  by (simp add: len_def)

lemma len_pos_iff [simp]: "0 < len xs \<longleftrightarrow> xs \<noteq> []"
  by (simp add: len_def)

lemma len_le0_iff [simp]: "len xs \<le> 0 \<longleftrightarrow> xs = []"
  by (simp add: len_def)

lemma len_eq0_iff [simp]: "len xs = 0 \<longleftrightarrow> xs = []"
  by (simp add: len_def)

subsection \<open>Results\<close>

text \<open>
  A Go function returning \<open>(T, error)\<close> is modelled by \<open>'e + 'a\<close>; \<open>rbind\<close> is the
  \<^verbatim>\<open>if err != nil { return ..., err }\<close> step between two such calls.
\<close>

definition rbind :: "'e + 'a \<Rightarrow> ('a \<Rightarrow> 'e + 'b) \<Rightarrow> 'e + 'b" where
  "rbind r f = (case r of Inl e \<Rightarrow> Inl e | Inr x \<Rightarrow> f x)"

lemma rbind_simps [simp]: "rbind (Inl e) f = Inl e" "rbind (Inr x) f = f x"
  by (simp_all add: rbind_def)

lemma rbind_Inr [simp]: "rbind r f = Inr y \<longleftrightarrow> (\<exists>x. r = Inr x \<and> f x = Inr y)"
  by (cases r) auto

lemma rbind_Inl: "rbind r f = Inl e \<longleftrightarrow> r = Inl e \<or> (\<exists>x. r = Inr x \<and> f x = Inl e)"
  by (cases r) auto

subsection \<open>Lists\<close>

text \<open>
  \<open>sort.Slice\<close> is not stable, but on pairwise distinct keys every correct sort gives the same
  list, whatever the order of the input.
\<close>

lemma sort_key_unique:
  fixes f :: "'a \<Rightarrow> 'b::linorder"
  assumes set: "set xs = set ys" and dx: "distinct (map f xs)" and dy: "distinct (map f ys)"
  shows "sort_key f xs = sort_key f ys"
proof -
  have "map f (sort_key f xs) = map f (sort_key f ys)"
  proof (rule sorted_distinct_set_unique)
    show "distinct (map f (sort_key f xs))" "distinct (map f (sort_key f ys))"
      using dx dy by (simp_all add: distinct_map)
    show "set (map f (sort_key f xs)) = set (map f (sort_key f ys))" using set by simp
  qed simp_all
  moreover have "inj_on f (set (sort_key f xs) \<union> set (sort_key f ys))"
    using dx set by (simp add: distinct_map)
  ultimately show ?thesis by (simp add: inj_on_map_eq_map)
qed

end
