(* ===== verification/RunnerApi.thy ===== *)
theory RunnerApi
  imports Prelude
begin

text \<open>
  The wire contract, \<^verbatim>\<open>pkg/runnerapi/contract.go\<close>: the request, the result and the batch
  envelope as records with the fields of the Go structs (a field name used by two structs is
  prefixed in the second), and the closed set of outcome names.
\<close>

record RunFile =
  Path :: bytes
  Content :: bytes

record RunRequest =
  Language :: bytes
  SourceCode :: bytes
  Files :: "RunFile list"
  Entrypoint :: bytes
  Stdin :: bytes
  TimeoutMs :: int
  MemoryMB :: int
  OutputLimitBytes :: int
  Stdins :: "bytes list"
  CompileTimeoutMs :: int
  Encoding :: bytes
  Mode :: bytes

record RunResult =
  Status :: bytes
  Stdout :: bytes
  Stderr :: bytes
  StdoutTruncated :: bool
  StderrTruncated :: bool
  ExitCode :: int
  DurationMs :: int
  CompileMs :: int
  MemoryKB :: int
  RuntimeName :: bytes
  RuntimeVersion :: bytes
  CompileOutput :: bytes
  Signal :: bytes
  PythonVersion :: bytes
  TestReport :: bytes
  ReportFormat :: bytes
  TestReportTruncated :: bool
  TraceReport :: bytes
  TraceFormat :: bytes
  TraceReportTruncated :: bool
  ResultFormat :: bytes

record BatchResult =
  BatchStatus :: bytes
  BatchRuntimeName :: bytes
  BatchRuntimeVersion :: bytes
  BatchCompileMs :: int
  BatchCompileOutput :: bytes
  Results :: "RunResult list"
  Aborted :: bool

text \<open>The zero values Go gives to \<^verbatim>\<open>runnerapi.RunRequest{}\<close>, \<^verbatim>\<open>RunResult{}\<close> and \<^verbatim>\<open>BatchResult{}\<close>.\<close>

definition zero_request :: RunRequest where
  "zero_request =
     \<lparr>Language = [], SourceCode = [], Files = [], Entrypoint = [], Stdin = [], TimeoutMs = 0,
      MemoryMB = 0, OutputLimitBytes = 0, Stdins = [], CompileTimeoutMs = 0, Encoding = [],
      Mode = []\<rparr>"

definition zero_result :: RunResult where
  "zero_result =
     \<lparr>Status = [], Stdout = [], Stderr = [], StdoutTruncated = False, StderrTruncated = False,
      ExitCode = 0, DurationMs = 0, CompileMs = 0, MemoryKB = 0, RuntimeName = [],
      RuntimeVersion = [], CompileOutput = [], Signal = [], PythonVersion = [], TestReport = [],
      ReportFormat = [], TestReportTruncated = False, TraceReport = [], TraceFormat = [],
      TraceReportTruncated = False, ResultFormat = []\<rparr>"

definition zero_batch :: BatchResult where
  "zero_batch =
     \<lparr>BatchStatus = [], BatchRuntimeName = [], BatchRuntimeVersion = [], BatchCompileMs = 0,
      BatchCompileOutput = [], Results = [], Aborted = False\<rparr>"

subsection \<open>Outcomes\<close>

definition BatchStatusOK :: bytes where "BatchStatusOK = ''ok''"

definition StatusSuccess :: bytes where "StatusSuccess = ''success''"
definition StatusRuntimeError :: bytes where "StatusRuntimeError = ''runtime_error''"
definition StatusTimeout :: bytes where "StatusTimeout = ''timeout''"
definition StatusMemoryExceeded :: bytes where "StatusMemoryExceeded = ''memory_exceeded''"
definition StatusCompileError :: bytes where "StatusCompileError = ''compile_error''"
definition StatusInternalError :: bytes where "StatusInternalError = ''internal_error''"
definition StatusOutputLimitExceeded :: bytes where
  "StatusOutputLimitExceeded = ''output_limit_exceeded''"
definition StatusTestsFailed :: bytes where "StatusTestsFailed = ''tests_failed''"

lemmas status_defs =
  StatusSuccess_def StatusRuntimeError_def StatusTimeout_def StatusMemoryExceeded_def
  StatusCompileError_def StatusInternalError_def StatusOutputLimitExceeded_def
  StatusTestsFailed_def

definition all_statuses :: "bytes set" where
  "all_statuses =
     {StatusSuccess, StatusRuntimeError, StatusTimeout, StatusMemoryExceeded, StatusCompileError,
      StatusInternalError, StatusOutputLimitExceeded, StatusTestsFailed}"

lemma status_in_all [simp]:
  "StatusSuccess \<in> all_statuses" "StatusRuntimeError \<in> all_statuses"
  "StatusTimeout \<in> all_statuses" "StatusMemoryExceeded \<in> all_statuses"
  "StatusCompileError \<in> all_statuses" "StatusInternalError \<in> all_statuses"
  "StatusOutputLimitExceeded \<in> all_statuses" "StatusTestsFailed \<in> all_statuses"
  by (simp_all add: all_statuses_def)

lemma status_distinct [status_simps]:
  "distinct [StatusSuccess, StatusRuntimeError, StatusTimeout, StatusMemoryExceeded,
     StatusCompileError, StatusInternalError, StatusOutputLimitExceeded, StatusTestsFailed,
     BatchStatusOK, []]"
  by (simp add: status_defs BatchStatusOK_def)

subsection \<open>Errors of the executor\<close>

text \<open>
  \<open>ErrUnsupportedLanguage\<close> and \<^verbatim>\<open>*ValidationError\<close>. A validation error carries its stable
  machine code; its message renders the same fact for a human and is not modelled.
\<close>

datatype run_error = ErrUnsupportedLanguage | ValidationError bytes

definition invalid :: "bytes \<Rightarrow> run_error + 'a" where
  "invalid code = Inl (ValidationError code)"

lemma invalid_simps [simp]:
  "invalid c \<noteq> Inr x" "Inr x \<noteq> invalid c" "invalid c = Inl e \<longleftrightarrow> e = ValidationError c"
  by (auto simp: invalid_def)

end
