(* ===== verification/GoRegexp.thy ===== *)
theory GoRegexp
  imports Prelude
begin

text \<open>
  The fragment of Go's \<open>regexp\<close> syntax the file policy uses: character classes, concatenation and
  star, anchored at both ends. \<open>re_lang\<close> is the set of strings an expression denotes; \<open>matches\<close> is an
  executable matcher (derivatives), proved to decide membership in it.
\<close>

datatype re = REmpty | REps | RCls "(char \<times> char) list" | RSeq re re | RAlt re re | RStar re

definition in_class :: "(char \<times> char) list \<Rightarrow> char \<Rightarrow> bool" where
  "in_class rs c \<longleftrightarrow> list_ex (\<lambda>(lo, hi). lo \<le> c \<and> c \<le> hi) rs"

inductive_set star_lang :: "string set \<Rightarrow> string set" for L where
  star_Nil: "[] \<in> star_lang L"
| star_app: "u \<in> L \<Longrightarrow> v \<in> star_lang L \<Longrightarrow> u @ v \<in> star_lang L"

primrec re_lang :: "re \<Rightarrow> string set" where
  "re_lang REmpty = {}"
| "re_lang REps = {[]}"
| "re_lang (RCls rs) = {[c] | c. in_class rs c}"
| "re_lang (RSeq r s) = {u @ v | u v. u \<in> re_lang r \<and> v \<in> re_lang s}"
| "re_lang (RAlt r s) = re_lang r \<union> re_lang s"
| "re_lang (RStar r) = star_lang (re_lang r)"

primrec nullable :: "re \<Rightarrow> bool" where
  "nullable REmpty = False"
| "nullable REps = True"
| "nullable (RCls rs) = False"
| "nullable (RSeq r s) = (nullable r \<and> nullable s)"
| "nullable (RAlt r s) = (nullable r \<or> nullable s)"
| "nullable (RStar r) = True"

primrec deriv :: "char \<Rightarrow> re \<Rightarrow> re" where
  "deriv c REmpty = REmpty"
| "deriv c REps = REmpty"
| "deriv c (RCls rs) = (if in_class rs c then REps else REmpty)"
| "deriv c (RSeq r s) =
     (if nullable r then RAlt (RSeq (deriv c r) s) (deriv c s) else RSeq (deriv c r) s)"
| "deriv c (RAlt r s) = RAlt (deriv c r) (deriv c s)"
| "deriv c (RStar r) = RSeq (deriv c r) (RStar r)"

fun matches :: "re \<Rightarrow> string \<Rightarrow> bool" where
  "matches r [] = nullable r"
| "matches r (c # cs) = matches (deriv c r) cs"

lemma nullable_lang: "nullable r \<longleftrightarrow> [] \<in> re_lang r"
  by (induction r) (auto intro: star_lang.intros)

lemma star_lang_Cons:
  "w \<in> star_lang L \<Longrightarrow> w = c # cs \<Longrightarrow> \<exists>u v. cs = u @ v \<and> c # u \<in> L \<and> v \<in> star_lang L"
proof (induction arbitrary: c cs rule: star_lang.induct)
  case (star_app u v)
  then show ?case by (cases u) auto
qed simp

lemma deriv_re_lang: "cs \<in> re_lang (deriv c r) \<longleftrightarrow> c # cs \<in> re_lang r"
proof (induction r arbitrary: cs)
  case (RSeq r s)
  have *: "c # cs \<in> re_lang (RSeq r s) \<longleftrightarrow>
      ([] \<in> re_lang r \<and> c # cs \<in> re_lang s) \<or> (\<exists>u v. cs = u @ v \<and> c # u \<in> re_lang r \<and> v \<in> re_lang s)"
    by (auto simp: Cons_eq_append_conv)
  show ?case unfolding * by (auto simp: nullable_lang RSeq.IH)
next
  case (RStar r)
  have "c # cs \<in> star_lang (re_lang r) \<longleftrightarrow>
      (\<exists>u v. cs = u @ v \<and> c # u \<in> re_lang r \<and> v \<in> star_lang (re_lang r))"
    by (auto dest: star_lang_Cons intro: star_app [of "c # u" for u, simplified])
  then show ?case by (auto simp: RStar.IH)
qed auto

lemma matches_lang: "matches r s \<longleftrightarrow> s \<in> re_lang r"
  by (induction s arbitrary: r) (auto simp: nullable_lang deriv_re_lang)

subsection \<open>The two shapes the policy uses\<close>

lemma lang_star_class: "s \<in> star_lang (re_lang (RCls rs)) \<longleftrightarrow> list_all (in_class rs) s"
proof
  show "s \<in> star_lang (re_lang (RCls rs)) \<Longrightarrow> list_all (in_class rs) s"
    by (induction rule: star_lang.induct) auto
next
  show "list_all (in_class rs) s \<Longrightarrow> s \<in> star_lang (re_lang (RCls rs))"
  proof (induction s)
    case (Cons c s)
    then have "[c] @ s \<in> star_lang (re_lang (RCls rs))"
      by (intro star_lang.star_app) auto
    then show ?case by simp
  qed (simp add: star_lang.star_Nil)
qed

lemma matches_head_star:
  "matches (RSeq (RCls h) (RStar (RCls t))) s \<longleftrightarrow>
     s \<noteq> [] \<and> in_class h (hd s) \<and> list_all (in_class t) (tl s)"
proof -
  have "s \<in> re_lang (RSeq (RCls h) (RStar (RCls t))) \<longleftrightarrow>
      (\<exists>c v. s = c # v \<and> in_class h c \<and> list_all (in_class t) v)"
    (is "_ \<longleftrightarrow> ?R")
  proof
    show "s \<in> re_lang (RSeq (RCls h) (RStar (RCls t))) \<Longrightarrow> ?R"
      by (simp only: re_lang.simps(4,6) lang_star_class) auto
  next
    assume ?R
    then obtain c v where "s = [c] @ v" "in_class h c" "list_all (in_class t) v" by auto
    then have "s = [c] @ v" "[c] \<in> re_lang (RCls h)" "v \<in> re_lang (RStar (RCls t))"
      by (simp_all only: lang_star_class re_lang.simps(6)) simp_all
    then show "s \<in> re_lang (RSeq (RCls h) (RStar (RCls t)))"
      unfolding re_lang.simps(4) by blast
  qed
  then show ?thesis unfolding matches_lang by (cases s) auto
qed

end
