(* ===== verification/GoStrings.thy ===== *)
theory GoStrings
  imports Prelude
begin

text \<open>
  The functions of Go's \<open>strings\<close> and \<open>strconv\<close> packages that the runner calls, on byte strings.
  White space and case mapping look at UTF-8 sequences, as Go does: the lists below are the UTF-8
  encodings of every rune \<open>unicode.IsSpace\<close> accepts, and of the only two non-ASCII runes whose
  lower case is ASCII (the Kelvin sign and the dotted capital I). Case mapping of the other
  non-ASCII runes stays outside ASCII in Go and is left as it is here; the source compares its
  results with ASCII literals only, for which the two agree.
\<close>

subsection \<open>Splitting and joining\<close>

fun split_on :: "char \<Rightarrow> bytes \<Rightarrow> bytes list" where
  "split_on c [] = [[]]"
| "split_on c (x # xs) =
     (if x = c then [] # split_on c xs
      else (case split_on c xs of [] \<Rightarrow> [[x]] | w # ws \<Rightarrow> (x # w) # ws))"

fun join_with :: "bytes \<Rightarrow> bytes list \<Rightarrow> bytes" where
  "join_with sep [] = []"
| "join_with sep [w] = w"
| "join_with sep (w # ws) = w @ sep @ join_with sep ws"

lemma split_on_not_Nil [simp]: "split_on c s \<noteq> []"
  by (induction s) (auto split: list.splits)

lemma join_split [simp]: "join_with [c] (split_on c s) = s"
proof (induction s)
  case (Cons x s)
  obtain w ws where "split_on c s = w # ws"
    by (cases "split_on c s") auto
  with Cons show ?case by (cases ws) auto
qed simp

lemma split_on_free: "c \<notin> set w \<Longrightarrow> split_on c w = [w]"
  by (induction w) auto

lemma split_on_append: "c \<notin> set w \<Longrightarrow> split_on c (w @ c # s) = w # split_on c s"
  by (induction w) auto

lemma split_join:
  "ws \<noteq> [] \<Longrightarrow> \<forall>w\<in>set ws. c \<notin> set w \<Longrightarrow> split_on c (join_with [c] ws) = ws"
  by (induction "[c]" ws rule: join_with.induct) (auto simp: split_on_free split_on_append)

lemma split_on_elem: "w \<in> set (split_on c s) \<Longrightarrow> c \<notin> set w"
  by (induction s arbitrary: w) (auto split: list.splits if_splits)

lemma split_on_chars: "w \<in> set (split_on c s) \<Longrightarrow> set w \<subseteq> set s"
proof (induction s arbitrary: w)
  case (Cons x s)
  obtain v vs where v: "split_on c s = v # vs"
    by (cases "split_on c s") auto
  with Cons.IH have "set v \<subseteq> set s" "\<And>u. u \<in> set vs \<Longrightarrow> set u \<subseteq> set s" by auto
  with Cons.prems v show ?case by (auto split: if_splits)
qed simp

lemma set_join_with:
  "set (join_with [c] ws) \<subseteq> insert c (\<Union>w\<in>set ws. set w)"
  by (induction "[c]" ws rule: join_with.induct) auto

lemma join_with_snoc_Nil: "ws \<noteq> [] \<Longrightarrow> join_with sep (ws @ [[]]) = join_with sep ws @ sep"
proof (induction ws)
  case (Cons w ws)
  then show ?case by (cases ws) simp_all
qed simp

lemma join_with_hd: "ws \<noteq> [] \<Longrightarrow> hd ws \<noteq> [] \<Longrightarrow> join_with sep ws \<noteq> [] \<and> hd (join_with sep ws) = hd (hd ws)"
proof (induction ws)
  case (Cons w ws)
  then show ?case by (cases ws) simp_all
qed simp

subsection \<open>Searching and replacing\<close>

fun contains_str :: "bytes \<Rightarrow> bytes \<Rightarrow> bool" where
  "contains_str [] sub \<longleftrightarrow> sub = []"
| "contains_str (c # cs) sub \<longleftrightarrow> prefix sub (c # cs) \<or> contains_str cs sub"

lemma contains_str_iff: "contains_str s sub \<longleftrightarrow> (\<exists>p q. s = p @ sub @ q)"
proof (induction s)
  case (Cons c cs)
  show ?case
  proof
    assume "contains_str (c # cs) sub"
    then consider "prefix sub (c # cs)" | "contains_str cs sub" by auto
    then show "\<exists>p q. c # cs = p @ sub @ q"
    proof cases
      case 1
      then obtain q where "c # cs = sub @ q" by (auto simp: prefix_def)
      then have "c # cs = [] @ sub @ q" by simp
      then show ?thesis by blast
    next
      case 2
      with Cons.IH obtain p q where "cs = p @ sub @ q" by blast
      then have "c # cs = (c # p) @ sub @ q" by simp
      then show ?thesis by blast
    qed
  next
    assume "\<exists>p q. c # cs = p @ sub @ q"
    then obtain p q where eq: "c # cs = p @ sub @ q" by blast
    show "contains_str (c # cs) sub"
    proof (cases p)
      case Nil
      with eq have "prefix sub (c # cs)" by (metis append_Nil prefixI)
      then show ?thesis by simp
    next
      case (Cons d p')
      with eq have "cs = p' @ sub @ q" by simp
      with Cons.IH show ?thesis by auto
    qed
  qed
qed auto

definition replace_char :: "char \<Rightarrow> bytes \<Rightarrow> bytes \<Rightarrow> bytes" where
  "replace_char c r s = concat (map (\<lambda>x. if x = c then r else [x]) s)"

lemma replace_char_simps [simp]:
  "replace_char c r [] = []"
  "replace_char c r (x # xs) = (if x = c then r else [x]) @ replace_char c r xs"
  by (simp_all add: replace_char_def)

lemma replace_char_free: "c \<notin> set s \<Longrightarrow> replace_char c r s = s"
  by (induction s) auto

text \<open>
  \<open>strings.NewReplacer(old, new, ...).Replace\<close>: scanning left to right, at each position the first
  pair whose (non-empty) old string is a prefix of the rest wins; matches do not overlap.
\<close>

fun replacer_find :: "(bytes \<times> bytes) list \<Rightarrow> bytes \<Rightarrow> (bytes \<times> bytes) option" where
  "replacer_find [] s = None"
| "replacer_find ((old, new) # ps) s =
     (if old \<noteq> [] \<and> prefix old s then Some (old, new) else replacer_find ps s)"

lemma replacer_find_shrinks: "replacer_find ps s = Some (old, new) \<Longrightarrow> old \<noteq> []"
  by (induction ps s rule: replacer_find.induct) (auto split: if_splits)

function replacer :: "(bytes \<times> bytes) list \<Rightarrow> bytes \<Rightarrow> bytes" where
  "replacer ps [] = []"
| "replacer ps (c # cs) =
     (case replacer_find ps (c # cs) of
        None \<Rightarrow> c # replacer ps cs
      | Some (old, new) \<Rightarrow> new @ replacer ps (drop (length old) (c # cs)))"
  by pat_completeness auto
termination
  by (relation "measure (\<lambda>(ps, s). length s)") (auto dest: replacer_find_shrinks)

lemma replacer_find_None:
  "\<forall>(old, new)\<in>set ps. old \<noteq> [] \<and> hd old = CHR ''{'' \<Longrightarrow> c \<noteq> CHR ''{'' \<Longrightarrow>
   replacer_find ps (c # cs) = None"
  by (induction ps) (auto simp: prefix_def neq_Nil_conv)

text \<open>A token without an opening brace has no placeholder and passes through unchanged.\<close>

lemma replacer_no_placeholder:
  assumes "\<forall>(old, new)\<in>set ps. old \<noteq> [] \<and> hd old = CHR ''{''"
    and "CHR ''{'' \<notin> set s"
  shows "replacer ps s = s"
  using assms(2) by (induction s) (auto simp: replacer_find_None [OF assms(1)])

subsection \<open>White space and case\<close>

definition space_seqs :: "bytes list" where
  "space_seqs =
     [[CHR 0x09], [CHR 0x0A], [CHR 0x0B], [CHR 0x0C], [CHR 0x0D], [CHR 0x20],
      [CHR 0xC2, CHR 0x85], [CHR 0xC2, CHR 0xA0], [CHR 0xE1, CHR 0x9A, CHR 0x80],
      [CHR 0xE2, CHR 0x80, CHR 0x80], [CHR 0xE2, CHR 0x80, CHR 0x81],
      [CHR 0xE2, CHR 0x80, CHR 0x82], [CHR 0xE2, CHR 0x80, CHR 0x83],
      [CHR 0xE2, CHR 0x80, CHR 0x84], [CHR 0xE2, CHR 0x80, CHR 0x85],
      [CHR 0xE2, CHR 0x80, CHR 0x86], [CHR 0xE2, CHR 0x80, CHR 0x87],
      [CHR 0xE2, CHR 0x80, CHR 0x88], [CHR 0xE2, CHR 0x80, CHR 0x89],
      [CHR 0xE2, CHR 0x80, CHR 0x8A], [CHR 0xE2, CHR 0x80, CHR 0xA8],
      [CHR 0xE2, CHR 0x80, CHR 0xA9], [CHR 0xE2, CHR 0x80, CHR 0xAF],
      [CHR 0xE2, CHR 0x81, CHR 0x9F], [CHR 0xE3, CHR 0x80, CHR 0x80]]"

text \<open>The length of the white-space rune a string starts with, or 0.\<close>

fun seq_at :: "bytes list \<Rightarrow> bytes \<Rightarrow> nat" where
  "seq_at [] s = 0"
| "seq_at (w # ws) s = (if w \<noteq> [] \<and> prefix w s then length w else seq_at ws s)"

function trim_front :: "bytes list \<Rightarrow> bytes \<Rightarrow> bytes" where
  "trim_front ws s = (if s = [] \<or> seq_at ws s = 0 then s else trim_front ws (drop (seq_at ws s) s))"
  by pat_completeness auto
termination
  by (relation "measure (\<lambda>(ws, s). length s)") auto

declare trim_front.simps [simp del]

definition trim_space :: "bytes \<Rightarrow> bytes" where
  "trim_space s = rev (trim_front (map rev space_seqs) (rev (trim_front space_seqs s)))"

text \<open>A string that starts and ends with a visible ASCII character has nothing to trim.\<close>

definition graph_char :: "char \<Rightarrow> bool" where
  "graph_char c \<longleftrightarrow> 33 \<le> (of_char c :: nat) \<and> (of_char c :: nat) \<le> 126"

lemma seq_at_0: "s \<noteq> [] \<Longrightarrow> \<forall>w\<in>set ws. w \<noteq> [] \<longrightarrow> hd w \<noteq> hd s \<Longrightarrow> seq_at ws s = 0"
  by (induction ws) (auto simp: prefix_def)

lemma trim_front_id: "s = [] \<or> seq_at ws s = 0 \<Longrightarrow> trim_front ws s = s"
  by (subst trim_front.simps) auto

lemma space_hd: "w \<in> set space_seqs \<Longrightarrow> w \<noteq> [] \<and> \<not> graph_char (hd w) \<and> \<not> graph_char (last w)"
  by (auto simp: space_seqs_def graph_char_def)

lemma trim_space_id: "s = [] \<or> graph_char (hd s) \<and> graph_char (last s) \<Longrightarrow> trim_space s = s"
proof (cases "s = []")
  case False
  assume "s = [] \<or> graph_char (hd s) \<and> graph_char (last s)"
  with False have g: "graph_char (hd s)" "graph_char (hd (rev s))" by (simp_all add: hd_rev)
  have "seq_at space_seqs s = 0"
    using space_hd g(1) False by (intro seq_at_0) metis+
  moreover have "seq_at (map rev space_seqs) (rev s) = 0"
  proof (intro seq_at_0 ballI impI)
    show "rev s \<noteq> []" using False by simp
  next
    fix w assume "w \<in> set (map rev space_seqs)" "w \<noteq> []"
    then obtain v where "v \<in> set space_seqs" "w = rev v" by auto
    with space_hd [of v] g(2) show "hd w \<noteq> hd (rev s)" by (auto simp: hd_rev)
  qed
  ultimately show ?thesis by (simp add: trim_space_def trim_front_id)
qed (simp add: trim_space_def trim_front_id)

text \<open>\<open>strings.Fields\<close>: the maximal runs free of white space, in order.\<close>

function fields_from :: "bytes \<Rightarrow> bytes \<Rightarrow> bytes list" where
  "fields_from cur [] = (if cur = [] then [] else [rev cur])"
| "fields_from cur (c # cs) =
     (let n = seq_at space_seqs (c # cs)
      in if n = 0 then fields_from (c # cur) cs
         else (if cur = [] then [] else [rev cur]) @ fields_from [] (drop n (c # cs)))"
  by pat_completeness auto
termination
  by (relation "measure (\<lambda>(cur, s). length s)") auto

definition str_fields :: "bytes \<Rightarrow> bytes list" where
  "str_fields s = fields_from [] s"

text \<open>\<open>strings.FieldsFunc\<close> for a predicate on ASCII bytes.\<close>

fun fields_by :: "(char \<Rightarrow> bool) \<Rightarrow> bytes \<Rightarrow> bytes \<Rightarrow> bytes list" where
  "fields_by sp cur [] = (if cur = [] then [] else [rev cur])"
| "fields_by sp cur (c # cs) =
     (if sp c then (if cur = [] then [] else [rev cur]) @ fields_by sp [] cs
      else fields_by sp (c # cur) cs)"

lemma fields_by_props:
  "\<forall>c\<in>set cur. \<not> sp c \<Longrightarrow> w \<in> set (fields_by sp cur s) \<Longrightarrow> w \<noteq> [] \<and> (\<forall>c\<in>set w. \<not> sp c)"
proof (induction s arbitrary: cur)
  case Nil
  then show ?case by (cases "cur = []") simp_all
next
  case (Cons d s)
  show ?case
  proof (cases "sp d")
    case True
    with Cons.prems(2) have "cur \<noteq> [] \<and> w = rev cur \<or> w \<in> set (fields_by sp [] s)"
      by (simp split: if_split_asm)
    then show ?thesis
    proof
      assume "cur \<noteq> [] \<and> w = rev cur"
      then show ?thesis using Cons.prems(1) by simp
    next
      assume "w \<in> set (fields_by sp [] s)"
      then show ?thesis using Cons.IH [of "[]"] by simp
    qed
  next
    case False
    then have "w \<in> set (fields_by sp (d # cur) s)" using Cons.prems(2) by simp
    moreover have "\<forall>c\<in>set (d # cur). \<not> sp c" using False Cons.prems(1) by simp
    ultimately show ?thesis using Cons.IH by blast
  qed
qed

definition ascii_lower :: "char \<Rightarrow> char" where
  "ascii_lower c = (if CHR ''A'' \<le> c \<and> c \<le> CHR ''Z'' then char_of (of_char c + (32::nat)) else c)"

fun to_lower :: "bytes \<Rightarrow> bytes" where
  "to_lower [] = []"
| "to_lower (c # cs) =
     (if prefix [CHR 0xE2, CHR 0x84, CHR 0xAA] (c # cs) then CHR ''k'' # to_lower (drop 2 cs)
      else if prefix [CHR 0xC4, CHR 0xB0] (c # cs) then CHR ''i'' # to_lower (drop 1 cs)
      else ascii_lower c # to_lower cs)"

text \<open>
  \<open>strings.EqualFold\<close> against an ASCII literal: the runes that simple folding maps to an ASCII
  letter are the ASCII letters, the Kelvin sign (k) and the long s (s).
\<close>

fun fold_case :: "bytes \<Rightarrow> bytes" where
  "fold_case [] = []"
| "fold_case (c # cs) =
     (if prefix [CHR 0xE2, CHR 0x84, CHR 0xAA] (c # cs) then CHR ''k'' # fold_case (drop 2 cs)
      else if prefix [CHR 0xC5, CHR 0xBF] (c # cs) then CHR ''s'' # fold_case (drop 1 cs)
      else ascii_lower c # fold_case cs)"

definition equal_fold :: "bytes \<Rightarrow> bytes \<Rightarrow> bool" where
  "equal_fold s lit \<longleftrightarrow> fold_case s = fold_case lit"

end
