(* ===== verification/GoPath.thy ===== *)
theory GoPath
  imports GoStrings
begin

text \<open>
  Go's \<open>path\<close> package: \<open>Clean\<close>, \<open>Ext\<close>, \<open>Dir\<close> and \<open>Join\<close> on slash-separated paths. \<open>Clean\<close>
  follows the documented rules: empty and \<open>.\<close> elements vanish, an inner \<open>..\<close> takes the element
  before it along, a rooted path does not climb above its root, and an empty result is \<open>.\<close>.
\<close>

fun clean_comps :: "bool \<Rightarrow> bytes list \<Rightarrow> bytes list \<Rightarrow> bytes list" where
  "clean_comps rooted out [] = rev out"
| "clean_comps rooted out (c # cs) =
     (if c = [] \<or> c = ''.'' then clean_comps rooted out cs
      else if c = ''..'' then
        (case out of
           [] \<Rightarrow> (if rooted then clean_comps rooted [] cs else clean_comps rooted [''..''] cs)
         | t # ts \<Rightarrow> (if t = ''..'' then clean_comps rooted (''..'' # out) cs
                     else clean_comps rooted ts cs))
      else clean_comps rooted (c # out) cs)"

definition path_Clean :: "bytes \<Rightarrow> bytes" where
  "path_Clean p =
     (if p = [] then ''.''
      else let rooted = (hd p = CHR ''/'');
               body = join_with ''/'' (clean_comps rooted [] (split_on CHR ''/'' p))
           in if rooted then ''/'' @ body else if body = [] then ''.'' else body)"

definition path_Ext :: "bytes \<Rightarrow> bytes" where
  "path_Ext p =
     (let base = last (split_on CHR ''/'' p)
      in if CHR ''.'' \<in> set base then CHR ''.'' # last (split_on CHR ''.'' base) else [])"

definition path_Dir :: "bytes \<Rightarrow> bytes" where
  "path_Dir p =
     (let comps = split_on CHR ''/'' p
      in if length comps = 1 then path_Clean []
         else path_Clean (join_with ''/'' (butlast comps) @ ''/''))"

definition path_Join :: "bytes \<Rightarrow> bytes \<Rightarrow> bytes" where
  "path_Join a b =
     (if a = [] then (if b = [] then [] else path_Clean b)
      else if b = [] then path_Clean a else path_Clean (a @ ''/'' @ b))"

definition normal_comp :: "bytes \<Rightarrow> bool" where
  "normal_comp c \<longleftrightarrow> c \<noteq> [] \<and> c \<noteq> ''.'' \<and> c \<noteq> ''..''"

lemma clean_comps_step:
  "normal_comp c \<Longrightarrow> clean_comps rooted out (c # cs) = clean_comps rooted (c # out) cs"
  "c = [] \<or> c = ''.'' \<Longrightarrow> clean_comps rooted out (c # cs) = clean_comps rooted out cs"
  "clean_comps True [] (''..'' # cs) = clean_comps True [] cs"
  "t \<noteq> ''..'' \<Longrightarrow> clean_comps rooted (t # ts) (''..'' # cs) = clean_comps rooted ts cs"
  by (simp_all add: normal_comp_def)

declare clean_comps.simps(2) [simp del]

lemma clean_comps_normal:
  "\<forall>c\<in>set cs. normal_comp c \<Longrightarrow> clean_comps rooted out cs = rev out @ cs"
  by (induction cs arbitrary: out) (simp_all add: clean_comps_step(1))

lemma clean_comps_normal_append:
  "\<forall>c\<in>set cs. normal_comp c \<Longrightarrow>
   clean_comps rooted out (cs @ ds) = clean_comps rooted (rev cs @ out) ds"
  by (induction cs arbitrary: out) (simp_all add: clean_comps_step(1))

lemma path_Clean_trailing:
  assumes "\<forall>c\<in>set bs. normal_comp c" and "\<forall>c\<in>set bs. CHR ''/'' \<notin> set c" and "bs \<noteq> []"
  shows "path_Clean (join_with ''/'' bs @ ''/'') = join_with ''/'' bs"
proof -
  have sp: "split_on CHR ''/'' (join_with ''/'' bs @ ''/'') = bs @ [[]]"
    unfolding join_with_snoc_Nil [OF assms(3), symmetric]
    using assms(2) by (intro split_join) auto
  have "hd bs \<in> set bs" using assms(3) by simp
  then have h: "normal_comp (hd bs)" "CHR ''/'' \<notin> set (hd bs)" using assms(1,2) by blast+
  then have hne: "hd bs \<noteq> []" by (simp add: normal_comp_def)
  from join_with_hd [OF assms(3) hne]
  have j: "join_with ''/'' bs \<noteq> []" "hd (join_with ''/'' bs) = hd (hd bs)" by simp_all
  have "hd (join_with ''/'' bs) \<noteq> CHR ''/''"
    using h(2) hne by (cases "hd bs") (auto simp: j(2))
  then show ?thesis
    using j(1) by (simp add: path_Clean_def sp clean_comps_normal_append [OF assms(1)]
        clean_comps_step(2))
qed

lemma path_Clean_normal:
  assumes "\<forall>c\<in>set (split_on CHR ''/'' p). normal_comp c"
  shows "path_Clean p = p"
proof -
  have ne: "p \<noteq> []"
  proof
    assume "p = []"
    with assms show False by (simp add: normal_comp_def)
  qed
  have "hd p \<noteq> CHR ''/''"
  proof
    assume "hd p = CHR ''/''"
    with ne obtain q where "p = CHR ''/'' # q" by (cases p) simp_all
    with assms show False by (simp add: normal_comp_def)
  qed
  with ne show ?thesis
    by (simp add: path_Clean_def clean_comps_normal [OF assms])
qed

text \<open>A rooted path whose elements are all normal is its own normal form too.\<close>

lemma path_Clean_rooted:
  assumes "\<forall>c\<in>set (split_on CHR ''/'' p). normal_comp c"
  shows "path_Clean (CHR ''/'' # p) = CHR ''/'' # p"
proof -
  have "clean_comps True [] ([] # split_on CHR ''/'' p) = split_on CHR ''/'' p"
    by (simp add: clean_comps_step(2) clean_comps_normal [OF assms])
  then show ?thesis by (simp add: path_Clean_def)
qed

text \<open>No path climbs out of a rooted \<open>Clean\<close>: its result never holds an element \<open>..\<close>.\<close>

lemma clean_comps_rooted:
  "\<forall>c\<in>set out. normal_comp c \<Longrightarrow> \<forall>c\<in>set (clean_comps True out cs). normal_comp c"
proof (induction cs arbitrary: out)
  case (Cons c cs)
  consider "c = [] \<or> c = ''.''" | "c = ''..''" "out = []"
    | t ts where "c = ''..''" "out = t # ts" | "normal_comp c"
    by (cases out) (auto simp: normal_comp_def)
  then show ?case
  proof cases
    case 1
    with Cons.IH [OF Cons.prems] show ?thesis by (simp only: clean_comps_step(2))
  next
    case 2
    with Cons.IH [of "[]"] show ?thesis by (simp add: clean_comps_step(3))
  next
    case (3 t ts)
    with Cons.prems have "t \<noteq> ''..''" by (simp add: normal_comp_def)
    with 3 Cons.IH [of ts] Cons.prems show ?thesis by (simp add: clean_comps_step(4))
  next
    case 4
    with Cons.IH [of "c # out"] Cons.prems show ?thesis by (simp add: clean_comps_step(1))
  qed
qed simp

end
