(* ===== verification/GoStrconv.thy ===== *)
theory GoStrconv
  imports GoStrings
begin

text \<open>
  The parts of Go's \<open>strconv\<close> the runner uses: \<open>Itoa\<close>, \<open>FormatInt\<close> in base 16, \<open>Atoi\<close>, and
  \<open>Quote\<close> on ASCII strings (the runner quotes registered language names, status names, its own
  literals and grammar-checked paths, all ASCII). \<open>Atoi\<close> undoes \<open>Itoa\<close> on every 64-bit value.
\<close>

subsection \<open>Digits\<close>

definition digit_char :: "nat \<Rightarrow> char" where
  "digit_char d = (if d < 10 then char_of (48 + d) else char_of (87 + d))"

fun digits_in :: "nat \<Rightarrow> nat \<Rightarrow> bytes" where
  "digits_in b n =
     (if b < 2 \<or> n < b then [digit_char n] else digits_in b (n div b) @ [digit_char (n mod b)])"

declare digits_in.simps [simp del]

definition itoa :: "int \<Rightarrow> bytes" where
  "itoa x = (if x < 0 then CHR ''-'' # digits_in 10 (nat (- x)) else digits_in 10 (nat x))"

definition format_hex :: "int \<Rightarrow> bytes" where
  "format_hex x = (if x < 0 then CHR ''-'' # digits_in 16 (nat (- x)) else digits_in 16 (nat x))"

definition digit_val :: "char \<Rightarrow> nat option" where
  "digit_val c = (if 48 \<le> (of_char c :: nat) \<and> (of_char c :: nat) \<le> 57
                  then Some (of_char c - 48) else None)"

fun parse_digits :: "nat \<Rightarrow> bytes \<Rightarrow> nat option" where
  "parse_digits acc [] = Some acc"
| "parse_digits acc (c # cs) =
     (case digit_val c of None \<Rightarrow> None | Some d \<Rightarrow> parse_digits (10 * acc + d) cs)"

text \<open>
  \<open>strconv.Atoi\<close>: an optional sign, at least one decimal digit and nothing else; a value outside
  64 bits is an error.
\<close>

definition atoi_body :: "bool \<Rightarrow> bytes \<Rightarrow> int option" where
  "atoi_body neg body =
     (if body = [] then None
      else (case parse_digits 0 body of
              None \<Rightarrow> None
            | Some n \<Rightarrow> (let v = (if neg then - int n else int n)
                       in if fits64 v then Some v else None)))"

definition atoi :: "bytes \<Rightarrow> int option" where
  "atoi s = (case s of
               [] \<Rightarrow> None
             | c # cs \<Rightarrow> (if c = CHR ''-'' then atoi_body True cs
                        else if c = CHR ''+'' then atoi_body False cs
                        else atoi_body False s))"

lemma of_char_char_of_small: "n < 256 \<Longrightarrow> of_char (char_of n :: char) = (n :: nat)"
  by simp

lemma digit_val_char [simp]: "d < 10 \<Longrightarrow> digit_val (digit_char d) = Some d"
  by (simp add: digit_val_def digit_char_def)

lemma digits_in_not_Nil [simp]: "digits_in b n \<noteq> []"
  by (subst digits_in.simps) simp

lemma parse_digits_append:
  "parse_digits acc (xs @ ys) =
     (case parse_digits acc xs of None \<Rightarrow> None | Some m \<Rightarrow> parse_digits m ys)"
  by (induction xs arbitrary: acc) (auto split: option.splits)

lemma parse_digits_in: "\<exists>k. \<forall>acc. parse_digits acc (digits_in 10 n) = Some (acc * 10 ^ k + n)"
proof (induction n rule: less_induct)
  case (less n)
  show ?case
  proof (cases "n < 10")
    case True
    then have "\<forall>acc. parse_digits acc (digits_in 10 n) = Some (acc * 10 ^ 1 + n)"
      by (subst digits_in.simps) simp
    then show ?thesis by blast
  next
    case False
    then have "n div 10 < n" by simp
    then obtain k where k: "\<forall>acc. parse_digits acc (digits_in 10 (n div 10)) = Some (acc * 10 ^ k + n div 10)"
      using less.IH by blast
    have "\<forall>acc. parse_digits acc (digits_in 10 n) = Some (acc * 10 ^ Suc k + n)"
      using False by (subst digits_in.simps) (simp add: parse_digits_append k algebra_simps)
    then show ?thesis by blast
  qed
qed

lemma parse_digits_roundtrip [simp]: "parse_digits 0 (digits_in 10 n) = Some n"
  using parse_digits_in [of n] by auto

lemma digits_in_digit: "2 \<le> b \<Longrightarrow> c \<in> set (digits_in b n) \<Longrightarrow> \<exists>d<b. c = digit_char d"
proof (induction n rule: less_induct)
  case (less n)
  show ?case
  proof (cases "n < b")
    case True
    with less.prems show ?thesis by (subst (asm) digits_in.simps) auto
  next
    case False
    with less.prems have "c \<in> set (digits_in b (n div b)) \<or> c = digit_char (n mod b)"
      by (subst (asm) digits_in.simps) auto
    moreover have "n div b < n" using less.prems(1) False by simp
    moreover have "n mod b < b" using less.prems(1) by simp
    ultimately show ?thesis using less.IH less.prems(1) by blast
  qed
qed

lemma digit_char_code: "d < 10 \<Longrightarrow> of_char (digit_char d) = 48 + d"
  by (simp add: digit_char_def)

lemma digits10_no_sign: "c \<in> set (digits_in 10 n) \<Longrightarrow> c \<noteq> CHR ''-'' \<and> c \<noteq> CHR ''+''"
proof -
  assume "c \<in> set (digits_in 10 n)"
  then obtain d where "d < 10" "c = digit_char d" using digits_in_digit [of 10] by auto
  then have "(of_char c :: nat) = 48 + d" by (simp add: digit_char_code)
  then show ?thesis by auto
qed

lemma atoi_itoa:
  assumes "fits64 x"
  shows "atoi (itoa x) = Some x"
proof (cases "x < 0")
  case True
  with assms show ?thesis by (simp add: atoi_def itoa_def atoi_body_def Let_def)
next
  case False
  obtain c cs where ds: "digits_in 10 (nat x) = c # cs"
    by (meson digits_in_not_Nil neq_Nil_conv)
  then have "c \<noteq> CHR ''-'' \<and> c \<noteq> CHR ''+''"
    using digits10_no_sign [of c "nat x"] by simp
  with False ds have "atoi (itoa x) = atoi_body False (digits_in 10 (nat x))"
    by (simp add: atoi_def itoa_def)
  with False assms show ?thesis by (simp add: atoi_body_def Let_def)
qed

lemma atoi_fits: "atoi s = Some n \<Longrightarrow> fits64 n"
  by (auto simp: atoi_def atoi_body_def Let_def split: list.splits option.splits if_splits)

lemma digits_in_chars:
  "c \<in> set (digits_in 10 n) \<Longrightarrow> CHR ''0'' \<le> c \<and> c \<le> CHR ''9''"
proof -
  assume "c \<in> set (digits_in 10 n)"
  then obtain d where "d < 10" "c = digit_char d" using digits_in_digit [of 10] by auto
  then have "(of_char c :: nat) = 48 + d" by (simp add: digit_char_code)
  with \<open>d < 10\<close> show ?thesis by (simp add: less_eq_char_def)
qed

subsection \<open>Quote\<close>

definition hex2 :: "char \<Rightarrow> bytes" where
  "hex2 c = (let n = (of_char c :: nat) in [digit_char (n div 16), digit_char (n mod 16)])"

definition quote_char :: "char \<Rightarrow> bytes" where
  "quote_char c =
     (if c = CHR 0x22 then [CHR 0x5C, CHR 0x22]
      else if c = CHR 0x5C then [CHR 0x5C, CHR 0x5C]
      else if CHR 0x20 \<le> c \<and> c \<le> CHR 0x7E then [c]
      else if c = CHR 0x07 then [CHR 0x5C, CHR ''a'']
      else if c = CHR 0x08 then [CHR 0x5C, CHR ''b'']
      else if c = CHR 0x0C then [CHR 0x5C, CHR ''f'']
      else if c = CHR 0x0A then [CHR 0x5C, CHR ''n'']
      else if c = CHR 0x0D then [CHR 0x5C, CHR ''r'']
      else if c = CHR 0x09 then [CHR 0x5C, CHR ''t'']
      else if c = CHR 0x0B then [CHR 0x5C, CHR ''v'']
      else [CHR 0x5C, CHR ''x''] @ hex2 c)"

definition go_quote :: "bytes \<Rightarrow> bytes" where
  "go_quote s = [CHR 0x22] @ concat (map quote_char s) @ [CHR 0x22]"

definition plain_char :: "char \<Rightarrow> bool" where
  "plain_char c \<longleftrightarrow> CHR 0x20 \<le> c \<and> c \<le> CHR 0x7E \<and> c \<noteq> CHR 0x22 \<and> c \<noteq> CHR 0x5C"

lemma go_quote_plain: "\<forall>c\<in>set s. plain_char c \<Longrightarrow> go_quote s = [CHR 0x22] @ s @ [CHR 0x22]"
proof -
  assume "\<forall>c\<in>set s. plain_char c"
  then have "concat (map quote_char s) = s"
    by (induction s) (auto simp: quote_char_def plain_char_def)
  then show ?thesis by (simp add: go_quote_def)
qed

end
