(* ===== verification/FilePolicy.thy ===== *)
theory FilePolicy
  imports RunnerApi GoRegexp GoPath GoStrconv
begin

text \<open>
  \<^verbatim>\<open>internal/executor/filepolicy.go\<close>: the rulebook a multi-file submission is checked against
  before anything touches the disk. The policies of every language, the path grammar, the loop
  over the files and the entrypoint rule are transcribed; \<open>path_ok\<close> and \<open>files_ok\<close> state what
  an accepted submission is, and the operations are proved to accept exactly that.
\<close>

subsection \<open>Policies\<close>

record FilePolicy =
  PolicyLanguage :: bytes
  MaxFiles :: int
  MaxFileBytes :: int
  MaxFilesBytes :: int
  MaxPathBytes :: int
  MaxPathDepth :: int
  AllowedExts :: "bytes set"
  CompileExts :: "bytes set"
  ForbiddenNames :: "bytes set"
  ForbiddenComponents :: "bytes set"
  DefaultEntry :: bytes
  EntryIsClass :: bool

record FileCaps =
  CapMaxFiles :: int
  CapMaxFileBytes :: int
  CapMaxFilesBytes :: int
  CapMaxPathBytes :: int
  CapMaxPathDepth :: int

definition exts :: "bytes list \<Rightarrow> bytes set" where
  "exts xs = set xs"

definition names :: "bytes list \<Rightarrow> bytes set" where
  "names xs = set xs"

definition mk_policy ::
  "bytes \<Rightarrow> bytes set \<Rightarrow> bytes set \<Rightarrow> bytes set \<Rightarrow> bytes set \<Rightarrow> bytes \<Rightarrow> bool \<Rightarrow> FilePolicy" where
  "mk_policy lang allowed units forb_names forb_comps entry is_class =
     \<lparr>PolicyLanguage = lang, MaxFiles = 0, MaxFileBytes = 0, MaxFilesBytes = 0, MaxPathBytes = 0,
      MaxPathDepth = 0, AllowedExts = allowed, CompileExts = units, ForbiddenNames = forb_names,
      ForbiddenComponents = forb_comps, DefaultEntry = entry, EntryIsClass = is_class\<rparr>"

definition filePolicies :: "bytes \<rightharpoonup> FilePolicy" where
  "filePolicies = map_of
     [(''python'', mk_policy ''python'' (exts [''.py'']) {}
         (names [''setup.py'', ''pyproject.toml'', ''conftest.py'']) (names [''__pycache__''])
         ''main.py'' False),
      (''javascript'', mk_policy ''javascript'' (exts [''.js'', ''.mjs'', ''.cjs'', ''.json'']) {}
         (names [''package.json'', ''package-lock.json'', ''yarn.lock'', ''pnpm-lock.yaml''])
         (names [''node_modules'']) ''main.js'' False),
      (''lua'', mk_policy ''lua'' (exts [''.lua'']) {} {} {} ''main.lua'' False),
      (''php'', mk_policy ''php'' (exts [''.php'']) {}
         (names [''composer.json'', ''composer.lock'']) (names [''vendor'']) ''main.php'' False),
      (''c'', mk_policy ''c'' (exts [''.c'', ''.h'']) (exts [''.c'']) {} {} ''main.c'' False),
      (''cpp'', mk_policy ''cpp'' (exts [''.cpp'', ''.cc'', ''.cxx'', ''.hpp'', ''.hh'', ''.h''])
         (exts [''.cpp'', ''.cc'', ''.cxx'']) {} {} ''main.cpp'' False),
      (''go'', mk_policy ''go'' (exts [''.go'']) (exts [''.go''])
         (names [''go.mod'', ''go.sum'', ''go.work'', ''go.work.sum'']) (names [''vendor''])
         ''main.go'' False),
      (''java'', mk_policy ''java'' (exts [''.java'']) (exts [''.java'']) {} {} ''Main'' True),
      (''rust'', mk_policy ''rust'' (exts [''.rs'']) (exts [''.rs''])
         (names [''Cargo.toml'', ''Cargo.lock'', ''build.rs'', ''rust-toolchain.toml''])
         (names [''target'']) ''main.rs'' False)]"

definition testFilePolicies :: "bytes \<rightharpoonup> FilePolicy" where
  "testFilePolicies = map_of
     [(''python'', mk_policy ''python'' (exts [''.py'']) {}
         (names [''setup.py'', ''pyproject.toml'']) (names [''__pycache__'']) [] False),
      (''go'', mk_policy ''go'' (exts [''.go'']) (exts [''.go''])
         (names [''go.mod'', ''go.sum'', ''go.work'', ''go.work.sum'']) (names [''vendor''])
         [] False),
      (''javascript'', mk_policy ''javascript'' (exts [''.js'', ''.mjs'', ''.cjs'', ''.json'']) {}
         (names [''package.json'', ''package-lock.json'', ''yarn.lock'', ''pnpm-lock.yaml''])
         (names [''node_modules'']) [] False),
      (''java'', mk_policy ''java'' (exts [''.java'']) (exts [''.java'']) {} {} [] False)]"

text \<open>The execution modes (\<^verbatim>\<open>testmode.go\<close> and \<^verbatim>\<open>tracemode.go\<close>).\<close>

definition modeRun :: bytes where "modeRun = ''run''"
definition modeTest :: bytes where "modeTest = ''test''"
definition modeTrace :: bytes where "modeTrace = ''trace''"

lemma modes_distinct [simp]:
  "modeTest \<noteq> modeRun" "modeTrace \<noteq> modeRun" "modeTrace \<noteq> modeTest"
  "modeRun \<noteq> modeTest" "modeRun \<noteq> modeTrace" "modeTest \<noteq> modeTrace"
  "modeTest \<noteq> []" "modeTrace \<noteq> []" "modeRun \<noteq> []"
  by (simp_all add: modeRun_def modeTest_def modeTrace_def)

definition with_caps :: "FileCaps \<Rightarrow> FilePolicy \<Rightarrow> FilePolicy" where
  "with_caps caps p =
     p\<lparr>MaxFiles := CapMaxFiles caps, MaxFileBytes := CapMaxFileBytes caps,
       MaxFilesBytes := CapMaxFilesBytes caps, MaxPathBytes := CapMaxPathBytes caps,
       MaxPathDepth := CapMaxPathDepth caps\<rparr>"

definition policyForMode :: "bytes \<Rightarrow> bytes \<Rightarrow> FileCaps \<Rightarrow> FilePolicy option" where
  "policyForMode language mode caps =
     map_option (with_caps caps)
       ((if mode = modeTest then testFilePolicies else filePolicies) language)"

definition policyFor :: "bytes \<Rightarrow> FileCaps \<Rightarrow> FilePolicy option" where
  "policyFor language caps = policyForMode language modeRun caps"

subsection \<open>Grammars\<close>

definition alnum_ranges :: "(char \<times> char) list" where
  "alnum_ranges = [(CHR ''A'', CHR ''Z''), (CHR ''a'', CHR ''z''), (CHR ''0'', CHR ''9'')]"

definition head_ranges :: "(char \<times> char) list" where
  "head_ranges = alnum_ranges @ [(CHR ''_'', CHR ''_'')]"

definition comp_ranges :: "(char \<times> char) list" where
  "comp_ranges =
     alnum_ranges @ [(CHR ''.'', CHR ''.''), (CHR ''_'', CHR ''_''), (CHR ''-'', CHR ''-'')]"

definition path_ranges :: "(char \<times> char) list" where
  "path_ranges =
     alnum_ranges @ [(CHR ''.'', CHR ''.''), (CHR ''_'', CHR ''_''), (CHR ''/'', CHR ''/''),
                     (CHR ''-'', CHR ''-'')]"

definition pathGrammar :: re where
  "pathGrammar = RSeq (RCls head_ranges) (RStar (RCls path_ranges))"

definition componentGrammar :: re where
  "componentGrammar = RSeq (RCls head_ranges) (RStar (RCls comp_ranges))"

definition java_start :: "(char \<times> char) list" where
  "java_start =
     [(CHR ''A'', CHR ''Z''), (CHR ''a'', CHR ''z''), (CHR ''_'', CHR ''_''), (CHR ''$'', CHR ''$'')]"

definition java_part :: "(char \<times> char) list" where
  "java_part = java_start @ [(CHR ''0'', CHR ''9'')]"

definition javaClassRe :: re where
  "javaClassRe =
     RSeq (RSeq (RCls java_start) (RStar (RCls java_part)))
       (RStar (RSeq (RCls [(CHR ''.'', CHR ''.'')])
                 (RSeq (RCls java_start) (RStar (RCls java_part)))))"

subsection \<open>Validation\<close>

fun check_components :: "FilePolicy \<Rightarrow> bytes list \<Rightarrow> run_error option" where
  "check_components p [] = None"
| "check_components p (c # cs) =
     (if c = [] then Some (ValidationError ''invalid_path'')
      else if \<not> matches componentGrammar c then Some (ValidationError ''invalid_path'')
      else if c \<in> ForbiddenComponents p then Some (ValidationError ''forbidden_path'')
      else check_components p cs)"

definition validatePath :: "bytes \<Rightarrow> FilePolicy \<Rightarrow> run_error + bytes" where
  "validatePath raw p =
     (if raw = [] then invalid ''invalid_path''
      else if MaxPathBytes p > 0 \<and> len raw > MaxPathBytes p then invalid ''invalid_path''
      else if \<not> matches pathGrammar raw then invalid ''invalid_path''
      else let clean = path_Clean raw in
      if clean \<noteq> raw then invalid ''invalid_path''
      else let comps = split_on CHR ''/'' clean in
      if MaxPathDepth p > 0 \<and> len comps > MaxPathDepth p then invalid ''invalid_path''
      else (case check_components p comps of
              Some e \<Rightarrow> Inl e
            | None \<Rightarrow>
                let base = last comps in
                if base \<in> ForbiddenNames p then invalid ''forbidden_file''
                else if to_lower (path_Ext base) \<notin> AllowedExts p then invalid ''forbidden_extension''
                else Inr clean))"

fun validate_loop ::
  "FilePolicy \<Rightarrow> RunFile list \<Rightarrow> bytes set \<Rightarrow> int \<Rightarrow> bool \<Rightarrow> run_error + (bytes set \<times> bool)" where
  "validate_loop p [] seen tot has_unit = Inr (seen, has_unit)"
| "validate_loop p (f # fs) seen tot has_unit =
     (if MaxFileBytes p > 0 \<and> len (Content f) > MaxFileBytes p then invalid ''file_too_large''
      else let tot' = tot + len (Content f) in
      if MaxFilesBytes p > 0 \<and> tot' > MaxFilesBytes p then invalid ''files_too_large''
      else rbind (validatePath (Path f) p) (\<lambda>clean.
        if clean \<in> seen then invalid ''duplicate_path''
        else validate_loop p fs (insert clean seen) tot'
               (has_unit \<or> to_lower (path_Ext clean) \<in> CompileExts p)))"

definition validatePaths :: "RunFile list \<Rightarrow> FilePolicy \<Rightarrow> run_error + (RunFile list \<times> bytes set)" where
  "validatePaths files p =
     (if files = [] then invalid ''no_files''
      else if MaxFiles p > 0 \<and> len files > MaxFiles p then invalid ''too_many_files''
      else rbind (validate_loop p files {} 0 (CompileExts p = {})) (\<lambda>(seen, has_unit).
        if \<not> has_unit then invalid ''no_compile_unit''
        else Inr (sort_key Path files, seen)))"

definition resolveEntrypoint :: "bytes \<Rightarrow> bytes set \<Rightarrow> FilePolicy \<Rightarrow> run_error + bytes" where
  "resolveEntrypoint entry0 files p =
     (let entry = (if entry0 = [] then DefaultEntry p else entry0) in
      if EntryIsClass p then
        (if \<not> matches javaClassRe entry then invalid ''invalid_entrypoint'' else Inr entry)
      else (case validatePath entry p of
              Inl _ \<Rightarrow> invalid ''invalid_entrypoint''
            | Inr clean \<Rightarrow>
                (if clean \<notin> files then invalid ''missing_entrypoint'' else Inr clean)))"

definition validateFiles :: "RunRequest \<Rightarrow> FilePolicy \<Rightarrow> run_error + (RunFile list \<times> bytes)" where
  "validateFiles req p =
     rbind (validatePaths (Files req) p) (\<lambda>(out, seen).
       rbind (resolveEntrypoint (Entrypoint req) seen p) (\<lambda>entry. Inr (out, entry)))"

definition validateTestFiles :: "RunRequest \<Rightarrow> FilePolicy \<Rightarrow> run_error + RunFile list" where
  "validateTestFiles req p = rbind (validatePaths (Files req) p) (\<lambda>(out, _). Inr out)"

subsection \<open>What an accepted path is\<close>

definition comp_ok :: "bytes \<Rightarrow> bool" where
  "comp_ok c \<longleftrightarrow> c \<noteq> [] \<and> in_class head_ranges (hd c) \<and> list_all (in_class comp_ranges) c"

definition path_ok :: "FilePolicy \<Rightarrow> bytes \<Rightarrow> bool" where
  "path_ok p raw \<longleftrightarrow>
     (let comps = split_on CHR ''/'' raw in
      (MaxPathBytes p > 0 \<longrightarrow> len raw \<le> MaxPathBytes p) \<and>
      (MaxPathDepth p > 0 \<longrightarrow> len comps \<le> MaxPathDepth p) \<and>
      (\<forall>c\<in>set comps. comp_ok c \<and> c \<notin> ForbiddenComponents p) \<and>
      last comps \<notin> ForbiddenNames p \<and>
      to_lower (path_Ext (last comps)) \<in> AllowedExts p)"

lemma head_in_comp: "in_class head_ranges c \<Longrightarrow> in_class comp_ranges c"
  by (auto simp: in_class_def head_ranges_def comp_ranges_def alnum_ranges_def)

lemma comp_in_path: "in_class comp_ranges c \<Longrightarrow> in_class path_ranges c"
  by (auto simp: in_class_def path_ranges_def comp_ranges_def alnum_ranges_def)

lemma head_not_special: "in_class head_ranges c \<Longrightarrow> c \<noteq> CHR ''.'' \<and> c \<noteq> CHR ''-'' \<and> c \<noteq> CHR ''/''"
  by (auto simp: in_class_def head_ranges_def alnum_ranges_def)

lemma comp_not_slash: "in_class comp_ranges c \<Longrightarrow> c \<noteq> CHR ''/''"
  by (auto simp: in_class_def comp_ranges_def alnum_ranges_def)

lemma slash_in_path: "in_class path_ranges CHR ''/''"
  by (simp add: in_class_def path_ranges_def alnum_ranges_def)

lemma componentGrammar_comp_ok: "matches componentGrammar c \<longleftrightarrow> comp_ok c"
  unfolding componentGrammar_def matches_head_star comp_ok_def
  by (cases c) (auto simp: head_in_comp)

lemma comp_ok_normal: "comp_ok c \<Longrightarrow> normal_comp c"
  by (cases c) (auto simp: comp_ok_def normal_comp_def dest: head_not_special)

lemma check_components_None:
  "check_components p cs = None \<longleftrightarrow> (\<forall>c\<in>set cs. comp_ok c \<and> c \<notin> ForbiddenComponents p)"
  by (induction cs) (auto simp: componentGrammar_comp_ok comp_ok_def)

lemma split_hd: "s \<noteq> [] \<Longrightarrow> hd s \<noteq> c \<Longrightarrow> hd (split_on c s) \<noteq> [] \<and> hd (hd (split_on c s)) = hd s"
  by (cases s) (auto split: list.splits)

text \<open>The whole-path grammar and the normal-form check follow from the per-component rules.\<close>

lemma comps_ok_pathGrammar:
  assumes "\<forall>c\<in>set (split_on CHR ''/'' raw). comp_ok c"
  shows "raw \<noteq> []" "matches pathGrammar raw" "path_Clean raw = raw"
proof -
  show ne: "raw \<noteq> []" using assms by (auto simp: comp_ok_def)
  show "path_Clean raw = raw"
    using assms by (intro path_Clean_normal) (auto dest: comp_ok_normal)
  have h: "comp_ok (hd (split_on CHR ''/'' raw))" using assms by simp
  have nslash: "hd raw \<noteq> CHR ''/''"
    using h ne by (cases raw) (auto simp: comp_ok_def)
  have hd: "in_class head_ranges (hd raw)"
    using h split_hd [OF ne nslash] by (auto simp: comp_ok_def)
  have "set raw \<subseteq> insert CHR ''/'' (\<Union>w\<in>set (split_on CHR ''/'' raw). set w)"
    using set_join_with [of "CHR ''/''" "split_on CHR ''/'' raw"] by simp
  then have "\<forall>c\<in>set raw. in_class path_ranges c"
    using assms by (fastforce simp: comp_ok_def list_all_iff slash_in_path dest: comp_in_path)
  then have "list_all (in_class path_ranges) (tl raw)"
    using ne by (auto simp: list_all_iff dest: list.set_sel(2))
  with ne hd show "matches pathGrammar raw"
    by (simp add: pathGrammar_def matches_head_star)
qed

lemma validatePath_iff: "validatePath raw p = Inr clean \<longleftrightarrow> clean = raw \<and> path_ok p raw"
proof
  assume v: "validatePath raw p = Inr clean"
  then have "path_Clean raw = raw"
    by (auto simp: validatePath_def Let_def split: if_split_asm)
  with v show "clean = raw \<and> path_ok p raw"
    by (auto simp: validatePath_def Let_def path_ok_def check_components_None [symmetric]
        split: if_split_asm option.split_asm)
next
  assume r: "clean = raw \<and> path_ok p raw"
  then have ok: "\<forall>c\<in>set (split_on CHR ''/'' raw). comp_ok c"
    by (auto simp: path_ok_def Let_def)
  have "check_components p (split_on CHR ''/'' raw) = None"
    using r by (auto simp: check_components_None path_ok_def Let_def)
  with r comps_ok_pathGrammar [OF ok] show "validatePath raw p = Inr clean"
    by (auto simp: validatePath_def Let_def path_ok_def)
qed

lemma validatePath_cases [case_names ok bad]:
  obtains "validatePath raw p = Inr raw" "path_ok p raw"
  | e where "validatePath raw p = Inl e" "\<not> path_ok p raw"
  using validatePath_iff [of raw p] by (cases "validatePath raw p") auto

lemma path_ok_comps: "path_ok p raw \<Longrightarrow> c \<in> set (split_on CHR ''/'' raw) \<Longrightarrow> comp_ok c"
  by (auto simp: path_ok_def Let_def)

lemma path_ok_nonempty: "path_ok p raw \<Longrightarrow> raw \<noteq> []"
  using comps_ok_pathGrammar(1) path_ok_comps by blast

subsection \<open>What an accepted submission is\<close>

definition total_bytes :: "RunFile list \<Rightarrow> int" where
  "total_bytes fs = sum_list (map (\<lambda>f. len (Content f)) fs)"

lemma total_bytes_simps [simp]:
  "total_bytes [] = 0" "total_bytes (f # fs) = len (Content f) + total_bytes fs"
  by (simp_all add: total_bytes_def)

lemma total_bytes_nonneg [simp]: "0 \<le> total_bytes fs"
  by (induction fs) auto

definition compile_unit :: "FilePolicy \<Rightarrow> RunFile \<Rightarrow> bool" where
  "compile_unit p f \<longleftrightarrow> to_lower (path_Ext (Path f)) \<in> CompileExts p"

definition files_ok :: "FilePolicy \<Rightarrow> RunFile list \<Rightarrow> bool" where
  "files_ok p fs \<longleftrightarrow>
     fs \<noteq> [] \<and>
     (MaxFiles p > 0 \<longrightarrow> len fs \<le> MaxFiles p) \<and>
     (MaxFileBytes p > 0 \<longrightarrow> (\<forall>f\<in>set fs. len (Content f) \<le> MaxFileBytes p)) \<and>
     (MaxFilesBytes p > 0 \<longrightarrow> total_bytes fs \<le> MaxFilesBytes p) \<and>
     (\<forall>f\<in>set fs. path_ok p (Path f)) \<and>
     distinct (map Path fs) \<and>
     (CompileExts p = {} \<or> (\<exists>f\<in>set fs. compile_unit p f))"

lemma validate_loop_iff:
  "validate_loop p fs seen tot u = Inr r \<longleftrightarrow>
     (MaxFileBytes p > 0 \<longrightarrow> (\<forall>f\<in>set fs. len (Content f) \<le> MaxFileBytes p)) \<and>
     (MaxFilesBytes p > 0 \<longrightarrow> fs \<noteq> [] \<longrightarrow> tot + total_bytes fs \<le> MaxFilesBytes p) \<and>
     (\<forall>f\<in>set fs. path_ok p (Path f)) \<and>
     distinct (map Path fs) \<and> Path ` set fs \<inter> seen = {} \<and>
     r = (Path ` set fs \<union> seen, u \<or> (\<exists>f\<in>set fs. compile_unit p f))"
proof (induction fs arbitrary: seen tot u)
  case Nil
  then show ?case by auto
next
  case (Cons f fs)
  show ?case
  proof (cases "validatePath (Path f) p = Inr (Path f) \<and> path_ok p (Path f)")
    case False
    then obtain e where "validatePath (Path f) p = Inl e" "\<not> path_ok p (Path f)"
      using validatePath_iff [of "Path f" p] by (cases "validatePath (Path f) p") auto
    then show ?thesis by (auto simp: Let_def)
  next
    case True
    have over: "\<not> tot + (len (Content f) + total_bytes fs) \<le> MaxFilesBytes p"
      if "MaxFilesBytes p < tot + len (Content f)"
      using that total_bytes_nonneg [of fs] by linarith
    show ?thesis
      using True over by (cases "fs = []") (auto simp: Let_def Cons.IH compile_unit_def)
  qed
qed

lemma validatePaths_iff:
  "validatePaths fs p = Inr (out, seen) \<longleftrightarrow>
     files_ok p fs \<and> out = sort_key Path fs \<and> seen = Path ` set fs"
  by (auto simp: validatePaths_def files_ok_def validate_loop_iff split: if_splits)

subsection \<open>Consequences\<close>

lemma files_ok_mset: "mset fs = mset gs \<Longrightarrow> files_ok p fs = files_ok p gs"
proof -
  assume m: "mset fs = mset gs"
  have len: "len fs = len gs" using mset_eq_length [OF m] by (simp add: len_def)
  have set: "set fs = set gs" using m by (rule mset_eq_setD)
  have "mset (map (\<lambda>f. len (Content f)) fs) = mset (map (\<lambda>f. len (Content f)) gs)"
    using m by simp
  then have tot: "total_bytes fs = total_bytes gs"
    unfolding total_bytes_def by (simp only: sum_mset_sum_list [symmetric])
  have "mset (map Path fs) = mset (map Path gs)" using m by simp
  then have dist: "distinct (map Path fs) = distinct (map Path gs)"
    by (rule mset_eq_imp_distinct_iff)
  have nil: "fs = [] \<longleftrightarrow> gs = []" using len by (simp flip: len_eq0_iff)
  show ?thesis unfolding files_ok_def len set tot dist nil ..
qed

lemma files_ok_sort [simp]: "files_ok p (sort_key Path fs) = files_ok p fs"
  by (rule files_ok_mset) simp

definition uncapped :: "FilePolicy \<Rightarrow> FilePolicy" where
  "uncapped p = p\<lparr>MaxFiles := 0, MaxFileBytes := 0, MaxFilesBytes := 0, MaxPathBytes := 0,
                  MaxPathDepth := 0\<rparr>"

lemma files_ok_uncapped: "files_ok p fs \<Longrightarrow> files_ok (uncapped p) fs"
  by (auto simp: files_ok_def path_ok_def Let_def uncapped_def compile_unit_def)

lemma uncapped_with_caps [simp]: "uncapped (with_caps caps p) = uncapped p"
  by (simp add: uncapped_def with_caps_def)

lemma registry_uncapped:
  "filePolicies lang = Some p \<Longrightarrow> uncapped p = p"
  "testFilePolicies lang = Some p \<Longrightarrow> uncapped p = p"
  by (auto simp: filePolicies_def testFilePolicies_def uncapped_def mk_policy_def split: if_splits)

subsection \<open>Java class names\<close>

definition java_ident :: "bytes \<Rightarrow> bool" where
  "java_ident w \<longleftrightarrow> w \<noteq> [] \<and> in_class java_start (hd w) \<and> list_all (in_class java_part) (tl w)"

lemma java_ident_re: "w \<in> re_lang (RSeq (RCls java_start) (RStar (RCls java_part))) \<longleftrightarrow> java_ident w"
  unfolding matches_lang [symmetric] matches_head_star java_ident_def ..

lemma java_ident_no_dot: "java_ident w \<Longrightarrow> CHR ''.'' \<notin> set w \<and> CHR ''/'' \<notin> set w"
  by (cases w) (auto simp: java_ident_def in_class_def java_start_def java_part_def list_all_iff)

lemma star_dotted:
  "v \<in> star_lang {u @ w | u w. u \<in> re_lang (RCls [(CHR ''.'', CHR ''.'')]) \<and> java_ident w} \<longleftrightarrow>
     (\<exists>ws. (\<forall>w\<in>set ws. java_ident w) \<and> v = concat (map ((#) CHR ''.'') ws))"
proof
  assume "v \<in> star_lang {u @ w | u w. u \<in> re_lang (RCls [(CHR ''.'', CHR ''.'')]) \<and> java_ident w}"
  then show "\<exists>ws. (\<forall>w\<in>set ws. java_ident w) \<and> v = concat (map ((#) CHR ''.'') ws)"
  proof (induction rule: star_lang.induct)
    case star_Nil
    show ?case by (rule exI [of _ "[]"]) simp
  next
    case (star_app u v)
    then obtain w ws where "u = CHR ''.'' # w" "java_ident w" "\<forall>w\<in>set ws. java_ident w"
      "v = concat (map ((#) CHR ''.'') ws)"
      by (auto simp: in_class_def)
    then show ?case by (intro exI [of _ "w # ws"]) simp
  qed
next
  assume "\<exists>ws. (\<forall>w\<in>set ws. java_ident w) \<and> v = concat (map ((#) CHR ''.'') ws)"
  then obtain ws where "\<forall>w\<in>set ws. java_ident w" and v: "v = concat (map ((#) CHR ''.'') ws)"
    by blast
  from this(1)
  have "concat (map ((#) CHR ''.'') ws)
      \<in> star_lang {u @ w | u w. u \<in> re_lang (RCls [(CHR ''.'', CHR ''.'')]) \<and> java_ident w}"
  proof (induction ws)
    case (Cons w ws)
    have "''.'' \<in> re_lang (RCls [(CHR ''.'', CHR ''.'')])" by (simp add: in_class_def)
    moreover have "java_ident w" using Cons.prems by simp
    ultimately have "''.'' @ w \<in> {u @ w | u w. u \<in> re_lang (RCls [(CHR ''.'', CHR ''.'')]) \<and> java_ident w}"
      by blast
    from star_lang.star_app [OF this Cons.IH] Cons.prems show ?case by simp
  qed (simp add: star_lang.star_Nil)
  with v show "v \<in> star_lang {u @ w | u w. u \<in> re_lang (RCls [(CHR ''.'', CHR ''.'')]) \<and> java_ident w}"
    by simp
qed

lemma dotted_join: "u @ concat (map ((#) c) ws) = join_with [c] (u # ws)"
proof (induction ws arbitrary: u)
  case (Cons w ws)
  from Cons.IH [of w] show ?case by simp
qed simp

lemma javaClassRe_iff: "matches javaClassRe s \<longleftrightarrow> (\<forall>w\<in>set (split_on CHR ''.'' s). java_ident w)"
proof -
  have "matches javaClassRe s \<longleftrightarrow>
      (\<exists>u ws. java_ident u \<and> (\<forall>w\<in>set ws. java_ident w) \<and> s = join_with ''.'' (u # ws))"
    unfolding matches_lang javaClassRe_def re_lang.simps(4) [of "RSeq _ _"] re_lang.simps(6)
      re_lang.simps(4) [of "RCls [(CHR ''.'', CHR ''.'')]"] java_ident_re star_dotted
      mem_Collect_eq dotted_join [symmetric]
    by blast
  also have "\<dots> \<longleftrightarrow> (\<forall>w\<in>set (split_on CHR ''.'' s). java_ident w)" (is "?L \<longleftrightarrow> ?R")
  proof
    assume ?L
    then obtain u ws where ws: "\<forall>w\<in>set (u # ws). java_ident w" and s: "s = join_with ''.'' (u # ws)"
      by auto
    have "split_on CHR ''.'' s = u # ws"
      unfolding s using ws java_ident_no_dot by (intro split_join) auto
    with ws show ?R by simp
  next
    assume r: ?R
    obtain u ws where sp: "split_on CHR ''.'' s = u # ws"
      by (cases "split_on CHR ''.'' s") auto
    moreover have "s = join_with ''.'' (split_on CHR ''.'' s)" by simp
    ultimately have "s = join_with ''.'' (u # ws)" by simp
    with r sp show ?L by auto
  qed
  finally show ?thesis .
qed

subsection \<open>Properties\<close>

text \<open>C10: An accepted path is returned unchanged and is safe: prefixed with the in-jail source root it is
  already in normal form (nothing in it climbs out), none of its elements is empty, \<open>.\<close> or
  \<open>..\<close> or starts with anything but a letter, a digit or an underscore, it is neither absolute nor a
  flag, and its size, depth, base name and extension obey the policy.\<close>
theorem validatePath_safe:
  assumes "validatePath raw p = Inr clean"
  shows "clean = raw \<and>
    path_Clean (''/sandbox/src/'' @ raw) = ''/sandbox/src/'' @ raw \<and>
    (\<forall>c\<in>set (split_on CHR ''/'' raw).
        c \<noteq> [] \<and> c \<noteq> ''.'' \<and> c \<noteq> ''..'' \<and> in_class head_ranges (hd c) \<and>
        list_all (in_class comp_ranges) c \<and> c \<notin> ForbiddenComponents p) \<and>
    hd raw \<notin> {CHR ''/'', CHR ''.'', CHR ''-'', CHR ''@''} \<and>
    (MaxPathBytes p > 0 \<longrightarrow> len raw \<le> MaxPathBytes p) \<and>
    (MaxPathDepth p > 0 \<longrightarrow> len (split_on CHR ''/'' raw) \<le> MaxPathDepth p) \<and>
    last (split_on CHR ''/'' raw) \<notin> ForbiddenNames p \<and>
    to_lower (path_Ext (last (split_on CHR ''/'' raw))) \<in> AllowedExts p"
proof -
  from assms have eq: "clean = raw" and ok: "path_ok p raw" by (simp_all add: validatePath_iff)
  let ?cs = "split_on CHR ''/'' raw"
  have cs: "\<forall>c\<in>set ?cs. comp_ok c" using ok path_ok_comps by blast
  have norm: "\<forall>c\<in>set ?cs. normal_comp c" using cs comp_ok_normal by blast
  have sp: "split_on CHR ''/'' (''sandbox/src/'' @ raw) = ''sandbox'' # ''src'' # ?cs" by simp
  have "\<forall>c\<in>set (split_on CHR ''/'' (''sandbox/src/'' @ raw)). normal_comp c"
    unfolding sp using norm by (simp add: normal_comp_def)
  from path_Clean_rooted [OF this]
  have jail: "path_Clean (''/sandbox/src/'' @ raw) = ''/sandbox/src/'' @ raw" by simp
  have "in_class head_ranges (hd raw)"
    using comps_ok_pathGrammar [OF cs] by (simp add: pathGrammar_def matches_head_star)
  then have hd: "hd raw \<notin> {CHR ''/'', CHR ''.'', CHR ''-'', CHR ''@''}"
    by (auto simp: in_class_def head_ranges_def alnum_ranges_def)
  show ?thesis
    using eq ok jail hd norm cs unfolding path_ok_def Let_def comp_ok_def normal_comp_def by blast
qed

definition demo_caps :: FileCaps where
  "demo_caps = \<lparr>CapMaxFiles = 50, CapMaxFileBytes = 262144, CapMaxFilesBytes = 1048576,
                CapMaxPathBytes = 180, CapMaxPathDepth = 8\<rparr>"

definition demo_policy :: FilePolicy where
  "demo_policy = with_caps demo_caps (the (filePolicies ''python''))"

lemmas demo_policy_defs =
  demo_policy_def demo_caps_def with_caps_def filePolicies_def mk_policy_def exts_def names_def

lemma demo_path_ok:
  "path_ok demo_policy ''main.py''" "path_ok demo_policy ''pkg/util.py''"
  by (simp_all add: path_ok_def Let_def comp_ok_def demo_policy_defs path_Ext_def in_class_def
      head_ranges_def comp_ranges_def alnum_ranges_def ascii_lower_def)

theorem validatePath_safe_witness:
  "validatePath ''pkg/util.py'' demo_policy = Inr ''pkg/util.py'' \<and>
   path_Clean ''/sandbox/src/pkg/util.py'' = ''/sandbox/src/pkg/util.py''"
proof -
  have v: "validatePath ''pkg/util.py'' demo_policy = Inr ''pkg/util.py''"
    by (simp add: validatePath_iff demo_path_ok)
  from validatePath_safe [OF v] v show ?thesis by simp
qed

text \<open>The validator accepts exactly the well-formed submissions: every cap holds, every path obeys the
  per-element rules, no two files share a path and a compiled language has a compile unit. What it
  returns is the path-sorted list and the set of paths.\<close>
theorem validatePaths_exact:
  "validatePaths fs p = Inr (out, seen) \<longleftrightarrow>
     files_ok p fs \<and> out = sort_key Path fs \<and> seen = Path ` set fs"
  by (rule validatePaths_iff)

text \<open>The order in which a caller lists the files does not matter: a permuted submission is
  accepted with the very same canonical list, so the compile command line is deterministic.\<close>
theorem validatePaths_permutation:
  assumes "validatePaths fs p = Inr r" and "mset gs = mset fs"
  shows "validatePaths gs p = Inr r"
proof -
  obtain out seen where r: "r = (out, seen)" by (cases r)
  with assms(1) have ok: "files_ok p fs" and out: "out = sort_key Path fs" "seen = Path ` set fs"
    by (simp_all add: validatePaths_iff)
  have "files_ok p gs" using ok files_ok_mset [OF assms(2)] by simp
  moreover have "set gs = set fs" using assms(2) by (rule mset_eq_setD)
  moreover have "sort_key Path gs = sort_key Path fs"
    using calculation ok by (intro sort_key_unique) (simp_all add: files_ok_def)
  ultimately show ?thesis by (simp add: r validatePaths_iff out)
qed

definition demo_files :: "RunFile list" where
  "demo_files = [\<lparr>Path = ''pkg/util.py'', Content = ''x = 1''\<rparr>, \<lparr>Path = ''main.py'', Content = ''import pkg''\<rparr>]"

lemma demo_files_ok: "files_ok demo_policy demo_files" "files_ok demo_policy (rev demo_files)"
  using demo_path_ok
  by (simp_all add: files_ok_def demo_files_def, simp_all add: demo_policy_defs)

theorem validatePaths_permutation_witness:
  "validatePaths (rev demo_files) demo_policy = Inr (rev demo_files, Path ` set demo_files)"
proof -
  have "validatePaths demo_files demo_policy =
      Inr (sort_key Path demo_files, Path ` set demo_files)"
    by (simp add: validatePaths_iff demo_files_ok)
  from validatePaths_permutation [OF this, of "rev demo_files"]
  show ?thesis by (simp add: demo_files_def)
qed

lemma validateFiles_Inr:
  assumes "validateFiles req p = Inr (out, entry)"
  shows "out = sort_key Path (Files req) \<and> files_ok p (Files req) \<and>
    (if EntryIsClass p
     then (\<forall>w\<in>set (split_on CHR ''.'' entry). java_ident w) \<and> CHR ''/'' \<notin> set entry
     else entry \<in> Path ` set (Files req) \<and> path_ok p entry)"
proof -
  from assms obtain seen where v: "validatePaths (Files req) p = Inr (out, seen)"
    and r: "resolveEntrypoint (Entrypoint req) seen p = Inr entry"
    by (auto simp: validateFiles_def)
  from v have ok: "files_ok p (Files req)" "out = sort_key Path (Files req)"
    "seen = Path ` set (Files req)" by (simp_all add: validatePaths_iff)
  show ?thesis
  proof (cases "EntryIsClass p")
    case True
    with r have segs: "\<forall>w\<in>set (split_on CHR ''.'' entry). java_ident w"
      by (auto simp: resolveEntrypoint_def Let_def javaClassRe_iff split: if_splits)
    moreover have "set entry \<subseteq> insert CHR ''.'' (\<Union>w\<in>set (split_on CHR ''.'' entry). set w)"
      using set_join_with [of "CHR ''.''" "split_on CHR ''.'' entry"] by simp
    ultimately have "CHR ''/'' \<notin> set entry" using java_ident_no_dot by fastforce
    with True ok segs show ?thesis by simp
  next
    case False
    with r ok show ?thesis
      by (auto simp: resolveEntrypoint_def Let_def validatePath_iff split: if_splits sum.splits)
  qed
qed

text \<open>The entrypoint of an accepted multi-file submission is one of the submitted files, or, for a
  language whose entrypoint is a class (Java), a dotted sequence of Java identifiers, which can never
  be read as a path.\<close>
theorem validateFiles_entrypoint:
  assumes "validateFiles req p = Inr (out, entry)"
  shows "out = sort_key Path (Files req) \<and> files_ok p (Files req) \<and>
    (if EntryIsClass p
     then (\<forall>w\<in>set (split_on CHR ''.'' entry). java_ident w) \<and> CHR ''/'' \<notin> set entry
     else entry \<in> Path ` set (Files req) \<and> path_ok p entry)"
  using validateFiles_Inr [OF assms] .

theorem validateFiles_entrypoint_witness:
  "validateFiles (zero_request\<lparr>Files := demo_files\<rparr>) demo_policy = Inr (rev demo_files, ''main.py'') \<and>
   ''main.py'' \<in> Path ` set demo_files"
proof -
  have e: "resolveEntrypoint [] (Path ` set demo_files) demo_policy = Inr ''main.py''"
    using demo_path_ok(1)
    by (simp add: resolveEntrypoint_def Let_def demo_files_def validatePath_iff [THEN iffD2]
        demo_policy_def filePolicies_def mk_policy_def with_caps_def)
  have "sort_key Path demo_files = rev demo_files" by (simp add: demo_files_def)
  then have v: "validateFiles (zero_request\<lparr>Files := demo_files\<rparr>) demo_policy = Inr (rev demo_files, ''main.py'')"
    using e by (simp add: validateFiles_def zero_request_def
        validatePaths_iff [THEN iffD2, OF conjI [OF demo_files_ok(1) conjI [OF refl refl]]])
  have "\<not> EntryIsClass demo_policy" by (simp add: demo_policy_defs)
  with validateFiles_entrypoint [OF v] v show ?thesis by (simp add: zero_request_def)
qed

text \<open>The separate test-mode registry only widens the run-mode one: wherever a language has both, a
  path the run policy accepts is accepted by the test policy under the same caps, and build
  manifests stay banned in both.\<close>
theorem test_policy_extends_run:
  assumes "policyForMode lang modeTest caps = Some pt" and "policyFor lang caps = Some pr"
    and "validatePath raw pr = Inr clean"
  shows "validatePath raw pt = Inr clean \<and> ForbiddenComponents pt = ForbiddenComponents pr \<and>
    ForbiddenNames pr - ForbiddenNames pt \<subseteq> {''conftest.py''}"
proof -
  have reg: "AllowedExts t = AllowedExts r \<and> ForbiddenComponents t = ForbiddenComponents r \<and>
      ForbiddenNames t \<subseteq> ForbiddenNames r \<and> ForbiddenNames r - ForbiddenNames t \<subseteq> {''conftest.py''}"
    if "testFilePolicies lang = Some t" "filePolicies lang = Some r" for t r
    using that
    by (auto simp: testFilePolicies_def filePolicies_def mk_policy_def names_def exts_def
        split: if_splits)
  from assms(1,2) obtain t r where tr: "testFilePolicies lang = Some t" "filePolicies lang = Some r"
    "pt = with_caps caps t" "pr = with_caps caps r"
    by (auto simp: policyForMode_def policyFor_def)
  from assms(3) have "clean = raw" "path_ok pr raw" by (simp_all add: validatePath_iff)
  with reg [OF tr(1,2)] tr(3,4) show ?thesis
    by (auto simp: validatePath_iff path_ok_def Let_def with_caps_def)
qed

theorem test_policy_extends_run_witness:
  "\<exists>pt. policyForMode ''python'' modeTest demo_caps = Some pt \<and>
        validatePath ''main.py'' pt = Inr ''main.py''"
proof -
  have p: "policyFor ''python'' demo_caps = Some demo_policy"
    by (simp add: policyFor_def policyForMode_def demo_policy_def filePolicies_def)
  obtain pt where pt: "policyForMode ''python'' modeTest demo_caps = Some pt"
    by (simp add: policyForMode_def testFilePolicies_def)
  have "validatePath ''main.py'' demo_policy = Inr ''main.py''"
    by (simp add: validatePath_iff demo_path_ok)
  from test_policy_extends_run [OF pt p this] pt show ?thesis by blast
qed

end
