(* ===== verification/Materialize.thy ===== *)
theory Materialize
  imports FilePolicy
begin

text \<open>
  \<^verbatim>\<open>internal/executor/materialize.go\<close>: writing a validated submission to disk. A directory tree
  is a map from element lists to nodes, as \<^verbatim>\<open>os.Root\<close> sees it: a regular file with its owner, a
  directory, or anything else. Creating a file is exclusive (\<^verbatim>\<open>O_CREATE|O_EXCL\<close>): it fails on any
  object already there. What the operating system may refuse on its own (opening the root, making
  a directory, making, writing, closing or inspecting a file) is a parameter: a fault of the
  \<open>os_faults\<close> record (\<open>read_fault\<close> serves the reading of reports).
\<close>

datatype node = Reg nat bytes | DirN | OtherN

type_synonym tree = "bytes list \<rightharpoonup> node"

record MaterializedFile =
  MPath :: bytes
  MSize :: int

text \<open>
  The errors, one per failing step; \<open>MatOS\<close> is an error of the \<^verbatim>\<open>os\<close> package about the named path that
  the source passes on as it is. The rendering of an error as text is the operating system's
  wording and stays outside.
\<close>

datatype mat_error =
  MatInvalid run_error | MatOpenRoot | MatMkdir bytes | MatCreate bytes | MatWrite bytes
| MatVerify bytes | MatNoPolicy bytes | MatOS bytes

record os_faults =
  root_fault :: bool
  mkdir_fault :: "bytes \<Rightarrow> bool"
  write_fault :: "bytes \<Rightarrow> bool"
  read_fault :: "bytes \<Rightarrow> bool"
  link_fault :: "bytes \<Rightarrow> bool"
  runner_uid :: nat

definition comps_of :: "bytes \<Rightarrow> bytes list" where
  "comps_of p = split_on CHR ''/'' p"

fun mkdir_all :: "os_faults \<Rightarrow> tree \<Rightarrow> bytes list \<Rightarrow> bytes list \<Rightarrow> tree option" where
  "mkdir_all os t pre [] = Some t"
| "mkdir_all os t pre (d # ds) =
     (case t (pre @ [d]) of
        None \<Rightarrow>
          if mkdir_fault os (join_with ''/'' (pre @ [d])) then None
          else mkdir_all os (t(pre @ [d] \<mapsto> DirN)) (pre @ [d]) ds
      | Some DirN \<Rightarrow> mkdir_all os t (pre @ [d]) ds
      | Some _ \<Rightarrow> None)"

definition verifyRegularOwned :: "os_faults \<Rightarrow> tree \<Rightarrow> bytes list \<Rightarrow> bool" where
  "verifyRegularOwned os t q =
     (case t q of Some (Reg uid _) \<Rightarrow> uid = runner_uid os | _ \<Rightarrow> False)"

definition materialize_one :: "os_faults \<Rightarrow> tree \<Rightarrow> RunFile \<Rightarrow> mat_error + (tree \<times> MaterializedFile)" where
  "materialize_one os t f =
     (let rel = path_Clean (Path f); dir = path_Dir rel;
          parents = (if dir \<noteq> ''.'' then mkdir_all os t [] (comps_of dir) else Some t)
      in case parents of
           None \<Rightarrow> Inl (MatMkdir dir)
         | Some t1 \<Rightarrow>
             (if t1 (comps_of rel) \<noteq> None then Inl (MatCreate rel)
              else if write_fault os rel then Inl (MatWrite rel)
              else let t2 = t1(comps_of rel \<mapsto> Reg (runner_uid os) (Content f)) in
              if \<not> verifyRegularOwned os t2 (comps_of rel) then Inl (MatVerify rel)
              else Inr (t2, \<lparr>MPath = rel, MSize = len (Content f)\<rparr>)))"

fun materialize_loop ::
  "os_faults \<Rightarrow> tree \<Rightarrow> RunFile list \<Rightarrow> mat_error + (tree \<times> MaterializedFile list)" where
  "materialize_loop os t [] = Inr (t, [])"
| "materialize_loop os t (f # fs) =
     rbind (materialize_one os t f) (\<lambda>(t1, m).
       rbind (materialize_loop os t1 fs) (\<lambda>(t2, ms). Inr (t2, m # ms)))"

definition MaterializeFiles ::
  "os_faults \<Rightarrow> tree \<Rightarrow> RunFile list \<Rightarrow> FilePolicy \<Rightarrow> mat_error + (tree \<times> MaterializedFile list)" where
  "MaterializeFiles os t files p =
     (case validatePaths files p of
        Inl e \<Rightarrow> Inl (MatInvalid e)
      | Inr (clean, _) \<Rightarrow>
          (if root_fault os then Inl MatOpenRoot
           else rbind (materialize_loop os t clean) (\<lambda>(t', out). Inr (t', sort_key MPath out))))"

definition srcRootName :: bytes where
  "srcRootName = ''src''"

text \<open>The part of a working directory below one of its entries, and putting it back.\<close>

definition subtree :: "bytes \<Rightarrow> tree \<Rightarrow> tree" where
  "subtree d t = (\<lambda>q. t (d # q))"

definition graft :: "bytes \<Rightarrow> tree \<Rightarrow> tree \<Rightarrow> tree" where
  "graft d sub t = (\<lambda>q. case q of [] \<Rightarrow> t [] | x # xs \<Rightarrow> if x = d then sub xs else t q)"

definition source_policy :: "RunRequest \<Rightarrow> FilePolicy option" where
  "source_policy req = (if Mode req = modeTest then testFilePolicies else filePolicies) (Language req)"

definition materializeSource ::
  "os_faults \<Rightarrow> tree \<Rightarrow> RunRequest \<Rightarrow> mat_error + (tree \<times> MaterializedFile list)" where
  "materializeSource os work req =
     (case source_policy req of
        None \<Rightarrow> Inl (MatNoPolicy (Language req))
      | Some p \<Rightarrow>
          (case mkdir_all os work [] [srcRootName] of
             None \<Rightarrow> Inl (MatOS srcRootName)
           | Some work1 \<Rightarrow>
               rbind (MaterializeFiles os (subtree srcRootName work1) (Files req) p)
                 (\<lambda>(sub, ms). Inr (graft srcRootName sub work1, ms))))"

definition srcJailDir :: bytes where
  "srcJailDir = ''/sandbox/'' @ srcRootName"

definition trim_right_slash :: "bytes \<Rightarrow> bytes" where
  "trim_right_slash s = rev (dropWhile (\<lambda>c. c = CHR ''/'') (rev s))"

definition jailSrc :: "bytes \<Rightarrow> bytes" where
  "jailSrc rel = trim_right_slash srcJailDir @ ''/'' @ rel"

definition srcRel :: "bytes \<Rightarrow> bytes" where
  "srcRel rel = srcRootName @ ''/'' @ rel"

subsection \<open>Paths of accepted files\<close>

lemma comps_of_nonempty [simp]: "comps_of p \<noteq> []"
  by (simp add: comps_of_def)

lemma comps_of_inj: "comps_of p = comps_of q \<Longrightarrow> p = q"
  by (metis comps_of_def join_split)

lemma normal_dir:
  assumes "\<forall>c\<in>set (comps_of p). normal_comp c"
  shows "if length (comps_of p) = 1 then path_Dir p = ''.''
         else path_Dir p \<noteq> ''.'' \<and> comps_of (path_Dir p) = butlast (comps_of p)"
proof (cases "length (comps_of p) = 1")
  case True
  then show ?thesis by (simp add: path_Dir_def comps_of_def path_Clean_def)
next
  case False
  let ?bs = "butlast (comps_of p)"
  have len: "1 < length (comps_of p)"
    using False comps_of_nonempty [of p] by (cases "length (comps_of p)") auto
  then have nb: "?bs \<noteq> []" by (metis length_butlast less_numeral_extra(3) list.size(3) zero_less_diff)
  have norm: "\<forall>c\<in>set ?bs. normal_comp c" using assms by (auto dest: in_set_butlastD)
  have free: "\<forall>c\<in>set ?bs. CHR ''/'' \<notin> set c"
    by (auto simp: comps_of_def dest: in_set_butlastD split_on_elem)
  have dir: "path_Dir p = join_with ''/'' ?bs"
    using False path_Clean_trailing [OF norm free nb] by (simp add: path_Dir_def comps_of_def)
  have sp: "comps_of (path_Dir p) = ?bs"
    unfolding dir comps_of_def [of "join_with _ _"] using nb free by (rule split_join)
  have "path_Dir p \<noteq> ''.''"
  proof
    assume "path_Dir p = ''.''"
    then have "?bs = [''.'']" using sp by (simp add: comps_of_def)
    with norm show False by (simp add: normal_comp_def)
  qed
  with False sp show ?thesis by simp
qed

lemma path_ok_comps_of: "path_ok p raw \<Longrightarrow> \<forall>c\<in>set (comps_of raw). normal_comp c"
  using path_ok_comps comp_ok_normal by (auto simp: comps_of_def)

lemma path_ok_clean: "path_ok p raw \<Longrightarrow> path_Clean raw = raw"
  using path_ok_comps_of by (simp add: comps_of_def path_Clean_normal)

subsection \<open>Directories\<close>

text \<open>The proper, non-empty prefixes of an element list are its parent directories.\<close>

definition parents :: "bytes list \<Rightarrow> bytes list set" where
  "parents q = {r. r \<noteq> [] \<and> strict_prefix r q}"

definition ancestors :: "bytes list \<Rightarrow> bytes list \<Rightarrow> bytes list set" where
  "ancestors pre ds = {pre @ r | r. r \<noteq> [] \<and> prefix r ds}"

lemma ancestors_simps:
  "ancestors pre [] = {}"
  "ancestors pre (d # ds) = insert (pre @ [d]) (ancestors (pre @ [d]) ds)"
proof -
  show "ancestors pre [] = {}" by (auto simp: ancestors_def)
  show "ancestors pre (d # ds) = insert (pre @ [d]) (ancestors (pre @ [d]) ds)"
  proof (intro equalityI subsetI)
    fix q assume "q \<in> ancestors pre (d # ds)"
    then obtain r where "q = pre @ d # r" "prefix r ds"
      by (auto simp: ancestors_def prefix_Cons)
    then show "q \<in> insert (pre @ [d]) (ancestors (pre @ [d]) ds)"
      by (cases r) (auto simp: ancestors_def)
  next
    fix q assume "q \<in> insert (pre @ [d]) (ancestors (pre @ [d]) ds)"
    then show "q \<in> ancestors pre (d # ds)"
      by (auto simp: ancestors_def intro: exI [of _ "[d]"] exI [of _ "d # r" for r])
  qed
qed

lemma mkdir_all_Some:
  "mkdir_all os t pre ds = Some t' \<longleftrightarrow>
     (\<forall>q\<in>ancestors pre ds. t q = Some DirN \<or> t q = None \<and> \<not> mkdir_fault os (join_with ''/'' q)) \<and>
     t' = (\<lambda>q. if q \<in> ancestors pre ds then Some DirN else t q)"
proof (induction ds arbitrary: t pre)
  case Nil
  then show ?case by (auto simp: ancestors_simps)
next
  case (Cons d ds)
  have out: "pre @ [d] \<notin> ancestors (pre @ [d]) ds" by (auto simp: ancestors_def)
  show ?case
  proof (cases "t (pre @ [d])")
    case None
    with out show ?thesis
      by (auto simp: ancestors_simps Cons.IH fun_eq_iff split: if_splits)
  next
    case (Some n)
    with out show ?thesis
      by (cases n) (auto simp: ancestors_simps Cons.IH fun_eq_iff)
  qed
qed

lemma ancestors_butlast: "ds \<noteq> [] \<Longrightarrow> ancestors [] (butlast ds) = parents ds"
proof -
  assume "ds \<noteq> []"
  then have "prefix r (butlast ds) \<longleftrightarrow> strict_prefix r ds" for r
    by (metis append_butlast_last_id prefix_order.less_le prefix_snoc prefix_order.dual_order.refl
        append_self_conv not_Cons_self2 prefix_order.antisym_conv prefixI)
  then show ?thesis by (auto simp: ancestors_def parents_def)
qed

subsection \<open>One file\<close>

definition with_parents :: "tree \<Rightarrow> bytes list \<Rightarrow> tree" where
  "with_parents t q = (\<lambda>r. if r \<in> parents q then Some DirN else t r)"

definition can_create :: "tree \<Rightarrow> bytes list \<Rightarrow> bool" where
  "can_create t q \<longleftrightarrow> t q = None \<and> (\<forall>r\<in>parents q. t r \<in> {None, Some DirN})"

definition can_mkdir :: "os_faults \<Rightarrow> tree \<Rightarrow> bytes list \<Rightarrow> bool" where
  "can_mkdir os t q \<longleftrightarrow> (\<forall>r\<in>parents q. t r = None \<longrightarrow> \<not> mkdir_fault os (join_with ''/'' r))"

lemma parents_irrefl [simp]: "q \<notin> parents q"
  by (simp add: parents_def)

lemma materialize_one_iff:
  assumes "path_ok p (Path f)"
  shows "materialize_one os t f = Inr (t', m) \<longleftrightarrow>
    can_create t (comps_of (Path f)) \<and> can_mkdir os t (comps_of (Path f)) \<and> \<not> write_fault os (Path f) \<and>
    t' = (with_parents t (comps_of (Path f)))(comps_of (Path f) \<mapsto> Reg (runner_uid os) (Content f)) \<and>
    m = \<lparr>MPath = Path f, MSize = len (Content f)\<rparr>"
proof -
  let ?q = "comps_of (Path f)"
  have rel: "path_Clean (Path f) = Path f" using assms by (rule path_ok_clean)
  have norm: "\<forall>c\<in>set ?q. normal_comp c" using assms by (rule path_ok_comps_of)
  have mk: "(if path_Dir (Path f) \<noteq> ''.'' then mkdir_all os t [] (comps_of (path_Dir (Path f))) else Some t)
      = mkdir_all os t [] (butlast ?q)"
  proof (cases "length ?q = 1")
    case True
    then have "butlast ?q = []" by (cases ?q) auto
    with True normal_dir [OF norm] show ?thesis by simp
  next
    case False
    with normal_dir [OF norm] show ?thesis by simp
  qed
  have step: "mkdir_all os t [] (butlast ?q) = Some t1 \<longleftrightarrow>
      (\<forall>r\<in>parents ?q. t r \<in> {None, Some DirN}) \<and> can_mkdir os t ?q \<and> t1 = with_parents t ?q" for t1
    by (auto simp: mkdir_all_Some ancestors_butlast with_parents_def can_mkdir_def)
  show ?thesis
  proof (cases "mkdir_all os t [] (butlast ?q)")
    case None
    then have "\<not> (can_create t ?q \<and> can_mkdir os t ?q)" using step by (auto simp: can_create_def)
    with None show ?thesis by (auto simp: materialize_one_def Let_def rel mk)
  next
    case (Some t1)
    then have t1: "\<forall>r\<in>parents ?q. t r \<in> {None, Some DirN}" "can_mkdir os t ?q" "t1 = with_parents t ?q"
      using step by auto
    then have "t1 ?q = t ?q" by (simp add: with_parents_def)
    with Some t1 show ?thesis
      by (auto simp: materialize_one_def Let_def rel mk can_create_def verifyRegularOwned_def)
  qed
qed

subsection \<open>The loop\<close>

text \<open>
  What a successful loop leaves behind: nothing that was there has changed, every file is in its
  place with its content and owner, its parents are directories, and nothing else has appeared.
\<close>

definition materialized :: "os_faults \<Rightarrow> tree \<Rightarrow> RunFile list \<Rightarrow> tree \<Rightarrow> bool" where
  "materialized os t fs t' \<longleftrightarrow>
     t \<subseteq>\<^sub>m t' \<and>
     (\<forall>f\<in>set fs. t' (comps_of (Path f)) = Some (Reg (runner_uid os) (Content f)) \<and>
        t (comps_of (Path f)) = None \<and>
        (\<forall>r\<in>parents (comps_of (Path f)). t' r = Some DirN)) \<and>
     (\<forall>q. t q = None \<and> t' q \<noteq> None \<longrightarrow>
        (\<exists>f\<in>set fs. q = comps_of (Path f) \<or> q \<in> parents (comps_of (Path f))))"

lemma with_parents_le:
  "can_create t q \<Longrightarrow> t \<subseteq>\<^sub>m (with_parents t q)(q \<mapsto> n)"
  by (auto simp: map_le_def can_create_def with_parents_def dom_def)

lemma map_leD: "t \<subseteq>\<^sub>m t' \<Longrightarrow> t q = Some n \<Longrightarrow> t' q = Some n"
  by (auto simp: map_le_def dom_def)

lemma map_le_None: "t \<subseteq>\<^sub>m t' \<Longrightarrow> t' q = None \<Longrightarrow> t q = None"
  by (cases "t q") (auto dest: map_leD)

text \<open>One more file in front: its node and its directories are made first, and stay.\<close>

lemma materialized_Cons:
  assumes cc: "can_create t (comps_of (Path f))"
    and t1: "t1 = (with_parents t (comps_of (Path f)))(comps_of (Path f) \<mapsto> Reg (runner_uid os) (Content f))"
    and rest: "materialized os t1 fs t'"
  shows "materialized os t (f # fs) t'"
proof -
  let ?q = "comps_of (Path f)" and ?n = "Reg (runner_uid os) (Content f)"
  have le: "t \<subseteq>\<^sub>m t1" unfolding t1 using cc by (rule with_parents_le)
  have le': "t1 \<subseteq>\<^sub>m t'" using rest by (simp add: materialized_def)
  have here: "t' ?q = Some ?n" using le' by (rule map_leD) (simp add: t1)
  have par: "\<forall>r\<in>parents ?q. t' r = Some DirN"
  proof
    fix r assume "r \<in> parents ?q"
    then have "t1 r = Some DirN" by (auto simp: t1 with_parents_def)
    with le' show "t' r = Some DirN" by (rule map_leD)
  qed
  have made: "t' (comps_of (Path g)) = Some (Reg (runner_uid os) (Content g)) \<and>
      t (comps_of (Path g)) = None \<and> (\<forall>r\<in>parents (comps_of (Path g)). t' r = Some DirN)" if "g \<in> set (f # fs)" for g
  proof (cases "g = f")
    case True
    with here par cc show ?thesis by (simp add: can_create_def)
  next
    case False
    with that rest map_le_None [OF le] show ?thesis by (auto simp: materialized_def)
  qed
  have only: "\<exists>g\<in>set (f # fs). q = comps_of (Path g) \<or> q \<in> parents (comps_of (Path g))" if "t q = None" "t' q \<noteq> None" for q
  proof (cases "t1 q")
    case None
    with that rest show ?thesis by (auto simp: materialized_def)
  next
    case (Some n)
    with that show ?thesis by (auto simp: t1 with_parents_def split: if_splits)
  qed
  from made only map_le_trans [OF le le'] show ?thesis unfolding materialized_def by blast
qed

lemma materialize_loop_sound:
  assumes "\<forall>f\<in>set fs. path_ok p (Path f)" and "materialize_loop os t fs = Inr (t', ms)"
  shows "materialized os t fs t' \<and> map MPath ms = map Path fs \<and>
    map MSize ms = map (\<lambda>f. len (Content f)) fs"
  using assms
proof (induction fs arbitrary: t ms)
  case Nil
  then show ?case by (auto simp: materialized_def)
next
  case (Cons f fs)
  from Cons.prems(2) obtain t1 m ms' where one: "materialize_one os t f = Inr (t1, m)"
    and rest: "materialize_loop os t1 fs = Inr (t', ms')" and ms: "ms = m # ms'"
    by auto
  have okf: "path_ok p (Path f)" using Cons.prems(1) by simp
  from one have cc: "can_create t (comps_of (Path f))"
    and t1: "t1 = (with_parents t (comps_of (Path f)))(comps_of (Path f) \<mapsto> Reg (runner_uid os) (Content f))"
    and m: "m = \<lparr>MPath = Path f, MSize = len (Content f)\<rparr>"
    unfolding materialize_one_iff [OF okf] by auto
  from Cons.IH [OF _ rest] Cons.prems(1) materialized_Cons [OF cc t1] m ms show ?case by auto
qed

text \<open>
  When it succeeds: no submitted file lies inside another one, and no object is in the way.
\<close>

definition conflict_free :: "RunFile list \<Rightarrow> bool" where
  "conflict_free fs \<longleftrightarrow>
     (\<forall>f\<in>set fs. \<forall>g\<in>set fs. \<not> strict_prefix (comps_of (Path f)) (comps_of (Path g)))"

lemma materialize_loop_complete:
  assumes "\<forall>f\<in>set fs. path_ok p (Path f)" and "distinct (map Path fs)" and "conflict_free fs"
    and "\<forall>f\<in>set fs. can_create t (comps_of (Path f)) \<and> \<not> write_fault os (Path f)"
    and "\<forall>q. \<not> mkdir_fault os q"
  shows "\<exists>r. materialize_loop os t fs = Inr r"
  using assms
proof (induction fs arbitrary: t)
  case (Cons f fs)
  let ?q = "comps_of (Path f)"
  let ?t1 = "(with_parents t ?q)(?q \<mapsto> Reg (runner_uid os) (Content f))"
  have okf: "path_ok p (Path f)" using Cons.prems(1) by simp
  have one: "materialize_one os t f = Inr (?t1, \<lparr>MPath = Path f, MSize = len (Content f)\<rparr>)"
    unfolding materialize_one_iff [OF okf] using Cons.prems(4,5) by (simp add: can_mkdir_def)
  have "can_create ?t1 (comps_of (Path g))" if g: "g \<in> set fs" for g
  proof -
    let ?r = "comps_of (Path g)"
    have "Path f \<notin> Path ` set fs" using Cons.prems(2) by simp
    with g have "Path g \<noteq> Path f" by (metis image_eqI)
    then have ne: "?r \<noteq> ?q" using comps_of_inj by blast
    have nc: "\<not> strict_prefix ?q ?r" "\<not> strict_prefix ?r ?q"
      using g Cons.prems(3) by (auto simp: conflict_free_def)
    have "can_create t ?r" using g Cons.prems(4) by simp
    with ne nc show ?thesis by (auto simp: can_create_def with_parents_def parents_def)
  qed
  then have "\<forall>g\<in>set fs. can_create ?t1 (comps_of (Path g)) \<and> \<not> write_fault os (Path g)"
    using Cons.prems(4) by simp
  moreover have "conflict_free fs" using Cons.prems(3) by (simp add: conflict_free_def)
  moreover have "\<forall>f\<in>set fs. path_ok p (Path f)" "distinct (map Path fs)"
    using Cons.prems(1,2) by simp_all
  ultimately have "\<exists>r. materialize_loop os ?t1 fs = Inr r" using Cons.prems(5) by (blast intro: Cons.IH)
  with one show ?case by auto
qed simp

lemma materialized_set: "set fs = set gs \<Longrightarrow> materialized os t fs t' = materialized os t gs t'"
  by (simp add: materialized_def)

definition manifest_of :: "RunFile list \<Rightarrow> MaterializedFile list" where
  "manifest_of fs = map (\<lambda>f. \<lparr>MPath = Path f, MSize = len (Content f)\<rparr>) fs"

lemma manifest_eqI:
  "map MPath ms = map Path fs \<Longrightarrow> map MSize ms = map (\<lambda>f. len (Content f)) fs \<Longrightarrow> ms = manifest_of fs"
  unfolding manifest_of_def
  by (induction ms arbitrary: fs) (auto simp: map_eq_Cons_conv Cons_eq_map_conv)

lemma MaterializeFiles_Inr:
  assumes "MaterializeFiles os t files p = Inr (t', ms)"
  shows "files_ok p files \<and> materialized os t files t' \<and> ms = manifest_of (sort_key Path files)"
proof -
  from assms obtain ms0 where ok: "files_ok p files"
    and loop: "materialize_loop os t (sort_key Path files) = Inr (t', ms0)"
    and ms: "ms = sort_key MPath ms0"
    by (auto simp: MaterializeFiles_def validatePaths_iff split: sum.splits if_splits)
  have pok: "\<forall>f\<in>set (sort_key Path files). path_ok p (Path f)" using ok by (simp add: files_ok_def)
  from materialize_loop_sound [OF pok loop]
  have m: "materialized os t (sort_key Path files) t'" and e: "ms0 = manifest_of (sort_key Path files)"
    by (auto intro: manifest_eqI)
  have "map MPath ms0 = map Path (sort_key Path files)" by (simp add: e manifest_of_def comp_def)
  then have "sorted (map MPath ms0)" by simp
  then have "ms = ms0" unfolding ms by (rule sort_key_id_if_sorted)
  with ok m e show ?thesis using materialized_set [of "sort_key Path files" files] by simp
qed

lemma can_create_empty:
  "\<forall>c\<in>set (comps_of raw). normal_comp c \<Longrightarrow> can_create [[] \<mapsto> DirN] (comps_of raw)"
  by (auto simp: can_create_def parents_def)

lemma materialized_conflict_free:
  assumes "materialized os t fs t'"
  shows "conflict_free fs"
  unfolding conflict_free_def
proof (intro ballI notI)
  fix f g assume fg: "f \<in> set fs" "g \<in> set fs"
    and sp: "strict_prefix (comps_of (Path f)) (comps_of (Path g))"
  have "comps_of (Path f) \<in> parents (comps_of (Path g))" using sp by (simp add: parents_def)
  with assms fg(2) have "t' (comps_of (Path f)) = Some DirN" by (auto simp: materialized_def)
  with assms fg(1) show False by (auto simp: materialized_def)
qed

subsection \<open>Properties\<close>


definition demo_os :: os_faults where
  "demo_os = \<lparr>root_fault = False, mkdir_fault = (\<lambda>_. False), write_fault = (\<lambda>_. False), read_fault = (\<lambda>_. False), link_fault = (\<lambda>_. False), runner_uid = 1000\<rparr>"

lemma demo_conflict_free: "conflict_free demo_files"
  by (simp add: conflict_free_def demo_files_def comps_of_def strict_prefix_def)

text \<open>C37: Into an empty job root, with no fault of the operating system, materialization succeeds exactly for
  the submissions the validator accepts in which no file lies inside another one (\<open>a.py\<close> and
  \<open>a.py/b.py\<close> is the only way an accepted submission can fail).\<close>
theorem materialize_succeeds_iff:
  assumes "\<not> root_fault os" and "\<forall>q. \<not> write_fault os q" and "\<forall>q. \<not> mkdir_fault os q"
  shows "(\<exists>r. MaterializeFiles os [[] \<mapsto> DirN] files p = Inr r) \<longleftrightarrow>
    files_ok p files \<and> conflict_free files"
proof
  assume "\<exists>r. MaterializeFiles os [[] \<mapsto> DirN] files p = Inr r"
  then obtain t' ms where "MaterializeFiles os [[] \<mapsto> DirN] files p = Inr (t', ms)" by auto
  from MaterializeFiles_Inr [OF this] show "files_ok p files \<and> conflict_free files"
    using materialized_conflict_free by blast
next
  assume ok: "files_ok p files \<and> conflict_free files"
  then have pok: "\<forall>f\<in>set (sort_key Path files). path_ok p (Path f)" by (simp add: files_ok_def)
  have "\<exists>r. materialize_loop os [[] \<mapsto> DirN] (sort_key Path files) = Inr r"
  proof (rule materialize_loop_complete [OF pok])
    show "distinct (map Path (sort_key Path files))"
      using ok by (simp add: files_ok_def distinct_map)
    show "conflict_free (sort_key Path files)" using ok by (simp add: conflict_free_def)
    show "\<forall>f\<in>set (sort_key Path files).
        can_create [[] \<mapsto> DirN] (comps_of (Path f)) \<and> \<not> write_fault os (Path f)"
      using pok assms(2) path_ok_comps_of can_create_empty by blast
  qed (rule assms(3))
  moreover have "validatePaths files p = Inr (sort_key Path files, Path ` set files)"
    using ok by (simp add: validatePaths_iff)
  ultimately show "\<exists>r. MaterializeFiles os [[] \<mapsto> DirN] files p = Inr r"
    using assms(1) by (auto simp: MaterializeFiles_def)
qed

theorem materialize_succeeds_iff_witness:
  "\<exists>r. MaterializeFiles demo_os [[] \<mapsto> DirN] demo_files demo_policy = Inr r"
proof -
  have "\<not> root_fault demo_os" "\<forall>q. \<not> write_fault demo_os q" "\<forall>q. \<not> mkdir_fault demo_os q"
    by (simp_all add: demo_os_def)
  from materialize_succeeds_iff [OF this] demo_files_ok(1) demo_conflict_free
  show ?thesis by blast
qed

lemma demo_materialize:
  "\<exists>t' ms. MaterializeFiles demo_os [[] \<mapsto> DirN] demo_files demo_policy = Inr (t', ms)"
proof -
  have pok: "\<forall>f\<in>set (sort_key Path demo_files). path_ok demo_policy (Path f)"
    using demo_files_ok(1) by (simp add: files_ok_def)
  have "\<exists>r. materialize_loop demo_os [[] \<mapsto> DirN] (sort_key Path demo_files) = Inr r"
    by (rule materialize_loop_complete [OF pok])
      (use demo_files_ok(1) demo_conflict_free pok path_ok_comps_of can_create_empty in
        \<open>auto simp: files_ok_def conflict_free_def demo_os_def distinct_map\<close>)
  moreover have "validatePaths demo_files demo_policy =
      Inr (sort_key Path demo_files, Path ` set demo_files)"
    using demo_files_ok(1) by (simp add: validatePaths_iff)
  ultimately show ?thesis by (auto simp: MaterializeFiles_def demo_os_def)
qed


end
