(* ===== verification/Buffer.thy ===== *)
theory Buffer
  imports Prelude
begin

text \<open>
  \<^verbatim>\<open>internal/executor/buffer.go\<close>: the capped capture of an output stream, and the
  cancellation cause of a run. \<open>onLimit\<close> (the kill signal) is modelled by the flag that a write
  returns next to the new buffer: the flag is set exactly when the callback is invoked.
\<close>

subsection \<open>The capped buffer\<close>

definition effectiveOutputLimit :: "int \<Rightarrow> int \<Rightarrow> int" where
  "effectiveOutputLimit requested ceiling =
     (if requested \<le> 0 \<or> requested > ceiling then ceiling else requested)"

record limitedBuffer =
  buf :: bytes
  limit :: int
  truncated :: bool

definition new_buffer :: "int \<Rightarrow> limitedBuffer" where
  "new_buffer n = \<lparr>buf = [], limit = n, truncated = False\<rparr>"

definition markTruncated :: "limitedBuffer \<Rightarrow> limitedBuffer \<times> bool" where
  "markTruncated l = (if truncated l then (l, False) else (l\<lparr>truncated := True\<rparr>, True))"

definition lb_write :: "limitedBuffer \<Rightarrow> bytes \<Rightarrow> limitedBuffer \<times> bool" where
  "lb_write l p =
     (let remaining = i64 (limit l - len (buf l)) in
      if remaining \<le> 0 then markTruncated l
      else if len p > remaining then markTruncated (l\<lparr>buf := buf l @ take (nat remaining) p\<rparr>)
      else (l\<lparr>buf := buf l @ p\<rparr>, False))"

definition truncation_marker :: bytes where
  "truncation_marker = CHR 0x0A # ''[output truncated]''"

definition lb_String :: "limitedBuffer \<Rightarrow> bytes" where
  "lb_String l = (if truncated l then buf l @ truncation_marker else buf l)"

definition lb_raw :: "limitedBuffer \<Rightarrow> bytes" where
  "lb_raw l = buf l"

subsection \<open>What a bounded capture promises\<close>

text \<open>
  The contract of an output sink towards the code that copies a child's stream into it: the sink
  keeps the longest prefix of the stream that fits its capacity, remembers an overflow, and signals
  the first overflow and only that one.
\<close>

locale bounded_sink =
  fixes wf :: "'s \<Rightarrow> bool" and put :: "'s \<Rightarrow> bytes \<Rightarrow> 's \<times> bool"
    and held :: "'s \<Rightarrow> bytes" and capacity :: "'s \<Rightarrow> nat" and overflowed :: "'s \<Rightarrow> bool"
  assumes put_wf: "wf s \<Longrightarrow> wf (fst (put s p))"
    and put_capacity: "capacity (fst (put s p)) = capacity s"
    and put_held: "wf s \<Longrightarrow> held (fst (put s p)) = take (capacity s) (held s @ p)"
    and put_overflowed: "wf s \<Longrightarrow>
      overflowed (fst (put s p)) \<longleftrightarrow> overflowed s \<or> capacity s \<le> length (held s) \<or>
        capacity s < length (held s) + length p"
    and put_signal: "wf s \<Longrightarrow> snd (put s p) \<longleftrightarrow> overflowed (fst (put s p)) \<and> \<not> overflowed s"
    and wf_fits: "wf s \<Longrightarrow> length (held s) \<le> capacity s"
begin

fun feed :: "'s \<Rightarrow> bytes list \<Rightarrow> 's \<times> nat" where
  "feed s [] = (s, 0)"
| "feed s (p # ps) =
     (let (s1, b) = put s p; (s2, n) = feed s1 ps in (s2, (if b then 1 else 0) + n))"

lemma feed_wf: "wf s \<Longrightarrow> wf (fst (feed s ps))"
  by (induction ps arbitrary: s) (auto simp: split_beta put_wf)

lemma feed_capacity: "capacity (fst (feed s ps)) = capacity s"
  by (induction ps arbitrary: s) (simp_all add: split_beta put_capacity)

lemma feed_held: "wf s \<Longrightarrow> held (fst (feed s ps)) = take (capacity s) (held s @ concat ps)"
proof (induction ps arbitrary: s)
  case Nil
  then show ?case using wf_fits [of s] by simp
next
  case (Cons p ps)
  from Cons.IH [OF put_wf [OF Cons.prems]] Cons.prems show ?case
    by (simp add: split_beta put_capacity put_held min_def)
qed

lemma feed_signals:
  "wf s \<Longrightarrow> snd (feed s ps) = (if overflowed (fst (feed s ps)) \<and> \<not> overflowed s then 1 else 0) \<and>
    (overflowed s \<longrightarrow> overflowed (fst (feed s ps)))"
proof (induction ps arbitrary: s)
  case (Cons p ps)
  from Cons.IH [OF put_wf [OF Cons.prems, of p]] put_signal [OF Cons.prems, of p]
    put_overflowed [OF Cons.prems, of p]
  show ?case by (auto simp: split_beta)
qed simp

lemma feed_overflowed:
  "wf s \<Longrightarrow> [] \<notin> set ps \<Longrightarrow>
    overflowed (fst (feed s ps)) \<longleftrightarrow> overflowed s \<or> capacity s < length (held s) + length (concat ps)"
proof (induction ps arbitrary: s)
  case Nil
  then show ?case using wf_fits [of s] by simp
next
  case (Cons p ps)
  let ?s = "fst (put s p)"
  from Cons.prems have p: "0 < length p" and ps: "[] \<notin> set ps" by auto
  have h: "length (held ?s) = min (capacity s) (length (held s) + length p)"
    using put_held [OF Cons.prems(1), of p] by simp
  have "overflowed (fst (feed ?s ps)) \<longleftrightarrow>
      overflowed ?s \<or> capacity s < length (held ?s) + length (concat ps)"
    using Cons.IH [OF put_wf [OF Cons.prems(1)] ps] by (simp add: put_capacity)
  also have "\<dots> \<longleftrightarrow> overflowed s \<or> capacity s < length (held s) + (length p + length (concat ps))"
    unfolding h put_overflowed [OF Cons.prems(1)]
    using wf_fits [OF Cons.prems(1)] p by (simp only: min_def split: if_splits) linarith
  finally show ?case by (simp add: split_beta)
qed

end

definition lb_wf :: "limitedBuffer \<Rightarrow> bool" where
  "lb_wf l \<longleftrightarrow> 0 \<le> limit l \<and> fits64 (limit l) \<and> len (buf l) \<le> limit l"

lemma lb_remaining: "lb_wf l \<Longrightarrow> i64 (limit l - len (buf l)) = limit l - len (buf l)"
  using len_nonneg [of "buf l"] unfolding lb_wf_def fits64_def by (intro i64_id) (unfold fits64_def, linarith)

lemma markTruncated_simps [simp]:
  "buf (fst (markTruncated l)) = buf l" "limit (fst (markTruncated l)) = limit l"
  "truncated (fst (markTruncated l))" "snd (markTruncated l) \<longleftrightarrow> \<not> truncated l"
  by (simp_all add: markTruncated_def)

lemma lb_write_limit [simp]: "limit (fst (lb_write l p)) = limit l"
  by (simp add: lb_write_def Let_def)

lemma lb_write_effect:
  assumes "lb_wf l"
  shows "buf (fst (lb_write l p)) = take (nat (limit l)) (buf l @ p)"
    and "truncated (fst (lb_write l p)) \<longleftrightarrow>
      truncated l \<or> limit l \<le> len (buf l) \<or> limit l < len (buf l) + len p"
    and "snd (lb_write l p) \<longleftrightarrow> truncated (fst (lb_write l p)) \<and> \<not> truncated l"
proof -
  let ?r = "limit l - len (buf l)"
  have nr: "nat ?r = nat (limit l) - length (buf l)"
    using assms by (simp add: lb_wf_def len_def nat_diff_distrib)
  have le: "length (buf l) \<le> nat (limit l)" using assms by (auto simp: lb_wf_def len_def)
  note sm = lb_write_def Let_def lb_remaining [OF assms]
  have r: "?r \<le> 0 \<longleftrightarrow> nat (limit l) - length (buf l) = 0"
    "?r < len p \<longleftrightarrow> nat (limit l) - length (buf l) < length p"
    unfolding nr [symmetric] using assms by (auto simp: len_def lb_wf_def)
  show "buf (fst (lb_write l p)) = take (nat (limit l)) (buf l @ p)"
    unfolding sm r using le by (simp add: nr)
  show "truncated (fst (lb_write l p)) \<longleftrightarrow>
      truncated l \<or> limit l \<le> len (buf l) \<or> limit l < len (buf l) + len p"
    by (auto simp: sm)
  show "snd (lb_write l p) \<longleftrightarrow> truncated (fst (lb_write l p)) \<and> \<not> truncated l"
    by (auto simp: sm)
qed

lemma lb_write_wf:
  assumes "lb_wf l"
  shows "lb_wf (fst (lb_write l p))"
  using assms by (auto simp: lb_wf_def lb_write_effect(1) len_def)

interpretation lb: bounded_sink lb_wf lb_write buf "\<lambda>l. nat (limit l)" truncated
proof unfold_locales
  fix s p assume "lb_wf s"
  then show "truncated (fst (lb_write s p)) \<longleftrightarrow>
      truncated s \<or> nat (limit s) \<le> length (buf s) \<or> nat (limit s) < length (buf s) + length p"
    using lb_write_effect(2) [of s p] by (auto simp: lb_wf_def len_def)
qed (auto simp: lb_write_wf lb_write_effect lb_wf_def len_def)

definition lb_writes :: "limitedBuffer \<Rightarrow> bytes list \<Rightarrow> limitedBuffer \<times> nat" where
  "lb_writes = lb.feed"

lemma lb_writes_simps [simp]:
  "lb_writes s [] = (s, 0)"
  "lb_writes s (p # ps) =
     (let (s1, b) = lb_write s p; (s2, n) = lb_writes s1 ps in (s2, (if b then 1 else 0) + n))"
  by (simp_all add: lb_writes_def)

lemma new_buffer_wf [simp]: "lb_wf (new_buffer n) \<longleftrightarrow> 0 \<le> n \<and> fits64 n"
  by (auto simp: lb_wf_def new_buffer_def)

lemma limitedBuffer_prefix:
  assumes "0 \<le> n" and "fits64 n" and "[] \<notin> set chunks"
  shows "lb_raw (fst (lb_writes (new_buffer n) chunks)) = take (nat n) (concat chunks) \<and>
    (truncated (fst (lb_writes (new_buffer n) chunks)) \<longleftrightarrow> n < len (concat chunks)) \<and>
    snd (lb_writes (new_buffer n) chunks) = (if n < len (concat chunks) then 1 else 0)"
proof -
  have wf: "lb_wf (new_buffer n)" using assms by simp
  have h: "lb_raw (fst (lb_writes (new_buffer n) chunks)) = take (nat n) (concat chunks)"
    using lb.feed_held [OF wf, of chunks] by (simp add: lb_writes_def lb_raw_def new_buffer_def)
  have t: "truncated (fst (lb_writes (new_buffer n) chunks)) \<longleftrightarrow> n < len (concat chunks)"
    using lb.feed_overflowed [OF wf assms(3)] assms(1)
    by (auto simp: lb_writes_def new_buffer_def len_def)
  have "snd (lb_writes (new_buffer n) chunks) = (if n < len (concat chunks) then 1 else 0)"
    using lb.feed_signals [OF wf, of chunks] t by (simp add: lb_writes_def new_buffer_def)
  with h t show ?thesis by simp
qed

text \<open>C33: Bounded capture. Whatever chunks the child's stream arrives in (the copy loop of \<^verbatim>\<open>os/exec\<close> never
  delivers an empty one), the buffer holds exactly the first \<open>limit\<close> bytes of the stream, it is
  flagged truncated exactly when the stream is longer, and the kill signal is raised once if it is
  flagged and never otherwise.\<close>
theorem limitedBuffer_captures_prefix:
  assumes "0 \<le> n" and "fits64 n" and "[] \<notin> set chunks"
  shows "lb_raw (fst (lb_writes (new_buffer n) chunks)) = take (nat n) (concat chunks) \<and>
    (truncated (fst (lb_writes (new_buffer n) chunks)) \<longleftrightarrow> n < len (concat chunks)) \<and>
    snd (lb_writes (new_buffer n) chunks) = (if n < len (concat chunks) then 1 else 0)"
  using limitedBuffer_prefix [OF assms] .

theorem limitedBuffer_captures_prefix_witness:
  "lb_raw (fst (lb_writes (new_buffer 3) [''ab'', ''cd''])) = ''abc'' \<and>
   truncated (fst (lb_writes (new_buffer 3) [''ab'', ''cd'']))"
  using limitedBuffer_captures_prefix [of 3 "[''ab'', ''cd'']"] by (simp add: fits64_def)

subsection \<open>One run: two streams and one cancellation cause\<close>

text \<open>
  A run's context remembers the first thing that cancelled it: its deadline, the output flood
  (\<^verbatim>\<open>errOutputLimit\<close>) or the caller's own context. \<open>context.Cause\<close> reads it, and
  \<open>ctx.Err()\<close> is \<open>DeadlineExceeded\<close> exactly for the deadline. What happens while the child runs
  is a sequence of events in the order in which they reach the runner.
\<close>

datatype cancel_cause = CauseDeadline | CauseOutputLimit | CauseParent

datatype event = OutChunk bytes | ErrChunk bytes | DeadlineFires | ParentDone

record run_io =
  OutB :: limitedBuffer
  ErrB :: limitedBuffer
  Cause :: "cancel_cause option"

definition cancel :: "cancel_cause \<Rightarrow> run_io \<Rightarrow> run_io" where
  "cancel c io = (case Cause io of None \<Rightarrow> io\<lparr>Cause := Some c\<rparr> | Some _ \<Rightarrow> io)"

definition onFlood :: "bool \<Rightarrow> run_io \<Rightarrow> run_io" where
  "onFlood fired io = (if fired then cancel CauseOutputLimit io else io)"

fun deliver :: "run_io \<Rightarrow> event \<Rightarrow> run_io" where
  "deliver io (OutChunk p) = (let (b, fired) = lb_write (OutB io) p in onFlood fired (io\<lparr>OutB := b\<rparr>))"
| "deliver io (ErrChunk p) = (let (b, fired) = lb_write (ErrB io) p in onFlood fired (io\<lparr>ErrB := b\<rparr>))"
| "deliver io DeadlineFires = cancel CauseDeadline io"
| "deliver io ParentDone = cancel CauseParent io"

definition run_events :: "run_io \<Rightarrow> event list \<Rightarrow> run_io" where
  "run_events = foldl deliver"

definition start_io :: "int \<Rightarrow> int \<Rightarrow> run_io" where
  "start_io outLimit errLimit =
     \<lparr>OutB = new_buffer outLimit, ErrB = new_buffer errLimit, Cause = None\<rparr>"

definition out_chunks :: "event list \<Rightarrow> bytes list" where
  "out_chunks evs = List.map_filter (\<lambda>e. case e of OutChunk p \<Rightarrow> Some p | _ \<Rightarrow> None) evs"

definition err_chunks :: "event list \<Rightarrow> bytes list" where
  "err_chunks evs = List.map_filter (\<lambda>e. case e of ErrChunk p \<Rightarrow> Some p | _ \<Rightarrow> None) evs"

lemma out_chunks_simps [simp]:
  "out_chunks [] = []" "out_chunks (OutChunk p # es) = p # out_chunks es"
  "out_chunks (ErrChunk p # es) = out_chunks es" "out_chunks (DeadlineFires # es) = out_chunks es"
  "out_chunks (ParentDone # es) = out_chunks es"
  by (simp_all add: out_chunks_def)

lemma err_chunks_simps [simp]:
  "err_chunks [] = []" "err_chunks (ErrChunk p # es) = p # err_chunks es"
  "err_chunks (OutChunk p # es) = err_chunks es" "err_chunks (DeadlineFires # es) = err_chunks es"
  "err_chunks (ParentDone # es) = err_chunks es"
  by (simp_all add: err_chunks_def)

lemma run_events_simps [simp]:
  "run_events io [] = io" "run_events io (e # es) = run_events (deliver io e) es"
  by (simp_all add: run_events_def)

lemma cancel_simps [simp]:
  "OutB (cancel c io) = OutB io" "ErrB (cancel c io) = ErrB io"
  "OutB (onFlood b io) = OutB io" "ErrB (onFlood b io) = ErrB io"
  by (simp_all add: cancel_def onFlood_def split: option.splits)

lemma run_events_out: "OutB (run_events io es) = fst (lb_writes (OutB io) (out_chunks es))"
proof (induction es arbitrary: io)
  case (Cons e es)
  then show ?case by (cases e) (simp_all add: split_beta Let_def)
qed simp

lemma run_events_err: "ErrB (run_events io es) = fst (lb_writes (ErrB io) (err_chunks es))"
proof (induction es arbitrary: io)
  case (Cons e es)
  then show ?case by (cases e) (simp_all add: split_beta Let_def)
qed simp

lemma deliver_cause: "Cause io = Some c \<Longrightarrow> Cause (deliver io e) = Some c"
  by (cases e) (auto simp: cancel_def onFlood_def split_beta Let_def)

lemma run_events_cause: "Cause io = Some c \<Longrightarrow> Cause (run_events io es) = Some c"
  by (induction es arbitrary: io) (simp_all add: deliver_cause)

lemma run_events_append: "run_events io (xs @ ys) = run_events (run_events io xs) ys"
  by (simp add: run_events_def)

text \<open>The first cause wins. If no cancellation happened in a first part of a run and an event \<open>e\<close> then
  cancels it, the recorded cause is the one of \<open>e\<close> whatever follows: a flood that precedes the
  deadline is reported as a flood, a deadline that precedes the flood as a deadline.\<close>
theorem first_cancellation_wins:
  assumes "Cause (run_events io es) = None" and "Cause (run_events io (es @ [e])) = Some c"
  shows "Cause (run_events io (es @ e # later)) = Some c \<and>
    (c = CauseDeadline \<longleftrightarrow> e = DeadlineFires) \<and> (c = CauseParent \<longleftrightarrow> e = ParentDone) \<and>
    (c = CauseOutputLimit \<longleftrightarrow> (\<exists>p. e = OutChunk p \<or> e = ErrChunk p))"
proof -
  let ?io = "run_events io es"
  have e: "Cause (deliver ?io e) = Some c" using assms(2) by (simp add: run_events_append)
  then have "Cause (run_events io (es @ e # later)) = Some c"
    by (simp add: run_events_append run_events_cause)
  moreover have "(c = CauseDeadline \<longleftrightarrow> e = DeadlineFires) \<and> (c = CauseParent \<longleftrightarrow> e = ParentDone) \<and>
      (c = CauseOutputLimit \<longleftrightarrow> (\<exists>p. e = OutChunk p \<or> e = ErrChunk p))"
    using e assms(1) by (cases e) (auto simp: cancel_def onFlood_def split_beta Let_def split: if_splits)
  ultimately show ?thesis by blast
qed

theorem first_cancellation_wins_witness:
  "Cause (run_events (start_io 2 2) [OutChunk ''abc'', DeadlineFires]) = Some CauseOutputLimit"
  using first_cancellation_wins [of "start_io 2 2" "[]" "OutChunk ''abc''" CauseOutputLimit "[DeadlineFires]"]
  by (simp add: start_io_def new_buffer_def lb_write_def markTruncated_def onFlood_def cancel_def
      fits64_def)

end
