(* ===== verification/Encoding.thy ===== *)
theory Encoding
  imports GoStrings
begin

text \<open>
  \<^verbatim>\<open>internal/executor/encoding.go\<close>: binary-safe rendering of the output streams, on Go's
  \<^verbatim>\<open>base64.StdEncoding\<close> (encoder and decoder of the standard library: padded, carriage returns
  and newlines skipped by the decoder, padding only at the end).
\<close>

subsection \<open>Standard base64\<close>

definition b64_alphabet :: bytes where
  "b64_alphabet = ''ABCDEFGHIJKLMNOPQRSTUVWXYZabcdefghijklmnopqrstuvwxyz0123456789+/''"

definition b64_char :: "nat \<Rightarrow> char" where
  "b64_char n = b64_alphabet ! n"

fun index_of :: "char \<Rightarrow> bytes \<Rightarrow> nat option" where
  "index_of c [] = None"
| "index_of c (x # xs) = (if c = x then Some 0 else map_option Suc (index_of c xs))"

definition b64_val :: "char \<Rightarrow> nat option" where
  "b64_val c = index_of c b64_alphabet"

abbreviation byte :: "nat \<Rightarrow> char" where
  "byte n \<equiv> char_of n"

abbreviation octet :: "char \<Rightarrow> nat" where
  "octet c \<equiv> of_char c"

fun b64_encode :: "bytes \<Rightarrow> bytes" where
  "b64_encode [] = []"
| "b64_encode [a] =
     [b64_char (octet a div 4), b64_char (octet a mod 4 * 16), CHR ''='', CHR ''='']"
| "b64_encode [a, b] =
     [b64_char (octet a div 4), b64_char (octet a mod 4 * 16 + octet b div 16),
      b64_char (octet b mod 16 * 4), CHR ''='']"
| "b64_encode (a # b # c # rest) =
     b64_char (octet a div 4) # b64_char (octet a mod 4 * 16 + octet b div 16) #
     b64_char (octet b mod 16 * 4 + octet c div 64) # b64_char (octet c mod 64) # b64_encode rest"

definition obind :: "'a option \<Rightarrow> ('a \<Rightarrow> 'b option) \<Rightarrow> 'b option" where
  "obind x f = (case x of None \<Rightarrow> None | Some y \<Rightarrow> f y)"

lemma obind_simps [simp]: "obind None f = None" "obind (Some x) f = f x"
  by (simp_all add: obind_def)

fun b64_quads :: "bytes \<Rightarrow> bytes option" where
  "b64_quads [] = Some []"
| "b64_quads (a # b # c # d # rest) =
     obind (b64_val a) (\<lambda>x. obind (b64_val b) (\<lambda>y.
       if c = CHR ''='' then
         (if d = CHR ''='' \<and> rest = [] then Some [byte (x * 4 + y div 16)] else None)
       else obind (b64_val c) (\<lambda>z.
         if d = CHR ''='' then
           (if rest = [] then Some [byte (x * 4 + y div 16), byte (y mod 16 * 16 + z div 4)] else None)
         else obind (b64_val d) (\<lambda>w. obind (b64_quads rest) (\<lambda>out.
           Some (byte (x * 4 + y div 16) # byte (y mod 16 * 16 + z div 4) #
             byte (z mod 4 * 64 + w) # out))))))"
| "b64_quads _ = None"

definition b64_decode :: "bytes \<Rightarrow> bytes option" where
  "b64_decode s = b64_quads (filter (\<lambda>c. c \<noteq> CHR 0x0A \<and> c \<noteq> CHR 0x0D) s)"

lemma length_b64_alphabet [simp]: "length b64_alphabet = 64"
  by (simp add: b64_alphabet_def)

lemma distinct_b64_alphabet [simp]: "distinct b64_alphabet"
  by (simp add: b64_alphabet_def)

lemma b64_alphabet_free: "c \<in> set b64_alphabet \<Longrightarrow> c \<noteq> CHR ''='' \<and> c \<noteq> CHR 0x0A \<and> c \<noteq> CHR 0x0D"
  unfolding b64_alphabet_def by auto

lemma index_of_nth: "distinct xs \<Longrightarrow> n < length xs \<Longrightarrow> index_of (xs ! n) xs = Some n"
proof (induction xs arbitrary: n)
  case (Cons x xs)
  then show ?case by (cases n) auto
qed simp

lemma b64_val_char [simp]: "n < 64 \<Longrightarrow> b64_val (b64_char n) = Some n"
  by (simp add: b64_val_def b64_char_def index_of_nth)

lemma b64_char_free [simp]:
  "n < 64 \<Longrightarrow> b64_char n \<noteq> CHR ''=''" "n < 64 \<Longrightarrow> b64_char n \<noteq> CHR 0x0A"
  "n < 64 \<Longrightarrow> b64_char n \<noteq> CHR 0x0D"
  using b64_alphabet_free [of "b64_char n"] by (auto simp: b64_char_def)

lemma octet_less: "octet c < 256"
  by simp

lemma sextets [simp]:
  "octet a div 4 < 64" "octet a mod 4 * 16 < 64" "octet a mod 4 * 16 + octet b div 16 < 64"
  "octet b mod 16 * 4 < 64" "octet b mod 16 * 4 + octet c div 64 < 64" "octet c mod 64 < 64"
  using octet_less [of a] octet_less [of b] octet_less [of c] by linarith+

lemma b64_plain: "c \<in> set (b64_encode s) \<Longrightarrow> c \<noteq> CHR 0x0A \<and> c \<noteq> CHR 0x0D"
  by (induction s rule: b64_encode.induct) auto

lemma octet_high [simp]:
  "octet a div 16 div 16 = 0" "octet a div 16 mod 16 = octet a div 16"
  "octet a div 64 div 4 = 0" "octet a div 64 mod 4 = octet a div 64"
proof -
  have "octet a div 16 < 16" "octet a div 64 < 4" using octet_less [of a] by linarith+
  then show "octet a div 16 mod 16 = octet a div 16" "octet a div 64 mod 4 = octet a div 64"
    by simp_all
qed (simp_all add: div_mult2_eq [symmetric])

lemma b64_quads_encode: "b64_quads (b64_encode s) = Some s"
  by (induction s rule: b64_encode.induct) simp_all

lemma b64_decode_encode: "b64_decode (b64_encode s) = Some s"
proof -
  have "filter (\<lambda>c. c \<noteq> CHR 0x0A \<and> c \<noteq> CHR 0x0D) (b64_encode s) = b64_encode s"
    using b64_plain by (intro filter_True) blast
  then show ?thesis by (simp add: b64_decode_def b64_quads_encode)
qed

subsection \<open>Codecs\<close>

text \<open>What a wire codec for byte streams promises: everything encoded can be read back.\<close>

locale byte_codec =
  fixes enc :: "bytes \<Rightarrow> bytes" and dec :: "bytes \<Rightarrow> bytes option"
  assumes dec_enc: "dec (enc s) = Some s"
begin

lemma enc_inject: "enc s = enc t \<longleftrightarrow> s = t"
  by (metis dec_enc option.inject)

lemma enc_hides: "enc s = t \<Longrightarrow> dec t = Some s"
  using dec_enc by blast

end

interpretation base64: byte_codec b64_encode b64_decode
  by unfold_locales (rule b64_decode_encode)

interpretation plain: byte_codec "\<lambda>s. s" Some
  by unfold_locales simp

subsection \<open>The streams of a result\<close>

definition wantBase64 :: "bytes \<Rightarrow> bool" where
  "wantBase64 encoding \<longleftrightarrow> equal_fold (trim_space encoding) ''base64''"

definition encodeStream :: "bytes \<Rightarrow> bytes \<Rightarrow> bytes" where
  "encodeStream encoding s = (if wantBase64 encoding then b64_encode s else s)"

definition decodeStream :: "bytes \<Rightarrow> bytes \<Rightarrow> bytes option" where
  "decodeStream encoding s = (if wantBase64 encoding then b64_decode s else Some s)"

lemma codec_of: "byte_codec (encodeStream e) (decodeStream e)"
  unfolding encodeStream_def [abs_def] decodeStream_def [abs_def]
  using base64.byte_codec_axioms plain.byte_codec_axioms by (cases "wantBase64 e") simp_all

lemma length_b64_encode: "length (b64_encode s) = (length s + 2) div 3 * 4"
proof (induction s rule: b64_encode.induct)
  case (4 a b c rest)
  have "(length (a # b # c # rest) + 2) div 3 = Suc ((length rest + 2) div 3)" by simp
  with 4 show ?case by simp
qed simp_all

text \<open>C35: Binary-safe output. Under every \<open>encoding\<close> the rendered stream can be read back exactly, so two
  different captures are never rendered alike; a base64 rendering has four characters for every
  three bytes begun, and any other encoding leaves the captured bytes untouched.\<close>
theorem encodeStream_roundtrip:
  "decodeStream e (encodeStream e s) = Some s \<and>
   (encodeStream e s = encodeStream e t \<longleftrightarrow> s = t) \<and>
   length (encodeStream e s) = (if wantBase64 e then (length s + 2) div 3 * 4 else length s)"
  using byte_codec.dec_enc [OF codec_of] byte_codec.enc_inject [OF codec_of]
  by (simp add: encodeStream_def length_b64_encode)

end
