(* ===== verification/Host.thy ===== *)
theory Host
  imports Materialize Buffer
begin

text \<open>
  The world outside the program: the operating system, the jail binary and the child processes.
  None of it is code of the repository, so it is a record of functions over an unknown state
  \<open>'w\<close>, an argument of every definition that touches the outside. What a command is
  (\<^verbatim>\<open>exec.Cmd\<close> as the program fills it in) and what it leaves behind (\<^verbatim>\<open>ProcessState\<close>, the
  output chunks, the error of \<open>Run\<close>) is data of the model. \<open>Deadline\<close> is the timeout, in nanoseconds, of
  the context the command is bound to.
\<close>

record os_cmd =
  Prog :: bytes
  Args :: "bytes list"
  CDir :: bytes
  Setpgid :: bool
  NewNetns :: bool
  CgroupFD :: "int option"
  CancelGroup :: bool
  Env :: "bytes list option"
  StdinData :: bytes
  Deadline :: int

definition exec_Command :: "bytes \<Rightarrow> bytes list \<Rightarrow> os_cmd" where
  "exec_Command prog args =
     \<lparr>Prog = prog, Args = args, CDir = [], Setpgid = False, NewNetns = False, CgroupFD = None,
      CancelGroup = False, Env = None, StdinData = [], Deadline = 0\<rparr>"

text \<open>
  \<open>CancelGroup\<close> says that \<open>Cancel\<close> kills the whole process group (\<open>CancelCmd\<close>) and not just the
  process. \<open>PExit\<close> is what \<open>ProcessState.ExitCode()\<close> returns (-1 for a signalled process), \<open>PSignal\<close> the
  number of the signal that killed it.
\<close>

record proc_state =
  PExit :: int
  PSignal :: "int option"
  PMaxrss :: int

record child =
  Events :: "event list"
  RunErr :: bool
  PState :: "proc_state option"

datatype path_kind = PathAbsent | PathDir | PathOther

datatype rm_result = RmDone | RmNotExist | RmBusy

record 'w host =
  look_path :: "bytes \<Rightarrow> bytes option"
  get_uid :: int
  get_gid :: int
  mkdir_temp :: "bytes \<Rightarrow> bytes \<Rightarrow> 'w \<Rightarrow> bytes option \<times> 'w"
  path_stat :: "bytes \<Rightarrow> 'w \<Rightarrow> path_kind"
  is_cgroup2 :: "bytes \<Rightarrow> 'w \<Rightarrow> bool"
  write_ctl :: "bytes \<Rightarrow> bytes \<Rightarrow> bytes \<Rightarrow> 'w \<Rightarrow> bool \<times> 'w"
  read_ctl :: "bytes \<Rightarrow> bytes \<Rightarrow> 'w \<Rightarrow> bytes option"
  open_dir :: "bytes \<Rightarrow> 'w \<Rightarrow> int option \<times> 'w"
  remove_dir :: "bytes \<Rightarrow> 'w \<Rightarrow> rm_result \<times> 'w"
  now_ns :: "'w \<Rightarrow> int \<times> 'w"
  ctx_done :: "'w \<Rightarrow> bool"
  faults :: "'w \<Rightarrow> os_faults"
  stat_other :: "bytes list \<Rightarrow> 'w \<Rightarrow> int option"
  err_text :: "mat_error \<Rightarrow> bytes"
  embedded :: "bytes \<Rightarrow> bytes"
  spawn :: "os_cmd \<Rightarrow> tree \<Rightarrow> 'w \<Rightarrow> child \<times> tree \<times> 'w"
  run_plain :: "os_cmd \<Rightarrow> 'w \<Rightarrow> (bool \<times> bytes) \<times> 'w"

text \<open>
  \<^verbatim>\<open>os.Stat\<close> follows symbolic links: for a regular file of the tree it gives the size of the content,
  for anything else at the path \<open>stat_other\<close> tells what it leads to.
\<close>

definition os_Stat :: "'w host \<Rightarrow> tree \<Rightarrow> bytes list \<Rightarrow> 'w \<Rightarrow> int option" where
  "os_Stat h t q w =
     (case t q of None \<Rightarrow> None | Some (Reg _ content) \<Rightarrow> Some (len content) | Some _ \<Rightarrow> stat_other h q w)"

text \<open>
  Go's \<^verbatim>\<open>exec.LookPath\<close> over a candidate list, as \<^verbatim>\<open>interpreted.go\<close> \<open>resolveBin\<close> uses it.
\<close>

definition resolveBin :: "'w host \<Rightarrow> bytes list \<Rightarrow> bytes" where
  "resolveBin h candidates =
     (case List.map_filter (look_path h) candidates of
        p # _ \<Rightarrow> p
      | [] \<Rightarrow> (case candidates of [] \<Rightarrow> [] | c # _ \<Rightarrow> c))"

subsection \<open>A run's working directory\<close>

text \<open>
  The directory \<^verbatim>\<open>os.MkdirTemp\<close> creates is empty; \<open>write_file\<close> is \<^verbatim>\<open>os.WriteFile\<close> below it (create or
  truncate; the parent directory must exist; a directory in the way is an error). A link or special
  file in the way is written through, to a place the tree does not show, unless the system refuses.
\<close>

definition fresh_dir :: tree where
  "fresh_dir = [[] \<mapsto> DirN]"

definition write_file :: "os_faults \<Rightarrow> tree \<Rightarrow> bytes list \<Rightarrow> bytes \<Rightarrow> tree option" where
  "write_file os t q c =
     (if write_fault os (join_with ''/'' q) \<or> t (butlast q) \<noteq> Some DirN then None
      else (case t q of
              None \<Rightarrow> Some (t(q \<mapsto> Reg (runner_uid os) c))
            | Some (Reg u _) \<Rightarrow> Some (t(q \<mapsto> Reg u c))
            | Some DirN \<Rightarrow> None
            | Some OtherN \<Rightarrow> if link_fault os (join_with ''/'' q) then None else Some t))"

text \<open>The result of a call of the \<^verbatim>\<open>os\<close> package whose error is passed on as it is.\<close>

definition os_result :: "bytes \<Rightarrow> tree option \<Rightarrow> mat_error + tree" where
  "os_result q r = (case r of None \<Rightarrow> Inl (MatOS q) | Some t \<Rightarrow> Inr t)"

text \<open>A concrete host for the closed examples: no state but a clock, every operation succeeds.\<close>

definition demo_child :: child where
  "demo_child = \<lparr>Events = [OutChunk ''hello''], RunErr = False,
     PState = Some \<lparr>PExit = 0, PSignal = None, PMaxrss = 2048\<rparr>\<rparr>"

definition demo_host :: "int host" where
  "demo_host =
     \<lparr>look_path = (\<lambda>b. Some (''/usr/bin/'' @ b)), get_uid = 1000, get_gid = 1000,
      mkdir_temp = (\<lambda>parent pat w. (Some (parent @ ''/run-1''), w)),
      path_stat = (\<lambda>_ _. PathDir), is_cgroup2 = (\<lambda>_ _. True),
      write_ctl = (\<lambda>_ _ _ w. (True, w)), read_ctl = (\<lambda>_ _ _. None),
      open_dir = (\<lambda>_ w. (Some 7, w)), remove_dir = (\<lambda>_ w. (RmDone, w)),
      now_ns = (\<lambda>w. (w, w + 1000000)), ctx_done = (\<lambda>_. False),
      faults = (\<lambda>_. demo_os), stat_other = (\<lambda>_ _. None), err_text = (\<lambda>_. ''error''), embedded = (\<lambda>_. ''import sys''),
      spawn = (\<lambda>c t w. (demo_child, t, w + 5000000)),
      run_plain = (\<lambda>_ w. ((True, ''Python 3.12.3''), w))\<rparr>"

end
