(* ===== verification/Nsjail.thy ===== *)
theory Nsjail
  imports Host GoStrconv
begin

text \<open>
  \<^verbatim>\<open>internal/sandbox/sandbox.go\<close> and \<^verbatim>\<open>internal/sandbox/nsjail.go\<close>: what a runtime asks the
  sandbox for (\<open>Spec\<close>), the syscall policies, and the argument vector of the jail.
\<close>

subsection \<open>The request to the sandbox\<close>

definition JailMount :: bytes where
  "JailMount = ''/sandbox''"

definition JailPath :: "bytes \<Rightarrow> bytes" where
  "JailPath name = JailMount @ ''/'' @ name"

datatype SeccompProfile =
  SeccompDenylist | SeccompStaticEnforce | SeccompStaticComplain | SeccompTracer

text \<open>The constants are declared by \<open>iota\<close>, so they are ordered by their declaration.\<close>

primrec profile_iota :: "SeccompProfile \<Rightarrow> nat" where
  "profile_iota SeccompDenylist = 0"
| "profile_iota SeccompStaticEnforce = 1"
| "profile_iota SeccompStaticComplain = 2"
| "profile_iota SeccompTracer = 3"

lemma profile_iota_inject [simp]: "profile_iota p = profile_iota q \<longleftrightarrow> p = q"
  by (cases p; cases q) simp_all

instantiation SeccompProfile :: linorder
begin

definition less_eq_SeccompProfile :: "SeccompProfile \<Rightarrow> SeccompProfile \<Rightarrow> bool" where
  "p \<le> q \<longleftrightarrow> profile_iota p \<le> profile_iota q"

definition less_SeccompProfile :: "SeccompProfile \<Rightarrow> SeccompProfile \<Rightarrow> bool" where
  "p < q \<longleftrightarrow> profile_iota p < profile_iota q"

instance
  by standard (auto simp: less_eq_SeccompProfile_def less_SeccompProfile_def)

end

record Spec =
  Argv :: "bytes list"
  WorkDir :: bytes
  SpecTimeoutMs :: int
  AddressSpaceMB :: int
  UnlimitedAddressSpace :: bool
  MaxOpenFiles :: int
  SpecMemoryMB :: int
  MaxProcesses :: int
  MaxFileSizeMB :: int
  TmpfsSizeMB :: int
  Writable :: bool
  MinimalRootfs :: bool
  TracerProcfs :: bool
  Seccomp :: SeccompProfile

definition zero_spec :: Spec where
  "zero_spec =
     \<lparr>Argv = [], WorkDir = [], SpecTimeoutMs = 0, AddressSpaceMB = 0,
      UnlimitedAddressSpace = False, MaxOpenFiles = 0, SpecMemoryMB = 0, MaxProcesses = 0,
      MaxFileSizeMB = 0, TmpfsSizeMB = 0, Writable = False, MinimalRootfs = False,
      TracerProcfs = False, Seccomp = SeccompDenylist\<rparr>"

subsection \<open>Syscall policies\<close>

definition tab :: bytes where "tab = [CHR 0x09]"
definition lines_of :: "bytes list \<Rightarrow> bytes" where "lines_of = join_with nl"

definition kill_common :: "bytes list" where
  "kill_common =
     [tab @ tab @ ''mount, umount, pivot_root, chroot,'',
      tab @ tab @ ''kexec_load, init_module, finit_module, delete_module,'',
      tab @ tab @ ''bpf, setns, unshare,'',
      tab @ tab @ ''add_key, keyctl, request_key,'',
      tab @ tab @ ''reboot, swapon, swapoff,'',
      tab @ tab @ ''open_by_handle_at, name_to_handle_at, perf_event_open,'',
      tab @ tab @ ''io_uring_setup, io_uring_enter, io_uring_register, userfaultfd'',
      tab @ ''}'',
      ''}'']"

definition seccompPolicy :: bytes where
  "seccompPolicy = lines_of
     ([''POLICY dalivim {'', tab @ ''KILL {'',
       tab @ tab @ ''ptrace, process_vm_readv, process_vm_writev,''] @ kill_common @
      [''USE dalivim DEFAULT ALLOW''])"

definition tracerPolicy :: bytes where
  "tracerPolicy = lines_of
     ([''POLICY dalivim_trace {'', tab @ ''KILL {''] @ kill_common @
      [''USE dalivim_trace DEFAULT ALLOW''])"

definition staticAllowSyscalls :: bytes where
  "staticAllowSyscalls = lines_of
     [''execve,'',
      tab @ tab @ ''read, write, readv, writev, pread64, pwrite64,'',
      tab @ tab @ ''close, newfstat, newfstatat, lseek, ioctl, fcntl, readlink, readlinkat,'',
      tab @ tab @ ''dup, dup2, dup3, poll, ppoll, pselect6, select,'',
      tab @ tab @ ''brk, mmap, munmap, mprotect, mremap, madvise,'',
      tab @ tab @ ''rt_sigaction, rt_sigprocmask, rt_sigreturn, sigaltstack,'',
      tab @ tab @ ''arch_prctl, set_tid_address, set_robust_list, prlimit64,'',
      tab @ tab @ ''futex, sched_yield, sched_getaffinity, getcpu,'',
      tab @ tab @ ''clock_gettime, clock_getres, clock_nanosleep, nanosleep, gettimeofday, time,'',
      tab @ tab @ ''getpid, gettid, getuid, geteuid, getgid, getegid, getrandom, newuname, sysinfo,'',
      tab @ tab @ ''exit, exit_group, restart_syscall'']"

definition staticAllowlistPolicy :: "bytes \<Rightarrow> bytes" where
  "staticAllowlistPolicy defaultAction =
     ''POLICY dalivim_static {'' @ nl @ tab @ ''ALLOW {'' @ nl @ tab @ tab @ staticAllowSyscalls @
     nl @ tab @ ''}'' @ nl @ ''}'' @ nl @ ''USE dalivim_static DEFAULT '' @ defaultAction"

definition seccompPolicyFor :: "SeccompProfile \<Rightarrow> bytes" where
  "seccompPolicyFor p =
     (case p of
        SeccompStaticEnforce \<Rightarrow> staticAllowlistPolicy ''KILL''
      | SeccompStaticComplain \<Rightarrow> staticAllowlistPolicy ''LOG''
      | SeccompTracer \<Rightarrow> tracerPolicy
      | SeccompDenylist \<Rightarrow> seccompPolicy)"

text \<open>
  Reading a policy back: the action of its one block, the syscalls listed in it, and the default
  action (the last word).
\<close>

definition policy_sep :: "char \<Rightarrow> bool" where
  "policy_sep c \<longleftrightarrow> c \<in> {CHR 0x0A, CHR 0x09, CHR '' '', CHR '',''}"

definition after_brace :: "bytes \<Rightarrow> bytes" where
  "after_brace s = tl (dropWhile (\<lambda>c. c \<noteq> CHR ''{'') s)"

definition policy_names :: "bytes \<Rightarrow> bytes list" where
  "policy_names s = fields_by policy_sep [] (takeWhile (\<lambda>c. c \<noteq> CHR ''}'') (after_brace (after_brace s)))"

definition policy_action :: "bytes \<Rightarrow> bytes list" where
  "policy_action s = fields_by policy_sep [] (takeWhile (\<lambda>c. c \<noteq> CHR ''{'') (after_brace s))"

definition policy_default :: "bytes \<Rightarrow> bytes" where
  "policy_default s = last (fields_by policy_sep [] s)"

subsection \<open>The argument vector\<close>

definition cpuCapSeconds :: "int \<Rightarrow> int" where
  "cpuCapSeconds timeoutMs = i64 (go_quot (i64 (timeoutMs + 999)) 1000 + 1)"

definition wallCapSeconds :: "int \<Rightarrow> int" where
  "wallCapSeconds timeoutMs =
     (let s = go_quot (i64 (timeoutMs + 999)) 1000 in if s < 1 then 1 else s)"

definition nsjailFlags :: "int \<Rightarrow> int \<Rightarrow> Spec \<Rightarrow> bytes list" where
  "nsjailFlags uid gid spec =
     [''--mode'', ''o'', ''--quiet'', ''--iface_no_lo'',
      ''--time_limit'', itoa (wallCapSeconds (SpecTimeoutMs spec)),
      ''--rlimit_cpu'', itoa (cpuCapSeconds (SpecTimeoutMs spec)),
      ''--user'', ''0:'' @ itoa uid @ '':1'',
      ''--group'', ''0:'' @ itoa gid @ '':1''] @
     (if \<not> TracerProcfs spec then [''--disable_proc''] else []) @
     (if \<not> MinimalRootfs spec then [''--bindmount_ro'', ''/''] else []) @
     (if TmpfsSizeMB spec > 0
      then [''--mount'', ''none:/tmp:tmpfs:size='' @ itoa (i64 (i64 (TmpfsSizeMB spec * 1024) * 1024))]
      else [''--tmpfsmount'', ''/tmp'']) @
     [if Writable spec then ''--bindmount'' else ''--bindmount_ro'', WorkDir spec @ '':'' @ JailMount,
      ''--cwd'', JailMount, ''--keep_env'',
      ''--seccomp_string'', seccompPolicyFor (Seccomp spec)] @
     (if AddressSpaceMB spec > 0 then [''--rlimit_as'', itoa (AddressSpaceMB spec)]
      else if UnlimitedAddressSpace spec then [''--rlimit_as'', ''inf'']
      else []) @
     (if MaxOpenFiles spec > 0 then [''--rlimit_nofile'', itoa (MaxOpenFiles spec)] else []) @
     (if MaxProcesses spec > 0 then [''--rlimit_nproc'', itoa (MaxProcesses spec)] else []) @
     (if MaxFileSizeMB spec > 0 then [''--rlimit_fsize'', itoa (MaxFileSizeMB spec)] else [])"

definition nsjailArgs :: "int \<Rightarrow> int \<Rightarrow> Spec \<Rightarrow> bytes list" where
  "nsjailArgs uid gid spec = nsjailFlags uid gid spec @ ''--'' # Argv spec"

subsection \<open>Facts about the policies\<close>

lemma tracer_contents:
  "policy_names tracerPolicy =
    [''mount'', ''umount'', ''pivot_root'', ''chroot'', ''kexec_load'', ''init_module'',
     ''finit_module'', ''delete_module'', ''bpf'', ''setns'', ''unshare'', ''add_key'', ''keyctl'',
     ''request_key'', ''reboot'', ''swapon'', ''swapoff'', ''open_by_handle_at'',
     ''name_to_handle_at'', ''perf_event_open'', ''io_uring_setup'', ''io_uring_enter'',
     ''io_uring_register'', ''userfaultfd'']"
  by code_simp

lemma denylist_contents:
  "policy_names seccompPolicy =
     [''ptrace'', ''process_vm_readv'', ''process_vm_writev''] @ policy_names tracerPolicy"
  by code_simp

lemma static_contents:
  "policy_names (staticAllowlistPolicy ''KILL'') = policy_names (staticAllowlistPolicy ''LOG'')"
  by code_simp

lemma static_excludes:
  "list_all (\<lambda>c. c \<notin> set (policy_names (staticAllowlistPolicy ''KILL'')))
     ([''socket'', ''open'', ''openat'', ''clone'', ''clone3'', ''fork'', ''vfork'', ''execveat''] @
      policy_names seccompPolicy)"
  by code_simp

lemma tracer_disjoint:
  "list_all (\<lambda>c. c \<notin> set [''ptrace'', ''process_vm_readv'', ''process_vm_writev''])
     (policy_names tracerPolicy)"
  by code_simp

lemma policy_modes:
  "map (\<lambda>p. (policy_action (seccompPolicyFor p), policy_default (seccompPolicyFor p)))
     [SeccompDenylist, SeccompStaticEnforce, SeccompStaticComplain, SeccompTracer] =
   [([''KILL''], ''ALLOW''), ([''ALLOW''], ''KILL''), ([''ALLOW''], ''LOG''), ([''KILL''], ''ALLOW'')]"
  by code_simp

text \<open>The syscall policies. The tracer profile kills exactly what the shared denylist kills except the
  three tracer syscalls, and both let the rest through; the two static profiles list the same
  syscalls as allowed and differ only in the default action (kill or log), and nothing that the
  denylist kills, and none of the socket, open, clone, fork and \<open>execveat\<close> families, is on that
  list.\<close>
theorem seccomp_policies:
  "set (policy_names (seccompPolicyFor SeccompTracer)) =
     set (policy_names (seccompPolicyFor SeccompDenylist)) -
       {''ptrace'', ''process_vm_readv'', ''process_vm_writev''} \<and>
   policy_names (seccompPolicyFor SeccompStaticEnforce) = policy_names (seccompPolicyFor SeccompStaticComplain) \<and>
   set (policy_names (seccompPolicyFor SeccompStaticEnforce)) \<inter>
     ({''socket'', ''open'', ''openat'', ''clone'', ''clone3'', ''fork'', ''vfork'', ''execveat''} \<union>
      set (policy_names (seccompPolicyFor SeccompDenylist))) = {} \<and>
   map (\<lambda>p. (policy_action (seccompPolicyFor p), policy_default (seccompPolicyFor p)))
     [SeccompDenylist, SeccompStaticEnforce, SeccompStaticComplain, SeccompTracer] =
   [([''KILL''], ''ALLOW''), ([''ALLOW''], ''KILL''), ([''ALLOW''], ''LOG''), ([''KILL''], ''ALLOW'')]"
proof (intro conjI)
  show "set (policy_names (seccompPolicyFor SeccompTracer)) =
      set (policy_names (seccompPolicyFor SeccompDenylist)) -
        {''ptrace'', ''process_vm_readv'', ''process_vm_writev''}"
    using tracer_disjoint unfolding list_all_iff seccompPolicyFor_def
    by (simp add: denylist_contents) blast
  show "set (policy_names (seccompPolicyFor SeccompStaticEnforce)) \<inter>
     ({''socket'', ''open'', ''openat'', ''clone'', ''clone3'', ''fork'', ''vfork'', ''execveat''} \<union>
      set (policy_names (seccompPolicyFor SeccompDenylist))) = {}"
    using static_excludes unfolding list_all_iff seccompPolicyFor_def by (simp only: set_append) auto
  show "policy_names (seccompPolicyFor SeccompStaticEnforce) =
      policy_names (seccompPolicyFor SeccompStaticComplain)"
    by (simp add: seccompPolicyFor_def static_contents)
qed (rule policy_modes)

subsection \<open>Facts about the argument vector\<close>

lemma itoa_not_dashes [simp]: "itoa x \<noteq> ''--''"
  using digits10_no_sign [of "CHR ''-''" "nat (- x)"] digits10_no_sign [of "CHR ''-''" "nat x"]
  by (cases "x < 0") (auto simp: itoa_def)

lemma policy_not_dashes [simp]: "seccompPolicyFor p \<noteq> ''--''"
  by (cases p) (simp_all add: seccompPolicyFor_def seccompPolicy_def tracerPolicy_def lines_of_def
      staticAllowlistPolicy_def)

lemma workmount_not_dashes [simp]: "w @ '':'' @ JailMount \<noteq> ''--''"
proof
  assume "w @ '':'' @ JailMount = ''--''"
  then have "length (w @ '':'' @ JailMount) = 2" by (simp only:) simp
  then show False by (simp add: JailMount_def)
qed

lemma nsjailFlags_no_dashes: "''--'' \<notin> set (nsjailFlags uid gid spec)"
  using workmount_not_dashes [of "WorkDir spec", symmetric] policy_not_dashes [symmetric]
    itoa_not_dashes [symmetric]
  by (auto simp: nsjailFlags_def JailMount_def)

text \<open>The jail cannot be reconfigured from the command it runs. In the argument vector the first \<open>--\<close>
  is the one the runner puts there: everything before it is the runner's own flags, which do not
  depend on the command, and everything after it is the command, unchanged.\<close>
theorem nsjail_argv_boundary:
  "takeWhile (\<lambda>a. a \<noteq> ''--'') (nsjailArgs uid gid spec) = nsjailFlags uid gid (spec\<lparr>Argv := []\<rparr>) \<and>
   dropWhile (\<lambda>a. a \<noteq> ''--'') (nsjailArgs uid gid spec) = ''--'' # Argv spec"
proof -
  have 1: "nsjailFlags uid gid (spec\<lparr>Argv := []\<rparr>) = nsjailFlags uid gid spec"
    by (simp add: nsjailFlags_def)
  have 2: "a \<noteq> ''--''" if "a \<in> set (nsjailFlags uid gid spec)" for a
    using that nsjailFlags_no_dashes [of uid gid spec] by blast
  have "takeWhile (\<lambda>a. a \<noteq> ''--'') (nsjailArgs uid gid spec) =
      nsjailFlags uid gid spec @ takeWhile (\<lambda>a. a \<noteq> ''--'') (''--'' # Argv spec)"
    unfolding nsjailArgs_def by (rule takeWhile_append2) (rule 2)
  moreover have "dropWhile (\<lambda>a. a \<noteq> ''--'') (nsjailArgs uid gid spec) =
      dropWhile (\<lambda>a. a \<noteq> ''--'') (''--'' # Argv spec)"
    unfolding nsjailArgs_def by (rule dropWhile_append2) (rule 2)
  ultimately show ?thesis unfolding 1 by simp
qed

text \<open>Reading the flags the way an option parser does: some stand alone, the others take a value.\<close>

definition lone_flags :: "bytes list" where
  "lone_flags = [''--quiet'', ''--iface_no_lo'', ''--disable_proc'', ''--keep_env'']"

fun jail_opts :: "bytes list \<Rightarrow> (bytes \<times> bytes) list option" where
  "jail_opts [] = Some []"
| "jail_opts [f] = (if f \<in> set lone_flags then Some [(f, [])] else None)"
| "jail_opts (f # v # rest) =
     (if f \<in> set lone_flags then map_option ((#) (f, [])) (jail_opts (v # rest))
      else map_option ((#) (f, v)) (jail_opts rest))"

lemma jail_opts_lone: "f \<in> set lone_flags \<Longrightarrow> jail_opts (f # rest) = map_option ((#) (f, [])) (jail_opts rest)"
  by (cases rest) simp_all

lemma jail_opts_pair: "f \<notin> set lone_flags \<Longrightarrow> jail_opts (f # v # rest) = map_option ((#) (f, v)) (jail_opts rest)"
  by simp

lemma jail_opts_append:
  "jail_opts xs = Some opts \<Longrightarrow> jail_opts (xs @ ys) = map_option ((@) opts) (jail_opts ys)"
proof (induction xs arbitrary: opts rule: jail_opts.induct)
  case 1
  then show ?case by (cases "jail_opts ys") auto
next
  case (2 f)
  then show ?case by (cases "jail_opts ys") (auto simp: jail_opts_lone split: if_splits)
next
  case (3 f v rest)
  show ?case
  proof (cases "f \<in> set lone_flags")
    case True
    with 3(3) obtain os where "jail_opts (v # rest) = Some os" "opts = (f, []) # os" by auto
    with 3(1) [OF True] True show ?thesis by (cases "jail_opts ys") auto
  next
    case False
    with 3(3) obtain os where "jail_opts rest = Some os" "opts = (f, v) # os" by auto
    with 3(2) [OF False] False show ?thesis by (cases "jail_opts ys") auto
  qed
qed


text \<open>The two time limits of the jail, for a non-negative timeout in milliseconds: the wall limit is the
  timeout rounded up to whole seconds, at least one, and the CPU limit is strictly above the
  timeout, by at most one second more than the wall limit.\<close>
theorem jail_time_caps:
  assumes "0 \<le> t" and "fits64 (t + 1999)"
  shows "1 \<le> wallCapSeconds t \<and> t \<le> 1000 * wallCapSeconds t \<and>
    (wallCapSeconds t = 1 \<or> 1000 * (wallCapSeconds t - 1) < t) \<and>
    t < 1000 * cpuCapSeconds t \<and>
    wallCapSeconds t \<le> cpuCapSeconds t \<and> cpuCapSeconds t \<le> wallCapSeconds t + 1"
proof -
  have f: "fits64 (t + 999)" "fits64 ((t + 999) div 1000 + 1)"
    using assms by (auto simp: fits64_def)
  have w: "wallCapSeconds t = max 1 ((t + 999) div 1000)"
    using assms f by (simp add: wallCapSeconds_def Let_def go_quot_nonneg)
  have c: "cpuCapSeconds t = (t + 999) div 1000 + 1"
    using assms f by (simp add: cpuCapSeconds_def go_quot_nonneg)
  show ?thesis unfolding w c using assms(1) by (simp add: max_def) linarith
qed

theorem jail_time_caps_witness: "wallCapSeconds 1500 = 2 \<and> cpuCapSeconds 1500 = 3 \<and> 1 \<le> wallCapSeconds 1500"
  using jail_time_caps [of 1500] by (simp add: fits64_def wallCapSeconds_def cpuCapSeconds_def go_quot_def)

end
