(* ===== verification/Cgroup.thy ===== *)
theory Cgroup
  imports Nsjail
begin

text \<open>
  \<^verbatim>\<open>internal/sandbox/cgroup_linux.go\<close>: the per-run cgroup. A manager is the delegated parent
  directory; each run gets a leaf below it with its limits, is born inside it through the
  directory's descriptor, and is judged afterwards from the kernel's own counters.
\<close>

record cgroupManager =
  parent :: bytes

record runCgroup =
  rc_dir :: bytes
  rc_fd :: "int option"

definition memory_max_value :: "int \<Rightarrow> bytes" where
  "memory_max_value memMB = itoa (i64 (i64 (memMB * 1024) * 1024))"

text \<open>
  \<open>Close\<close> tries to remove the leaf at most twenty times (the pause between the tries is outside
  the model: \<open>remove_dir\<close> may change the outside state).
\<close>

fun remove_retry :: "'w host \<Rightarrow> nat \<Rightarrow> bytes \<Rightarrow> 'w \<Rightarrow> 'w" where
  "remove_retry h 0 d w = w"
| "remove_retry h (Suc n) d w =
     (case remove_dir h d w of
        (RmBusy, w1) \<Rightarrow> remove_retry h n d w1
      | (_, w1) \<Rightarrow> w1)"

definition cg_Close :: "'w host \<Rightarrow> runCgroup \<Rightarrow> 'w \<Rightarrow> runCgroup \<times> 'w" where
  "cg_Close h rc w =
     (let rc1 = rc\<lparr>rc_fd := None\<rparr> in
      if rc_dir rc1 = [] then (rc1, w)
      else (rc1\<lparr>rc_dir := []\<rparr>, remove_retry h 20 (rc_dir rc1) w))"

definition put_ctl :: "'w host \<Rightarrow> bool \<Rightarrow> bytes \<Rightarrow> bytes \<Rightarrow> bytes \<Rightarrow> 'w \<Rightarrow> bool \<times> 'w" where
  "put_ctl h wanted dir name value w = (if wanted then write_ctl h dir name value w else (True, w))"

definition cg_begin :: "'w host \<Rightarrow> cgroupManager \<Rightarrow> int \<Rightarrow> int \<Rightarrow> 'w \<Rightarrow> runCgroup option \<times> 'w" where
  "cg_begin h m memMB pids w =
     (case mkdir_temp h (parent m) ''run-'' w of
        (None, w1) \<Rightarrow> (None, w1)
      | (Some dir, w1) \<Rightarrow>
          (let rc = \<lparr>rc_dir = dir, rc_fd = None\<rparr>;
               (mem_ok, w2) = put_ctl h (memMB > 0) dir ''memory.max'' (memory_max_value memMB) w1
           in if \<not> mem_ok then (None, snd (cg_Close h rc w2))
           else
             (let (_, w3) = put_ctl h (memMB > 0) dir ''memory.swap.max'' ''0'' w2;
                  (pids_ok, w4) = put_ctl h (pids > 0) dir ''pids.max'' (itoa pids) w3
              in if \<not> pids_ok then (None, snd (cg_Close h rc w4))
              else (case open_dir h dir w4 of
                      (None, w5) \<Rightarrow> (None, snd (cg_Close h rc w5))
                    | (Some fd, w5) \<Rightarrow> (Some (rc\<lparr>rc_fd := Some fd\<rparr>), w5)))))"

definition cg_fd :: "runCgroup \<Rightarrow> int" where
  "cg_fd rc = (case rc_fd rc of None \<Rightarrow> -1 | Some fd \<Rightarrow> fd)"

text \<open>
  \<^verbatim>\<open>bufio.Scanner\<close>: the lines of the file without their line ends, up to the first line that does
  not fit the scanner's 64 KiB buffer.
\<close>

definition drop_cr :: "bytes \<Rightarrow> bytes" where
  "drop_cr l = (if l \<noteq> [] \<and> last l = CHR 0x0D then butlast l else l)"

definition scan_lines :: "bytes \<Rightarrow> bytes list" where
  "scan_lines s = map drop_cr (takeWhile (\<lambda>l. length l < 65536) (split_on CHR 0x0A s))"

definition cut_space :: "bytes \<Rightarrow> (bytes \<times> bytes) option" where
  "cut_space l =
     (if CHR '' '' \<in> set l
      then Some (takeWhile (\<lambda>c. c \<noteq> CHR '' '') l, tl (dropWhile (\<lambda>c. c \<noteq> CHR '' '') l))
      else None)"

definition oom_line :: "bytes \<Rightarrow> bool" where
  "oom_line l =
     (case cut_space (trim_space l) of
        None \<Rightarrow> False
      | Some (key, val) \<Rightarrow>
          (key = ''oom_kill'' \<or> key = ''oom_group_kill'') \<and>
          (case atoi val of None \<Rightarrow> False | Some n \<Rightarrow> n > 0))"

definition OOMKilled :: "'w host \<Rightarrow> runCgroup \<Rightarrow> 'w \<Rightarrow> bool" where
  "OOMKilled h rc w =
     (case read_ctl h (rc_dir rc) ''memory.events'' w of
        None \<Rightarrow> False
      | Some s \<Rightarrow> list_ex oom_line (scan_lines s))"

definition PeakMemoryKB :: "'w host \<Rightarrow> runCgroup \<Rightarrow> 'w \<Rightarrow> int" where
  "PeakMemoryKB h rc w =
     (case read_ctl h (rc_dir rc) ''memory.peak'' w of
        None \<Rightarrow> 0
      | Some s \<Rightarrow>
          (case atoi (trim_space s) of
             None \<Rightarrow> 0
           | Some n \<Rightarrow> if n < 0 then 0 else go_quot n 1024))"

definition probeCgroup :: "'w host \<Rightarrow> bytes \<Rightarrow> 'w \<Rightarrow> cgroupManager option \<times> 'w" where
  "probeCgroup h mount w =
     (if trim_space mount = [] then (None, w)
      else if path_stat h mount w \<noteq> PathDir then (None, w)
      else if \<not> is_cgroup2 h mount w then (None, w)
      else
        (let m = \<lparr>parent = mount\<rparr> in
         case cg_begin h m 64 16 w of
           (None, w1) \<Rightarrow> (None, w1)
         | (Some rc, w1) \<Rightarrow>
             (let probe = (exec_Command ''/bin/true'' [])\<lparr>CgroupFD := Some (cg_fd rc)\<rparr>;
                  ((ok, _), w2) = run_plain h probe w1;
                  (_, w3) = cg_Close h rc w2
              in if \<not> ok then (None, w3) else (Some m, w3))))"

subsection \<open>No leaf is left behind\<close>

text \<open>
  What the operating system documents about directories, relative to the set of directories that
  exist: \<open>MkdirTemp\<close> adds a new one, \<open>Remove\<close> removes the one named unless it is busy, and nothing
  else that a leaf's life uses creates or removes any.
\<close>

definition leaf_laws :: "'w host \<Rightarrow> ('w \<Rightarrow> bytes set) \<Rightarrow> bool" where
  "leaf_laws h dirs \<longleftrightarrow>
     (\<forall>p pat w w1. mkdir_temp h p pat w = (None, w1) \<longrightarrow> dirs w1 = dirs w) \<and>
     (\<forall>p pat w d w1. mkdir_temp h p pat w = (Some d, w1) \<longrightarrow>
        d \<notin> dirs w \<and> d \<noteq> [] \<and> dirs w1 = insert d (dirs w)) \<and>
     (\<forall>d f v w. dirs (snd (write_ctl h d f v w)) = dirs w) \<and>
     (\<forall>d w. dirs (snd (open_dir h d w)) = dirs w) \<and>
     (\<forall>d w w1. remove_dir h d w = (RmBusy, w1) \<longrightarrow> dirs w1 = dirs w) \<and>
     (\<forall>d w r w1. remove_dir h d w = (r, w1) \<and> r \<noteq> RmBusy \<longrightarrow> dirs w1 = dirs w - {d})"

lemma leaf_lawsD:
  assumes "leaf_laws h dirs"
  shows "mkdir_temp h p pat w = (None, w1) \<Longrightarrow> dirs w1 = dirs w"
    and "mkdir_temp h p pat w = (Some d, w1) \<Longrightarrow> d \<notin> dirs w \<and> d \<noteq> [] \<and> dirs w1 = insert d (dirs w)"
    and "write_ctl h d f v w = (b, w1) \<Longrightarrow> dirs w1 = dirs w"
    and "open_dir h d w = (fd, w1) \<Longrightarrow> dirs w1 = dirs w"
    and "remove_dir h d w = (RmBusy, w1) \<Longrightarrow> dirs w1 = dirs w"
    and "remove_dir h d w = (r, w1) \<Longrightarrow> r \<noteq> RmBusy \<Longrightarrow> dirs w1 = dirs w - {d}"
  using assms unfolding leaf_laws_def by (metis snd_conv)+

text \<open>A directory that stays busy through all the tries.\<close>

fun busy_for :: "'w host \<Rightarrow> nat \<Rightarrow> bytes \<Rightarrow> 'w \<Rightarrow> bool" where
  "busy_for h 0 d w = True"
| "busy_for h (Suc n) d w = (case remove_dir h d w of (RmBusy, w1) \<Rightarrow> busy_for h n d w1 | _ \<Rightarrow> False)"

lemma remove_retry_dirs:
  assumes "leaf_laws h dirs"
  shows "dirs (remove_retry h n d w) = (if busy_for h n d w then dirs w else dirs w - {d})"
proof (induction n arbitrary: w)
  case (Suc n)
  show ?case
  proof (cases "remove_dir h d w")
    case (Pair r w1)
    then show ?thesis
      using Suc leaf_lawsD(5) [OF assms, of d w w1] leaf_lawsD(6) [OF assms, of d w r w1]
      by (cases r) simp_all
  qed
qed simp

lemma cg_Close_dirs:
  assumes "leaf_laws h dirs" and "rc_dir rc \<noteq> []"
  shows "dirs (snd (cg_Close h rc w)) = (if busy_for h 20 (rc_dir rc) w then dirs w else dirs w - {rc_dir rc})"
  using assms by (simp add: cg_Close_def Let_def remove_retry_dirs)

lemma cg_begin_dirs:
  assumes laws: "leaf_laws h dirs" and begin_eq: "cg_begin h m mem pids w = (r, w')"
  shows "case r of
     None \<Rightarrow> dirs w' = dirs w \<or> (\<exists>d w2. busy_for h 20 d w2)
   | Some rc \<Rightarrow> rc_dir rc \<notin> dirs w \<and> rc_dir rc \<noteq> [] \<and> dirs w' = insert (rc_dir rc) (dirs w)"
proof (cases "mkdir_temp h (parent m) ''run-'' w")
  case (Pair od w1)
  show ?thesis
  proof (cases od)
    case None
    with begin_eq Pair leaf_lawsD(1) [OF laws, of "parent m" "''run-''" w w1] show ?thesis
      by (auto simp: cg_begin_def)
  next
    case (Some d)
    let ?rc = "\<lparr>rc_dir = d, rc_fd = None\<rparr>"
    have d: "d \<notin> dirs w" "d \<noteq> []" "dirs w1 = insert d (dirs w)"
      using leaf_lawsD(2) [OF laws] Pair Some by auto
    have cl: "dirs (snd (cg_Close h ?rc v)) = dirs w \<or> (\<exists>d w2. busy_for h 20 d w2)"
      if "dirs v = dirs w1" for v
      using cg_Close_dirs [OF laws, of ?rc v] d that by auto
    define w2 where "w2 = snd (put_ctl h (mem > 0) d ''memory.max'' (memory_max_value mem) w1)"
    define w3 where "w3 = snd (put_ctl h (mem > 0) d ''memory.swap.max'' ''0'' w2)"
    define w4 where "w4 = snd (put_ctl h (pids > 0) d ''pids.max'' (itoa pids) w3)"
    have wr: "dirs (snd (put_ctl h q a b c v)) = dirs v" "dirs (snd (open_dir h a v)) = dirs v" for q a b c v
      using laws unfolding leaf_laws_def put_ctl_def by auto
    have 2: "dirs w2 = dirs w1" "dirs w3 = dirs w1" "dirs w4 = dirs w1"
      by (simp_all add: w2_def w3_def w4_def wr)
    obtain fd w5 where od5: "open_dir h d w4 = (fd, w5)" by fastforce
    then have 5: "dirs w5 = dirs w1" using wr(2) [of d w4] 2 by simp
    consider "r = None" "w' = snd (cg_Close h ?rc w2)" | "r = None" "w' = snd (cg_Close h ?rc w4)"
      | "r = None" "w' = snd (cg_Close h ?rc w5)" | fd' where "r = Some (?rc\<lparr>rc_fd := Some fd'\<rparr>)" "w' = w5"
      using begin_eq Pair Some od5
      unfolding cg_begin_def Let_def split_beta w2_def [symmetric] w3_def [symmetric] w4_def [symmetric]
      by (auto simp: w2_def [symmetric] w3_def [symmetric] w4_def [symmetric] split: if_splits option.splits)
    then show ?thesis using cl 2 5 d by cases auto
  qed
qed

lemma cg_begin_fd:
  assumes "cg_begin h m mem pids w = (Some rc, w')"
  shows "\<exists>fd. rc_fd rc = Some fd"
  using assms unfolding cg_begin_def Let_def split_beta
  by (auto split: prod.splits option.splits if_splits)


text \<open>A host whose directories are a list; each one is removable.\<close>

definition demo_dirs :: "bytes list host" where
  "demo_dirs =
     \<lparr>look_path = (\<lambda>b. Some b), get_uid = 1000, get_gid = 1000,
      mkdir_temp = (\<lambda>p pat ds. let d = p @ ''/r'' @ itoa (int (length (concat ds))) in
        if d \<in> set ds then (None, ds) else (Some d, d # ds)),
      path_stat = (\<lambda>_ _. PathDir), is_cgroup2 = (\<lambda>_ _. True),
      write_ctl = (\<lambda>d f v ds. (f \<noteq> ''pids.max'', ds)), read_ctl = (\<lambda>_ _ _. None),
      open_dir = (\<lambda>_ ds. (Some 7, ds)),
      remove_dir = (\<lambda>d ds. (RmDone, filter (\<lambda>x. x \<noteq> d) ds)),
      now_ns = (\<lambda>w. (0, w)), ctx_done = (\<lambda>_. False), faults = (\<lambda>_. demo_os), stat_other = (\<lambda>_ _. None),
      err_text = (\<lambda>_. []), embedded = (\<lambda>_. []), spawn = (\<lambda>c t w. (demo_child, t, w)),
      run_plain = (\<lambda>_ w. ((True, []), w))\<rparr>"


subsection \<open>The memory verdict\<close>

definition counter_line :: "bytes \<times> int \<Rightarrow> bytes" where
  "counter_line kn = fst kn @ '' '' @ itoa (snd kn)"

definition counter_ok :: "bytes \<times> int \<Rightarrow> bool" where
  "counter_ok kn \<longleftrightarrow> fst kn \<noteq> [] \<and> (\<forall>c\<in>set (fst kn). graph_char c) \<and> 0 \<le> snd kn \<and> snd kn < 2 ^ 63 \<and>
     length (counter_line kn) < 65536"

lemma digit_graph: "c \<in> set (digits_in 10 n) \<Longrightarrow> graph_char c"
  using digits_in_digit [of 10 c n] by (auto simp: graph_char_def digit_char_code)

lemma itoa_graph: "0 \<le> n \<Longrightarrow> c \<in> set (itoa n) \<Longrightarrow> graph_char c"
  by (simp add: itoa_def digit_graph)

lemma itoa_not_Nil [simp]: "itoa n \<noteq> []"
  by (simp add: itoa_def)

lemma counter_line_trim: "counter_ok kn \<Longrightarrow> trim_space (counter_line kn) = counter_line kn"
  using itoa_graph [of "snd kn" "last (itoa (snd kn))"]
  by (intro trim_space_id) (auto simp: counter_line_def counter_ok_def hd_append last_append)

lemma counter_line_chars:
  assumes "counter_ok kn"
  shows "CHR 0x0A \<notin> set (counter_line kn)" "drop_cr (counter_line kn) = counter_line kn"
    "cut_space (counter_line kn) = Some (fst kn, itoa (snd kn))"
proof -
  have g: "graph_char c" if "c \<in> set (itoa (snd kn)) \<union> set (fst kn)" for c
    using assms that itoa_graph by (auto simp: counter_ok_def)
  show "CHR 0x0A \<notin> set (counter_line kn)"
    using g [of "CHR 0x0A"] by (auto simp: counter_line_def graph_char_def)
  have "last (itoa (snd kn)) \<noteq> CHR 0x0D"
    using g [of "last (itoa (snd kn))"] by (auto simp: graph_char_def)
  then show "drop_cr (counter_line kn) = counter_line kn"
    by (simp add: drop_cr_def counter_line_def last_append)
  have "c \<noteq> CHR '' ''" if "c \<in> set (fst kn)" for c
    using g [of c] that by (auto simp: graph_char_def)
  then show "cut_space (counter_line kn) = Some (fst kn, itoa (snd kn))"
    by (simp add: cut_space_def counter_line_def)
qed

lemma snoc_not_Nil: "xs @ [x] \<noteq> []"
  by simp

lemma oom_line_counter:
  assumes "counter_ok kn"
  shows "oom_line (counter_line kn) \<longleftrightarrow> fst kn \<in> {''oom_kill'', ''oom_group_kill''} \<and> 0 < snd kn"
proof -
  have "atoi (itoa (snd kn)) = Some (snd kn)"
    using assms by (intro atoi_itoa) (auto simp: counter_ok_def fits64_def)
  then show ?thesis
    by (simp add: oom_line_def counter_line_trim [OF assms] counter_line_chars [OF assms])
qed

text \<open>The memory verdict is the kernel's. When \<^verbatim>\<open>memory.events\<close> holds counters printed in decimal, one
  per line, the run counts as killed for memory exactly when the counter \<open>oom_kill\<close> or
  \<open>oom_group_kill\<close> is positive, whatever other counters there are and in whatever order; without the
  file it never does.\<close>
theorem oom_verdict_from_counters:
  assumes "\<forall>kn\<in>set counters. counter_ok kn"
    and "read_ctl h (rc_dir rc) ''memory.events'' w =
      Some (join_with [CHR 0x0A] (map counter_line counters @ [[]]))"
  shows "OOMKilled h rc w \<longleftrightarrow>
    (\<exists>kn\<in>set counters. fst kn \<in> {''oom_kill'', ''oom_group_kill''} \<and> 0 < snd kn)"
proof -
  have free: "\<forall>l\<in>set (map counter_line counters @ [[]]). CHR 0x0A \<notin> set l"
    using assms(1) counter_line_chars(1) by auto
  have short: "\<forall>l\<in>set (map counter_line counters @ [[]]). length l < 65536"
    using assms(1) by (auto simp: counter_ok_def)
  have "map drop_cr (map counter_line counters @ [[]]) = map counter_line counters @ [[]]"
    using assms(1) counter_line_chars(2) by (auto simp: drop_cr_def)
  moreover have "takeWhile (\<lambda>l. length l < 65536) (map counter_line counters @ [[]]) =
      map counter_line counters @ [[]]"
    using short by (simp add: takeWhile_eq_all_conv)
  ultimately have "scan_lines (join_with [CHR 0x0A] (map counter_line counters @ [[]])) =
      map counter_line counters @ [[]]"
    unfolding scan_lines_def split_join [OF snoc_not_Nil free] by (simp only:)
  moreover have "\<not> oom_line []"
    by (simp add: oom_line_def cut_space_def trim_space_id)
  ultimately show ?thesis
    using assms oom_line_counter by (auto simp: OOMKilled_def list_ex_iff)
qed

theorem oom_verdict_from_counters_witness:
  "OOMKilled (demo_dirs\<lparr>read_ctl := \<lambda>_ _ _. Some (join_with [CHR 0x0A] [''high 12'', ''oom_kill 1'', []])\<rparr>)
     \<lparr>rc_dir = ''/cg/r1'', rc_fd = None\<rparr> []"
proof -
  have 1: "itoa 12 = ''12''" "itoa 1 = ''1''" by code_simp+
  then have "\<forall>kn\<in>set [(''high'', 12), (''oom_kill'', 1)]. counter_ok kn"
    by (simp add: counter_ok_def counter_line_def graph_char_def)
  then show ?thesis
    by (subst oom_verdict_from_counters [where counters = "[(''high'', 12), (''oom_kill'', 1)]"])
      (simp_all add: counter_line_def 1)
qed

end
