(* ===== verification/Sandbox.thy ===== *)
theory Sandbox
  imports Cgroup
begin

text \<open>
  \<^verbatim>\<open>internal/sandbox/sandbox_linux.go\<close> and \<^verbatim>\<open>sandbox_other.go\<close>: the three containment backends
  (nsjail, netns, and the stub of other systems), how a run's command is built by each, and how the
  backend is chosen at boot from the operator's policies.
\<close>

record nsjailSandbox =
  nj_bin :: bytes
  nj_uid :: int
  nj_gid :: int
  nj_cg :: "cgroupManager option"
  nj_cgRequired :: bool
  nj_cgroupFailed :: bool

datatype sandbox = Nsjail nsjailSandbox | Netns bool | Stub

definition cgroupLabel :: "cgroupManager option \<Rightarrow> bytes" where
  "cgroupLabel cg = (case cg of None \<Rightarrow> ''rlimit-only'' | Some m \<Rightarrow> ''cgroup-v2:'' @ parent m)"

definition normalizePolicy :: "bytes \<Rightarrow> bytes" where
  "normalizePolicy p = (let q = to_lower (trim_space p) in if q = [] then ''auto'' else q)"

fun NetworkIsolated :: "sandbox \<Rightarrow> bool" where
  "NetworkIsolated (Nsjail s) = True"
| "NetworkIsolated (Netns b) = b"
| "NetworkIsolated Stub = False"

fun Backend :: "sandbox \<Rightarrow> bytes" where
  "Backend (Nsjail s) = ''nsjail''"
| "Backend (Netns b) = ''netns''"
| "Backend Stub = ''none''"

fun Ready :: "sandbox \<Rightarrow> bool" where
  "Ready (Nsjail s) = (\<not> nj_cgroupFailed s)"
| "Ready (Netns b) = True"
| "Ready Stub = True"

fun MemoryAccounting :: "sandbox \<Rightarrow> bytes" where
  "MemoryAccounting (Nsjail s) = cgroupLabel (nj_cg s)"
| "MemoryAccounting (Netns b) = cgroupLabel None"
| "MemoryAccounting Stub = ''rlimit-only''"

subsection \<open>Building a run's command\<close>

definition sh_quote :: "bytes \<Rightarrow> bytes" where
  "sh_quote a = [CHR 0x27] @ replace_char CHR 0x27 [CHR 0x27, CHR 0x5C, CHR 0x27, CHR 0x27] a @ [CHR 0x27]"

definition shJoin :: "bytes list \<Rightarrow> bytes" where
  "shJoin argv = join_with '' '' (map sh_quote argv)"

definition netns_Command :: "bool \<Rightarrow> Spec \<Rightarrow> os_cmd" where
  "netns_Command netns spec =
     (let pre = (if AddressSpaceMB spec > 0
                 then ''ulimit -v '' @ itoa (i64 (AddressSpaceMB spec * 1024)) @ ''; '' else []);
          shellCmd = pre @ ''ulimit -t '' @ itoa (cpuCapSeconds (SpecTimeoutMs spec)) @ ''; exec '' @
            shJoin (Argv spec)
      in (exec_Command ''/bin/sh'' [''-c'', shellCmd])
           \<lparr>CDir := WorkDir spec, Setpgid := True, NewNetns := netns, CancelGroup := True\<rparr>)"

definition nsjail_cmd :: "nsjailSandbox \<Rightarrow> int option \<Rightarrow> Spec \<Rightarrow> os_cmd" where
  "nsjail_cmd s fd spec =
     (exec_Command (nj_bin s) (nsjailArgs (nj_uid s) (nj_gid s) spec))
       \<lparr>Setpgid := True, CgroupFD := fd, CancelGroup := True\<rparr>"

definition nsjail_Command ::
  "'w host \<Rightarrow> nsjailSandbox \<Rightarrow> Spec \<Rightarrow> 'w \<Rightarrow> nsjailSandbox \<times> 'w \<times> (os_cmd \<times> runCgroup option) option" where
  "nsjail_Command h s spec w =
     (case nj_cg s of
        None \<Rightarrow> (s, w, Some (nsjail_cmd s None spec, None))
      | Some m \<Rightarrow>
          (case cg_begin h m (SpecMemoryMB spec) (MaxProcesses spec) w of
             (None, w1) \<Rightarrow>
               (if nj_cgRequired s then (s\<lparr>nj_cgroupFailed := True\<rparr>, w1, None)
                else (s, w1, Some (nsjail_cmd s None spec, None)))
           | (Some rc, w1) \<Rightarrow> (s, w1, Some (nsjail_cmd s (Some (cg_fd rc)) spec, Some rc))))"

definition stub_Command :: "Spec \<Rightarrow> os_cmd" where
  "stub_Command spec = (exec_Command (hd (Argv spec)) (tl (Argv spec)))\<lparr>CDir := WorkDir spec\<rparr>"

fun sb_Command ::
  "'w host \<Rightarrow> sandbox \<Rightarrow> Spec \<Rightarrow> 'w \<Rightarrow> sandbox \<times> 'w \<times> (os_cmd \<times> runCgroup option) option" where
  "sb_Command h (Nsjail s) spec w =
     (case nsjail_Command h s spec w of (s1, w1, r) \<Rightarrow> (Nsjail s1, w1, r))"
| "sb_Command h (Netns b) spec w = (Netns b, w, Some (netns_Command b spec, None))"
| "sb_Command h Stub spec w = (Stub, w, Some (stub_Command spec, None))"

definition MaxRSSkb :: "proc_state option \<Rightarrow> int" where
  "MaxRSSkb ps = (case ps of None \<Rightarrow> 0 | Some p \<Rightarrow> PMaxrss p)"

subsection \<open>Choosing the backend\<close>

datatype conf_error =
  BadCgroupPolicy | CgroupNeedsNsjail | CgroupUnusable | NsjailUnavailable
| BadSandboxPolicy | BadNetPolicy | NetnsUnavailable | CgroupOffLinux

definition probe_spec :: "bytes \<Rightarrow> Spec" where
  "probe_spec dir = zero_spec\<lparr>Argv := [''/bin/true''], WorkDir := dir, SpecTimeoutMs := 2000,
     AddressSpaceMB := 128, MaxProcesses := 64, MaxFileSizeMB := 4\<rparr>"

definition probeNsjail :: "'w host \<Rightarrow> nsjailSandbox \<Rightarrow> 'w \<Rightarrow> bool \<times> 'w" where
  "probeNsjail h s w =
     (case mkdir_temp h [] ''dalivim-probe-*'' w of
        (None, w1) \<Rightarrow> (False, w1)
      | (Some dir, w1) \<Rightarrow>
          (case nsjail_Command h s (probe_spec dir) w1 of
             (_, w2, None) \<Rightarrow> (False, w2)
           | (_, w2, Some (cmd, _)) \<Rightarrow>
               (let ((ok, _), w3) = run_plain h (cmd\<lparr>Env := Some [''PATH=/usr/local/bin:/usr/bin:/bin'']\<rparr>) w2
                in (ok, w3))))"

definition tryNsjail :: "'w host \<Rightarrow> 'w \<Rightarrow> nsjailSandbox option \<times> 'w" where
  "tryNsjail h w =
     (case look_path h ''nsjail'' of
        None \<Rightarrow> (None, w)
      | Some bin \<Rightarrow>
          (let s = \<lparr>nj_bin = bin, nj_uid = get_uid h, nj_gid = get_gid h, nj_cg = None,
                    nj_cgRequired = False, nj_cgroupFailed = False\<rparr>;
               (ok, w1) = probeNsjail h s w
           in (if ok then Some s else None, w1)))"

definition resolveCgroup ::
  "'w host \<Rightarrow> bytes \<Rightarrow> bytes \<Rightarrow> 'w \<Rightarrow> (conf_error + cgroupManager option) \<times> 'w" where
  "resolveCgroup h policy mount w =
     (let p = normalizePolicy policy in
      if p = ''off'' then (Inr None, w)
      else if p = ''auto'' \<or> p = ''require'' then
        (case probeCgroup h mount w of
           (Some cg, w1) \<Rightarrow> (Inr (Some cg), w1)
         | (None, w1) \<Rightarrow> if p = ''require'' then (Inl CgroupUnusable, w1) else (Inr None, w1))
      else (Inl BadCgroupPolicy, w))"

definition probeNetns :: "'w host \<Rightarrow> 'w \<Rightarrow> bool \<times> 'w" where
  "probeNetns h w =
     (let ((ok, _), w1) = run_plain h ((exec_Command ''/bin/true'' [])\<lparr>NewNetns := True\<rparr>) w in (ok, w1))"

definition configureNetns :: "'w host \<Rightarrow> bytes \<Rightarrow> 'w \<Rightarrow> (conf_error + sandbox) \<times> 'w" where
  "configureNetns h policy w =
     (let p = normalizePolicy policy in
      if p = ''off'' then (Inr (Netns False), w)
      else if p = ''auto'' \<or> p = ''require'' then
        (case probeNetns h w of
           (True, w1) \<Rightarrow> (Inr (Netns True), w1)
         | (False, w1) \<Rightarrow>
             if p = ''require'' then (Inl NetnsUnavailable, w1) else (Inr (Netns False), w1))
      else (Inl BadNetPolicy, w))"

definition Configure ::
  "'w host \<Rightarrow> bytes \<Rightarrow> bytes \<Rightarrow> bytes \<Rightarrow> bytes \<Rightarrow> 'w \<Rightarrow> (conf_error + sandbox) \<times> 'w" where
  "Configure h sandboxPolicy netPolicy cgroupPolicy cgroupMount w =
     (let cgPolicy = normalizePolicy cgroupPolicy; policy = normalizePolicy sandboxPolicy in
      if cgPolicy \<notin> {''auto'', ''require'', ''off''} then (Inl BadCgroupPolicy, w)
      else if policy = ''off'' then
        (if cgPolicy = ''require'' then (Inl CgroupNeedsNsjail, w) else configureNetns h netPolicy w)
      else if policy = ''auto'' \<or> policy = ''require'' then
        (case tryNsjail h w of
           (Some nj, w1) \<Rightarrow>
             (case resolveCgroup h cgPolicy cgroupMount w1 of
                (Inl e, w2) \<Rightarrow> (Inl e, w2)
              | (Inr cg, w2) \<Rightarrow>
                  (Inr (Nsjail (nj\<lparr>nj_cg := cg, nj_cgRequired := (cgPolicy = ''require'')\<rparr>)), w2))
         | (None, w1) \<Rightarrow>
             (if policy = ''require'' then (Inl NsjailUnavailable, w1)
              else if cgPolicy = ''require'' then (Inl CgroupNeedsNsjail, w1)
              else configureNetns h netPolicy w1))
      else (Inl BadSandboxPolicy, w))"

text \<open>The \<open>Configure\<close> of a system other than Linux.\<close>

definition Configure_other :: "bytes \<Rightarrow> conf_error + sandbox" where
  "Configure_other cgroupPolicy =
     (if equal_fold (trim_space cgroupPolicy) ''require'' then Inl CgroupOffLinux else Inr Stub)"

subsection \<open>Quoting for the shell\<close>

text \<open>
  How a POSIX shell splits a command of quoted words: a single quote opens and closes a literal
  part, a backslash outside of it takes the next character literally, a blank outside ends the word.
  Every other unquoted character is refused (it could be an operator or an expansion), so a result
  means that the shell interprets nothing in the string.
\<close>

fun sh_words :: "bool \<Rightarrow> bytes option \<Rightarrow> bytes \<Rightarrow> bytes list option" where
  "sh_words quoted word [] =
     (if quoted then None else Some (case word of None \<Rightarrow> [] | Some w \<Rightarrow> [w]))"
| "sh_words True word (c # cs) =
     (if c = CHR 0x27 then sh_words False word cs
      else sh_words True (Some (case word of None \<Rightarrow> [c] | Some w \<Rightarrow> w @ [c])) cs)"
| "sh_words False word (c # cs) =
     (if c = CHR 0x27 then sh_words True (Some (case word of None \<Rightarrow> [] | Some w \<Rightarrow> w)) cs
      else if c = CHR '' '' then
        (case word of None \<Rightarrow> sh_words False None cs
         | Some w \<Rightarrow> map_option ((#) w) (sh_words False None cs))
      else if c = CHR 0x5C then
        (case cs of [] \<Rightarrow> None
         | d # ds \<Rightarrow> sh_words False (Some (case word of None \<Rightarrow> [d] | Some w \<Rightarrow> w @ [d])) ds)
      else None)"

lemma sh_words_body:
  "sh_words True (Some w) (replace_char CHR 0x27 [CHR 0x27, CHR 0x5C, CHR 0x27, CHR 0x27] a @ CHR 0x27 # rest) =
     sh_words False (Some (w @ a)) rest"
  by (induction a arbitrary: w) simp_all

lemma sh_words_quote: "sh_words False None (sh_quote a @ rest) = sh_words False (Some a) rest"
  using sh_words_body [of "[]" a rest] by (simp add: sh_quote_def)

text \<open>C36: The shell command of the netns backend runs exactly the command it was given: a POSIX shell splits
  the quoted string into the original words, whatever characters they contain, and interprets
  nothing in it.\<close>
theorem shJoin_roundtrip: "sh_words False None (shJoin argv) = Some argv"
proof -
  have "sh_words False None (join_with '' '' (map sh_quote (a # as))) = Some (a # as)" for a as
  proof (induction as arbitrary: a)
    case Nil
    show ?case using sh_words_quote [of a "[]"] by simp
  next
    case (Cons b bs)
    from Cons [of b] show ?case by (simp add: sh_words_quote)
  qed
  then show ?thesis by (cases argv) (simp_all add: shJoin_def)
qed

subsection \<open>What a backend promises to the runtimes\<close>

text \<open>
  The contract between a runtime and its backend: a refused run leaves the backend out of service,
  a delivered command leaves its readiness as it was. So readiness is never regained, and it
  is lost exactly with the first refusal.
\<close>

locale containment_backend =
  fixes command :: "'b \<Rightarrow> 's \<Rightarrow> 'w \<Rightarrow> 'b \<times> 'w \<times> 'c option" and ready :: "'b \<Rightarrow> bool"
  assumes refused: "command b s w = (b', w', None) \<Longrightarrow> \<not> ready b'"
    and delivered: "command b s w = (b', w', Some c) \<Longrightarrow> ready b' = ready b"
begin

fun serve_all :: "'b \<Rightarrow> 's list \<Rightarrow> ('c option \<Rightarrow> 'w \<Rightarrow> 'w) \<Rightarrow> 'w \<Rightarrow> 'b \<times> 'w \<times> 'c option list" where
  "serve_all b [] use w = (b, w, [])"
| "serve_all b (s # ss) use w =
     (case command b s w of (b1, w1, r) \<Rightarrow>
        (case serve_all b1 ss use (use r w1) of (b2, w2, rs) \<Rightarrow> (b2, w2, r # rs)))"

lemma not_ready_forever: "\<not> ready b \<Longrightarrow> command b s w = (b', w', r) \<Longrightarrow> \<not> ready b'"
  using refused delivered by (cases r) blast+

lemma serve_ready:
  "serve_all b ss use w = (b', w', rs) \<Longrightarrow> ready b' \<longleftrightarrow> ready b \<and> None \<notin> set rs"
proof (induction ss arbitrary: b w b' w' rs)
  case (Cons s ss)
  obtain b1 w1 r where 1: "command b s w = (b1, w1, r)" by (metis prod_cases3)
  obtain b2 w2 rs' where 2: "serve_all b1 ss use (use r w1) = (b2, w2, rs')" by (metis prod_cases3)
  have "ready b2 \<longleftrightarrow> ready b1 \<and> None \<notin> set rs'" by (rule Cons.IH [OF 2])
  moreover have "ready b1 \<longleftrightarrow> ready b \<and> r \<noteq> None"
    using refused [of b s w b1 w1] delivered [of b s w b1 w1] 1 by (cases r) auto
  ultimately show ?case using Cons.prems 1 2 by auto
qed simp

lemma serve_invariant:
  assumes "\<And>b s w b' w' r. command b s w = (b', w', r) \<Longrightarrow> Q b' \<Longrightarrow> Q b"
    and "\<And>b s w b' w'. command b s w = (b', w', None) \<Longrightarrow> Q b"
  shows "serve_all b ss use w = (b', w', rs) \<Longrightarrow> None \<in> set rs \<Longrightarrow> Q b"
proof (induction ss arbitrary: b w b' w' rs)
  case (Cons s ss)
  obtain b1 w1 r where 1: "command b s w = (b1, w1, r)" by (metis prod_cases3)
  obtain b2 w2 rs' where 2: "serve_all b1 ss use (use r w1) = (b2, w2, rs')" by (metis prod_cases3)
  from Cons.prems 1 2 have "r = None \<or> None \<in> set rs'" by auto
  then show ?case using assms 1 Cons.IH [OF 2] by blast
qed simp

end

lemma nsjail_Command_cases:
  assumes "nsjail_Command h s spec w = (s', w', r)"
  shows "r = None \<and> s' = s\<lparr>nj_cgroupFailed := True\<rparr> \<and> nj_cgRequired s \<and> nj_cg s \<noteq> None \<or>
    s' = s \<and> (\<exists>fd acct. r = Some (nsjail_cmd s fd spec, acct) \<and>
      (nj_cgRequired s \<and> nj_cg s \<noteq> None \<longrightarrow> (\<exists>rc. acct = Some rc \<and> fd = Some (cg_fd rc) \<and> rc_fd rc \<noteq> None)))"
  using assms cg_begin_fd [of h _ "SpecMemoryMB spec" "MaxProcesses spec" w]
  by (fastforce simp: nsjail_Command_def split: option.splits prod.splits if_splits)

interpretation backend: containment_backend "sb_Command h" Ready for h :: "'w host"
proof unfold_locales
  show "sb_Command h b s w = (b', w', None) \<Longrightarrow> \<not> Ready b'" for b s w b' w'
    by (cases b) (auto split: prod.splits dest: nsjail_Command_cases)
  show "sb_Command h b s w = (b', w', Some c) \<Longrightarrow> Ready b' = Ready b" for b s w b' w' c
    by (cases b) (auto split: prod.splits dest: nsjail_Command_cases)
qed

definition serve ::
  "'w host \<Rightarrow> sandbox \<Rightarrow> Spec list \<Rightarrow> ((os_cmd \<times> runCgroup option) option \<Rightarrow> 'w \<Rightarrow> 'w) \<Rightarrow> 'w \<Rightarrow>
     sandbox \<times> 'w \<times> (os_cmd \<times> runCgroup option) option list" where
  "serve h = backend.serve_all h"

definition demands_cgroup :: "sandbox \<Rightarrow> bool" where
  "demands_cgroup sb \<longleftrightarrow> (\<exists>s. sb = Nsjail s \<and> nj_cgRequired s \<and> nj_cg s \<noteq> None)"

text \<open>C25: Readiness is truthful and sticky. Over any sequence of runs, whatever happens in between, the
  sandbox is ready at the end exactly if it was at the start and no run was refused; and a run is
  refused only by the nsjail backend that requires a cgroup.\<close>
theorem readiness_sticky:
  assumes "serve h sb specs use w = (sb', w', rs)"
  shows "(Ready sb' \<longleftrightarrow> Ready sb \<and> None \<notin> set rs) \<and> (None \<in> set rs \<longrightarrow> demands_cgroup sb)"
proof
  show "Ready sb' \<longleftrightarrow> Ready sb \<and> None \<notin> set rs"
    by (rule backend.serve_ready [OF assms [unfolded serve_def]])
  have "sb_Command h b s v = (b', v', r) \<Longrightarrow> demands_cgroup b' \<Longrightarrow> demands_cgroup b" for b s v b' v' r
    by (cases b) (auto simp: demands_cgroup_def split: prod.splits dest!: nsjail_Command_cases)
  moreover have "sb_Command h b s v = (b', v', None) \<Longrightarrow> demands_cgroup b" for b s v b' v'
    by (cases b) (auto simp: demands_cgroup_def split: prod.splits dest!: nsjail_Command_cases)
  ultimately show "None \<in> set rs \<longrightarrow> demands_cgroup sb"
    using backend.serve_invariant [of h demands_cgroup, OF _ _ assms [unfolded serve_def]] by blast
qed

definition demo_nsjail :: nsjailSandbox where
  "demo_nsjail = \<lparr>nj_bin = ''/usr/bin/nsjail'', nj_uid = 1000, nj_gid = 1000,
     nj_cg = Some \<lparr>parent = ''/cg''\<rparr>, nj_cgRequired = True, nj_cgroupFailed = False\<rparr>"

definition demo_spec :: Spec where
  "demo_spec = zero_spec\<lparr>Argv := [''/usr/bin/python3'', ''main.py''], WorkDir := ''/tmp/run-1'',
     SpecTimeoutMs := 3000, SpecMemoryMB := 128, MaxProcesses := 64\<rparr>"

text \<open>On \<open>demo_dirs\<close> the process limit is refused, so a run with one is refused.\<close>

theorem readiness_sticky_witness:
  "\<not> Ready (fst (serve demo_dirs (Nsjail demo_nsjail) [demo_spec\<lparr>MaxProcesses := 0\<rparr>, demo_spec] (\<lambda>_ w. w) []))"
proof -
  obtain sb' w' rs where r: "serve demo_dirs (Nsjail demo_nsjail) [demo_spec\<lparr>MaxProcesses := 0\<rparr>, demo_spec]
      (\<lambda>_ w. w) [] = (sb', w', rs)" by (metis prod_cases3)
  have "None \<in> set (snd (snd (serve demo_dirs (Nsjail demo_nsjail) [demo_spec\<lparr>MaxProcesses := 0\<rparr>, demo_spec]
      (\<lambda>_ w. w) [])))"
    by (simp add: serve_def demo_nsjail_def demo_spec_def zero_spec_def nsjail_Command_def cg_begin_def
        put_ctl_def demo_dirs_def Let_def split_beta)
  with r have "None \<in> set rs" by simp
  with readiness_sticky [OF r] r show ?thesis by simp
qed

text \<open>C9: A delivered command is contained: when a cgroup is required and configured, the child is born in
  its own leaf, through that leaf's descriptor; every command of a Linux backend is the head of a
  process group that cancellation kills as a whole; and the jail backend runs the jail binary on the
  requested command.\<close>
theorem delivered_command_contained:
  assumes "sb_Command h sb spec w = (sb', w', Some (cmd, acct))" and "sb \<noteq> Stub"
  shows "Setpgid cmd \<and> CancelGroup cmd \<and>
    (\<forall>s. sb = Nsjail s \<longrightarrow> Prog cmd = nj_bin s \<and>
       dropWhile (\<lambda>a. a \<noteq> ''--'') (Args cmd) = ''--'' # Argv spec \<and>
       (nj_cgRequired s \<and> nj_cg s \<noteq> None \<longrightarrow>
          (\<exists>rc fd. acct = Some rc \<and> rc_fd rc = Some fd \<and> CgroupFD cmd = Some fd)))"
proof (cases sb)
  case (Nsjail s)
  with assms obtain s' where c: "nsjail_Command h s spec w = (s', w', Some (cmd, acct))"
    by (auto split: prod.splits)
  from nsjail_Command_cases [OF c] obtain fd where cmd: "cmd = nsjail_cmd s fd spec"
    and fd: "nj_cgRequired s \<and> nj_cg s \<noteq> None \<longrightarrow> (\<exists>rc. acct = Some rc \<and> fd = Some (cg_fd rc) \<and> rc_fd rc \<noteq> None)"
    by auto
  have "a \<noteq> ''--''" if "a \<in> set (nsjailFlags (nj_uid s) (nj_gid s) spec)" for a
    using that nsjailFlags_no_dashes [of "nj_uid s" "nj_gid s" spec] by blast
  then have "dropWhile (\<lambda>a. a \<noteq> ''--'') (nsjailArgs (nj_uid s) (nj_gid s) spec) = ''--'' # Argv spec"
    unfolding nsjailArgs_def by (subst dropWhile_append2) simp_all
  with fd Nsjail show ?thesis
    by (auto simp: cmd nsjail_cmd_def exec_Command_def cg_fd_def)
next
  case (Netns b)
  with assms show ?thesis by (auto simp: netns_Command_def exec_Command_def Let_def)
qed (use assms in simp)

theorem delivered_command_contained_witness:
  "\<exists>cmd acct. sb_Command demo_dirs (Nsjail demo_nsjail) (demo_spec\<lparr>MaxProcesses := 0\<rparr>) [] =
      (Nsjail demo_nsjail, [''/cg/r0''], Some (cmd, acct)) \<and> Setpgid cmd \<and> CgroupFD cmd = Some 7"
proof -
  have i: "itoa 0 = ''0''" by code_simp
  have c: "sb_Command demo_dirs (Nsjail demo_nsjail) (demo_spec\<lparr>MaxProcesses := 0\<rparr>) [] =
      (Nsjail demo_nsjail, [''/cg/r0''],
       Some (nsjail_cmd demo_nsjail (Some 7) (demo_spec\<lparr>MaxProcesses := 0\<rparr>), Some \<lparr>rc_dir = ''/cg/r0'', rc_fd = Some 7\<rparr>))"
    by (simp add: demo_nsjail_def demo_spec_def zero_spec_def nsjail_Command_def cg_begin_def
        put_ctl_def demo_dirs_def Let_def cg_fd_def i)
  from delivered_command_contained [OF c] c show ?thesis by (simp add: demo_nsjail_def)
qed

subsection \<open>Fail-closed boot\<close>

lemma probeCgroup_parent: "probeCgroup h mount w = (Some m, w') \<Longrightarrow> m = \<lparr>parent = mount\<rparr>"
  by (auto simp: probeCgroup_def Let_def split: if_splits option.splits prod.splits)

lemma tryNsjail_ready: "tryNsjail h w = (Some s, w') \<Longrightarrow> \<not> nj_cgroupFailed s"
  by (auto simp: tryNsjail_def Let_def split: if_splits option.splits prod.splits)

lemma configureNetns_keeps:
  assumes "configureNetns h policy w = (Inr sb, w')"
  shows "\<exists>b. sb = Netns b \<and> (normalizePolicy policy = ''require'' \<longrightarrow> b)"
  using assms by (auto simp: configureNetns_def Let_def split: if_splits bool.splits prod.splits)

lemma normalizePolicy_words:
  "normalizePolicy ''require'' = ''require''" "normalizePolicy ''off'' = ''off''"
  "normalizePolicy ''auto'' = ''auto''"
  by code_simp+

lemma resolveCgroup_keeps:
  assumes "resolveCgroup h p mount w = (Inr cg, w')" and "normalizePolicy p = p"
  shows "(p = ''require'' \<longrightarrow> cg = Some \<lparr>parent = mount\<rparr>) \<and> (p = ''off'' \<longrightarrow> cg = None)"
  using assms probeCgroup_parent [of h mount w _ w']
  by (auto simp: resolveCgroup_def Let_def split: if_splits option.splits prod.splits)

lemma Configure_keeps:
  assumes "Configure h sandboxPolicy netPolicy cgroupPolicy mount w = (Inr sb, w')"
  shows "(normalizePolicy sandboxPolicy = ''require'' \<longrightarrow> Backend sb = ''nsjail'') \<and>
    (normalizePolicy cgroupPolicy = ''require'' \<longrightarrow>
       (\<exists>s. sb = Nsjail s \<and> nj_cg s = Some \<lparr>parent = mount\<rparr> \<and> nj_cgRequired s)) \<and>
    (normalizePolicy netPolicy = ''require'' \<longrightarrow> NetworkIsolated sb) \<and>
    (normalizePolicy cgroupPolicy = ''off'' \<longrightarrow> MemoryAccounting sb = ''rlimit-only'') \<and>
    Ready sb"
proof -
  let ?cp = "normalizePolicy cgroupPolicy" and ?sp = "normalizePolicy sandboxPolicy"
  have cp: "?cp \<in> {''auto'', ''require'', ''off''}"
    using assms by (auto simp: Configure_def Let_def split: if_splits)
  then have idem: "normalizePolicy ?cp = ?cp" using normalizePolicy_words by auto
  consider (net) v where "configureNetns h netPolicy v = (Inr sb, w')" "?cp \<noteq> ''require''" "?sp \<noteq> ''require''"
    | (jail) nj w1 cg where "tryNsjail h w = (Some nj, w1)" "resolveCgroup h ?cp mount w1 = (Inr cg, w')"
        "sb = Nsjail (nj\<lparr>nj_cg := cg, nj_cgRequired := (?cp = ''require'')\<rparr>)"
    using assms by (auto simp: Configure_def Let_def split: if_splits option.splits prod.splits sum.splits)
  then show ?thesis
  proof cases
    case net
    from configureNetns_keeps [OF net(1)] net(2,3) show ?thesis by (auto simp: cgroupLabel_def)
  next
    case jail
    with tryNsjail_ready [OF jail(1)] resolveCgroup_keeps [OF jail(2) idem]
    show ?thesis by (auto simp: cgroupLabel_def)
  qed
qed



end
