(* ===== verification/Languages.thy ===== *)
theory Languages
  imports Host GoStrconv
begin

text \<open>
  \<^verbatim>\<open>internal/executor/languages.go\<close>: the closed registry of interpreted languages, as data, and
  the pure functions that build their argument vectors and read their version banners.
\<close>

definition determinism_pin :: "bytes list" where
  "determinism_pin = [''LANG=C.UTF-8'', ''LC_ALL=C.UTF-8'', ''TZ=UTC'']"

definition determinismEnv :: "bytes list \<Rightarrow> bytes list" where
  "determinismEnv extra = determinism_pin @ extra"

record languageSpec =
  lName :: bytes
  lSourceFile :: bytes
  lBinNames :: "bytes list"
  lRunArgs :: "bytes list"
  lEnv :: "bytes list"
  lVersionArgs :: "bytes list"
  lParseVersion :: "bytes \<Rightarrow> bytes"
  lMemErrSubstr :: bytes
  lCapAddressSpace :: bool
  lMemoryArgs :: "(int \<Rightarrow> bytes list) option"
  lMultiFileRunArgs :: "(bytes \<Rightarrow> bytes list) option"
  lMinTimeoutMs :: int
  lMinMemoryMB :: int
  lResultFormat :: bytes

subsection \<open>Version banners\<close>

definition secondField :: "bytes \<Rightarrow> bytes" where
  "secondField out = (let f = str_fields out in if length f \<ge> 2 then f ! 1 else [])"

definition firstField :: "bytes \<Rightarrow> bytes" where
  "firstField out = (let f = str_fields out in if length f \<ge> 1 then f ! 0 else [])"

definition trimLeadingV :: "bytes \<Rightarrow> bytes" where
  "trimLeadingV out =
     (let s = trim_space out in if prefix ''v'' s then drop 1 s else s)"

subsection \<open>Argument vectors\<close>

definition pythonRunpyArgs :: "bytes \<Rightarrow> bytes list" where
  "pythonRunpyArgs entryRel =
     (let wrapper = ''import runpy, sys; sys.path.insert(0, '' @ go_quote srcRootName @
            ''); runpy.run_path('' @ go_quote entryRel @ '', run_name='' @ go_quote ''__main__'' @ '')''
      in [''-s'', ''-P'', ''-B'', ''-c'', wrapper])"

definition nodeRunArgs :: "bytes \<Rightarrow> bytes list" where
  "nodeRunArgs entryRel = [''--disable-proto=throw'', ''--'', entryRel]"

definition luaRunArgs :: "bytes \<Rightarrow> bytes list" where
  "luaRunArgs entryRel =
     (let setPath = ''package.path='' @ go_quote (srcRootName @ ''/?.lua;'' @ srcRootName @ ''/?/init.lua;'') @
            ''..package.path''
      in [''-E'', ''-e'', setPath, entryRel])"

definition nodeHeapArgs :: "int \<Rightarrow> bytes list" where
  "nodeHeapArgs memoryMB = [''--max-old-space-size='' @ itoa memoryMB]"

definition phpDisabledFunctions :: bytes where
  "phpDisabledFunctions = ''disable_functions='' @
     ''exec,passthru,shell_exec,system,proc_open,popen,pcntl_exec,'' @
     ''dl,putenv,getenv,ini_restore,phpinfo''"

definition phpDirectives :: "bytes list" where
  "phpDirectives =
     [''-n'', ''-d'', ''display_errors=stderr'', ''-d'', ''error_reporting=-1'', ''-d'', ''memory_limit=-1'',
      ''-d'', ''opcache.enable=0'', ''-d'', ''date.timezone=UTC'', ''-d'', phpDisabledFunctions]"

definition phpRunArgs :: "bytes \<Rightarrow> bytes list" where
  "phpRunArgs entryRel = phpDirectives @ [''-d'', ''include_path='' @ srcRootName, ''-f'', entryRel]"

subsection \<open>The languages\<close>

definition usual_path :: bytes where
  "usual_path = ''PATH=/usr/local/bin:/usr/bin:/bin''"

definition pythonSpec :: languageSpec where
  "pythonSpec =
     \<lparr>lName = ''python'', lSourceFile = ''main.py'', lBinNames = [''python3''],
      lRunArgs = [''-s'', ''-P'', ''main.py''],
      lEnv = determinismEnv [usual_path, ''PYTHONUNBUFFERED=1'', ''PYTHONHASHSEED=0''],
      lVersionArgs = [''--version''], lParseVersion = secondField,
      lMemErrSubstr = ''MemoryError'', lCapAddressSpace = True, lMemoryArgs = None,
      lMultiFileRunArgs = Some pythonRunpyArgs, lMinTimeoutMs = 0, lMinMemoryMB = 0, lResultFormat = []\<rparr>"

definition javascriptSpec :: languageSpec where
  "javascriptSpec =
     \<lparr>lName = ''javascript'', lSourceFile = ''main.js'', lBinNames = [''node'', ''nodejs''],
      lRunArgs = [''--disable-proto=throw'', ''main.js''], lEnv = determinismEnv [usual_path],
      lVersionArgs = [''--version''], lParseVersion = trimLeadingV,
      lMemErrSubstr = [], lCapAddressSpace = False, lMemoryArgs = Some nodeHeapArgs,
      lMultiFileRunArgs = Some nodeRunArgs, lMinTimeoutMs = 0, lMinMemoryMB = 0, lResultFormat = []\<rparr>"

definition luaSpec :: languageSpec where
  "luaSpec =
     \<lparr>lName = ''lua'', lSourceFile = ''main.lua'', lBinNames = [''lua5.4'', ''lua''],
      lRunArgs = [''-E'', ''main.lua''], lEnv = determinismEnv [usual_path],
      lVersionArgs = [''-v''], lParseVersion = secondField,
      lMemErrSubstr = ''not enough memory'', lCapAddressSpace = True, lMemoryArgs = None,
      lMultiFileRunArgs = Some luaRunArgs, lMinTimeoutMs = 0, lMinMemoryMB = 0, lResultFormat = []\<rparr>"

definition phpSpec :: languageSpec where
  "phpSpec =
     \<lparr>lName = ''php'', lSourceFile = ''main.php'', lBinNames = [''php8.3'', ''php8.2'', ''php''],
      lRunArgs = phpDirectives @ [''-f'', ''main.php''], lEnv = determinismEnv [usual_path],
      lVersionArgs = [''-n'', ''-v''], lParseVersion = secondField,
      lMemErrSubstr = ''Allowed memory size'', lCapAddressSpace = True, lMemoryArgs = None,
      lMultiFileRunArgs = Some phpRunArgs, lMinTimeoutMs = 0, lMinMemoryMB = 0, lResultFormat = []\<rparr>"

definition sqliteSpec :: languageSpec where
  "sqliteSpec =
     \<lparr>lName = ''sql'', lSourceFile = ''main.sql'', lBinNames = [''sqlite3''],
      lRunArgs = [''-batch'', ''-init'', ''/dev/null'', ''-bail'', ''-json'',
        ''-cmd'', ''.output /dev/null'', ''-cmd'', ''.dbconfig load_extension off'', ''-cmd'', ''.output'',
        '':memory:'', ''.read main.sql''],
      lEnv = determinismEnv [usual_path],
      lVersionArgs = [''-version''], lParseVersion = firstField,
      lMemErrSubstr = ''out of memory'', lCapAddressSpace = True, lMemoryArgs = None,
      lMultiFileRunArgs = None, lMinTimeoutMs = 0, lMinMemoryMB = 0, lResultFormat = ''json-rows''\<rparr>"

definition interpreted_specs :: "languageSpec list" where
  "interpreted_specs = [pythonSpec, javascriptSpec, luaSpec, phpSpec, sqliteSpec]"

lemmas interpreted_spec_defs =
  pythonSpec_def javascriptSpec_def luaSpec_def phpSpec_def sqliteSpec_def

end
