(* ===== verification/TestMode.thy ===== *)
theory TestMode
  imports Languages Nsjail
begin

text \<open>
  \<^verbatim>\<open>internal/executor/testmode.go\<close> and \<^verbatim>\<open>tracemode.go\<close>: the closed registries of test and trace
  recipes, the classification of a finished test run, and the reading of the report that a jailed
  child left in its working directory.
\<close>

subsection \<open>Test recipes of the interpreted languages\<close>

record testCommand =
  tcArgvTail :: "bytes \<Rightarrow> bytes \<Rightarrow> bytes list"
  tcEnv :: "bytes list"
  tcReportFormat :: bytes
  tcReportFile :: bytes
  tcTestsFailedExit :: int
  tcSourceFile :: bytes

definition pythonTest :: testCommand where
  "pythonTest =
     \<lparr>tcArgvTail = (\<lambda>target reportFile.
        [''-s'', ''-P'', ''-m'', ''pytest'', ''-p'', ''no:cacheprovider'', ''--tb=short'', ''-q'',
         ''--junit-xml='' @ reportFile, target]),
      tcEnv = determinismEnv [usual_path, ''HOME=/nonexistent'', ''PYTHONUNBUFFERED=1'',
        ''PYTHONHASHSEED=0'', ''PYTHONDONTWRITEBYTECODE=1'', ''PYTEST_DISABLE_PLUGIN_AUTOLOAD=1''],
      tcReportFormat = ''junit-xml'', tcReportFile = ''report.xml'', tcTestsFailedExit = 1,
      tcSourceFile = []\<rparr>"

definition javascriptTest :: testCommand where
  "javascriptTest =
     \<lparr>tcArgvTail = (\<lambda>_ _. [''--disable-proto=throw'', ''--test'', ''--test-reporter=tap'']),
      tcEnv = determinismEnv [usual_path, ''HOME=/nonexistent''],
      tcReportFormat = ''tap13'', tcReportFile = [], tcTestsFailedExit = 1,
      tcSourceFile = ''main.test.js''\<rparr>"

definition testCommands :: "bytes \<rightharpoonup> testCommand" where
  "testCommands = [''python'' \<mapsto> pythonTest, ''javascript'' \<mapsto> javascriptTest]"

subsection \<open>Test recipes of the compiled languages\<close>

record compiledTestCommand =
  ctArgv :: "bytes list"
  ctEnv :: "bytes list"
  ctReportFormat :: bytes
  ctTestsFailedExit :: int
  ctTmpfsMB :: int
  ctBuildFailMarker :: bytes
  ctPrep :: "(os_faults \<Rightarrow> tree \<Rightarrow> mat_error + tree) option"
  ctSourceFile :: bytes
  ctReportFile :: bytes
  ctWritable :: bool
  ctCompileFailExit :: int

definition junitConsoleJar :: bytes where
  "junitConsoleJar = ''/opt/junit/junit-console.jar''"

definition shellQuote :: "bytes \<Rightarrow> bytes" where
  "shellQuote s = [CHR 0x27] @ replace_char CHR 0x27 [CHR 0x27, CHR 0x5C, CHR 0x27, CHR 0x27] s @ [CHR 0x27]"

definition goModContent :: bytes where
  "goModContent = ''module sandbox.local/submission'' @ nl @ nl @ ''go 1.23'' @ nl"

definition write_go_mod :: "os_faults \<Rightarrow> tree \<Rightarrow> mat_error + tree" where
  "write_go_mod os t = os_result ''src/go.mod'' (write_file os t [srcRootName, ''go.mod''] goModContent)"

definition javaTestCommand :: compiledTestCommand where
  "javaTestCommand =
     (let sh = ''mkdir -p /sandbox/classes /sandbox/reports && '' @
            ''javac -encoding UTF-8 -cp '' @ junitConsoleJar @
            '' -d /sandbox/classes $(find /sandbox/src -name '' @ [CHR 0x27] @ ''*.java'' @ [CHR 0x27] @
            '') || exit 42; '' @
            ''exec java -Xmx{mem}m -XX:+UseSerialGC -XX:-UsePerfData -XX:ActiveProcessorCount=1 '' @
            ''-jar '' @ junitConsoleJar @ '' execute --class-path /sandbox/classes --scan-class-path '' @
            ''--reports-dir=/sandbox/reports --disable-banner --details=none''
      in \<lparr>ctArgv = [''/bin/sh'', ''-c'', sh],
          ctEnv = determinismEnv [usual_path, ''HOME=/nonexistent''],
          ctReportFormat = ''junit-xml'', ctTestsFailedExit = 1, ctTmpfsMB = 0, ctBuildFailMarker = [],
          ctPrep = None, ctSourceFile = ''MainTest.java'',
          ctReportFile = ''reports/TEST-junit-jupiter.xml'', ctWritable = True, ctCompileFailExit = 42\<rparr>)"

definition build_fail_marker :: bytes where
  "build_fail_marker = [CHR 0x22] @ ''Action'' @ [CHR 0x22] @ '':'' @ [CHR 0x22] @ ''build-fail'' @ [CHR 0x22]"

definition goTestCommand :: compiledTestCommand where
  "goTestCommand =
     (let sh = ''cp -r /opt/gocache /tmp/gocache && cd '' @ shellQuote srcJailDir @
            '' && exec go test -trimpath -json -p 1 -count=1 ./...''
      in \<lparr>ctArgv = [''/bin/sh'', ''-c'', sh],
          ctEnv = determinismEnv [''PATH=/usr/local/go/bin:/usr/local/bin:/usr/bin:/bin'', ''TMPDIR=/tmp'',
            ''CGO_ENABLED=0'', ''GOCACHE=/tmp/gocache'', ''GOPATH=/tmp/gopath'',
            ''GOTOOLCHAIN=local'', ''GOENV=off'',
            ''GOPROXY=off'', ''GOSUMDB=off'', ''GOWORK=off'', ''GOFLAGS=-mod=readonly'', ''GOMAXPROCS=1''],
          ctReportFormat = ''go-test-json'', ctTestsFailedExit = 1, ctTmpfsMB = 256,
          ctBuildFailMarker = build_fail_marker,
          ctPrep = Some write_go_mod, ctSourceFile = ''main_test.go'',
          ctReportFile = [], ctWritable = False, ctCompileFailExit = 0\<rparr>)"

definition compiledTestCommands :: "bytes \<rightharpoonup> compiledTestCommand" where
  "compiledTestCommands = [''go'' \<mapsto> goTestCommand, ''java'' \<mapsto> javaTestCommand]"

definition supportsTestMode :: "bytes \<Rightarrow> bool" where
  "supportsTestMode lang \<longleftrightarrow> testCommands lang \<noteq> None \<or> compiledTestCommands lang \<noteq> None"

subsection \<open>Trace recipes\<close>

record traceCommand =
  trHarnessName :: bytes
  trHarness :: bytes
  trArgvTail :: "bytes list"
  trEnv :: "bytes \<Rightarrow> bytes \<Rightarrow> bytes \<Rightarrow> int \<Rightarrow> int \<Rightarrow> bytes list"
  trTraceFormat :: bytes
  trReportFile :: bytes
  trTracerBin :: "bytes list"
  trCompileExtra :: "bytes list"
  trEntrySymbol :: bytes

definition traceStdoutFile :: bytes where "traceStdoutFile = ''_dalivim_stdout.txt''"
definition traceStderrFile :: bytes where "traceStderrFile = ''_dalivim_stderr.txt''"

definition isCompiledTrace :: "traceCommand \<Rightarrow> bool" where
  "isCompiledTrace t \<longleftrightarrow> trTracerBin t \<noteq> []"

definition pythonTrace :: "(bytes \<Rightarrow> bytes) \<Rightarrow> traceCommand" where
  "pythonTrace emb =
     \<lparr>trHarnessName = ''_dalivim_trace.py'', trHarness = emb ''trace_harness.py'',
      trArgvTail = [''-s'', ''-P'', ''_dalivim_trace.py''],
      trEnv = (\<lambda>target root reportFile maxSteps maxBytes. determinismEnv
        [usual_path, ''HOME=/nonexistent'', ''PYTHONUNBUFFERED=1'', ''PYTHONHASHSEED=0'',
         ''PYTHONDONTWRITEBYTECODE=1'', ''DALIVIM_TRACE_TARGET='' @ target,
         ''DALIVIM_TRACE_ROOT='' @ root, ''DALIVIM_TRACE_REPORT='' @ reportFile,
         ''DALIVIM_TRACE_MAX_STEPS='' @ itoa maxSteps,
         ''DALIVIM_TRACE_MAX_REPORT_BYTES='' @ itoa maxBytes]),
      trTraceFormat = ''dalivim-trace-json@1'', trReportFile = ''trace.json'',
      trTracerBin = [], trCompileExtra = [], trEntrySymbol = []\<rparr>"

definition odinTrace :: "(bytes \<Rightarrow> bytes) \<Rightarrow> traceCommand" where
  "odinTrace emb =
     \<lparr>trHarnessName = ''_dalivim_trace_gdb.py'', trHarness = emb ''trace_driver_gdb.py'',
      trArgvTail = [''--batch'', ''-nx'', ''--quiet'', ''-x'', ''_dalivim_trace_gdb.py'', ''./bin''],
      trEnv = (\<lambda>target root reportFile maxSteps maxBytes. determinismEnv
        [usual_path, ''HOME=/nonexistent'', ''TMPDIR=/tmp'', ''PYTHONDONTWRITEBYTECODE=1'',
         ''DALIVIM_TRACE_LANGUAGE=odin'', ''DALIVIM_TRACE_TARGET='' @ target,
         ''DALIVIM_TRACE_ENTRY=main::main'', ''DALIVIM_TRACE_REPORT='' @ reportFile,
         ''DALIVIM_TRACE_STDOUT='' @ traceStdoutFile, ''DALIVIM_TRACE_STDERR='' @ traceStderrFile,
         ''DALIVIM_TRACE_MAX_STEPS='' @ itoa maxSteps,
         ''DALIVIM_TRACE_MAX_REPORT_BYTES='' @ itoa maxBytes]),
      trTraceFormat = ''dalivim-trace-json@2'', trReportFile = ''trace.json'',
      trTracerBin = [''gdb''], trCompileExtra = [''-debug''], trEntrySymbol = ''main::main''\<rparr>"

text \<open>The two harness programs are files embedded at build time; \<open>emb\<close> is their text.\<close>

definition traceCommands :: "(bytes \<Rightarrow> bytes) \<Rightarrow> bytes \<rightharpoonup> traceCommand" where
  "traceCommands emb = [''python'' \<mapsto> pythonTrace emb, ''odin'' \<mapsto> odinTrace emb]"

definition supportsTraceMode :: "bytes \<Rightarrow> bool" where
  "supportsTraceMode lang \<longleftrightarrow> traceCommands (\<lambda>_. []) lang \<noteq> None"

lemma supportsTraceMode_embed: "supportsTraceMode lang \<longleftrightarrow> traceCommands emb lang \<noteq> None"
  by (simp add: supportsTraceMode_def traceCommands_def)

subsection \<open>Classifying a test run\<close>

definition classifyTestExit :: "int \<Rightarrow> int \<Rightarrow> bool \<Rightarrow> bytes" where
  "classifyTestExit exitCode testsFailedExit reportProduced =
     (if exitCode = 0 \<and> reportProduced then StatusSuccess
      else if exitCode = testsFailedExit \<and> reportProduced then StatusTestsFailed
      else [])"

subsection \<open>Reading a report back\<close>

text \<open>
  A report is read through \<^verbatim>\<open>os.Root\<close> after the child is gone. The tree is what that root resolves
  below the working directory: a final symlink or special file is \<open>OtherN\<close> and is not followed.
\<close>

definition readTestReport ::
  "os_faults \<Rightarrow> tree \<Rightarrow> bytes \<Rightarrow> bytes \<Rightarrow> int \<Rightarrow> bytes \<times> bool \<times> bool" where
  "readTestReport os work reportFile stdout maxBytes =
     (if reportFile = [] then
        (if maxBytes > 0 \<and> len stdout > maxBytes then (take (nat maxBytes) stdout, True, True)
         else (stdout, stdout \<noteq> [], False))
      else if root_fault os then ([], False, False)
      else
        (case work (comps_of reportFile) of
           Some (Reg _ content) \<Rightarrow>
             (if read_fault os reportFile then ([], False, False)
              else
                let b = (if maxBytes > 0 then take (nat (i64 (maxBytes + 1))) content else content) in
                if b = [] then ([], False, False)
                else if maxBytes > 0 \<and> len b > maxBytes then (take (nat maxBytes) b, True, True)
                else (b, True, False))
         | _ \<Rightarrow> ([], False, False)))"

text \<open>A file-backed report is bounded and comes from nowhere else: it is the capped content of the regular
  file at the report's own path in the working directory (a symlink, a special file, a directory or
  nothing there gives no report), it never exceeds the cap, it is flagged as cut exactly when the
  file is longer than the cap, and it counts as produced exactly when it is not empty.\<close>
theorem readTestReport_bounded:
  assumes "reportFile \<noteq> []" and "fits64 (cap + 1)"
    and "readTestReport os work reportFile stdout cap = (report, produced, clipped)"
  shows "(produced \<longleftrightarrow> report \<noteq> []) \<and> (cap > 0 \<longrightarrow> len report \<le> cap) \<and>
    (produced \<longrightarrow> (\<exists>uid content. work (comps_of reportFile) = Some (Reg uid content) \<and>
        report = (if cap > 0 then take (nat cap) content else content) \<and>
        (clipped \<longleftrightarrow> cap > 0 \<and> len content > cap))) \<and>
    (\<not> produced \<longrightarrow> \<not> clipped)"
proof (cases "\<not> root_fault os \<and> \<not> read_fault os reportFile \<and> (\<exists>uid content. work (comps_of reportFile) = Some (Reg uid content))")
  case True
  then obtain uid content where w: "work (comps_of reportFile) = Some (Reg uid content)" by blast
  have n: "nat (cap + 1) = Suc (nat cap)" if "cap > 0" using that by simp
  have t: "take (nat cap) (take (Suc (nat cap)) content) = take (nat cap) content"
    by (simp add: min_def)
  show ?thesis
    using assms True w n t by (auto simp: readTestReport_def Let_def len_def split: if_splits)
next
  case False
  then have "report = [] \<and> \<not> produced \<and> \<not> clipped"
    using assms(1,3) by (auto simp: readTestReport_def split: if_splits option.splits node.splits)
  then show ?thesis by simp
qed

theorem readTestReport_bounded_witness:
  "readTestReport demo_os [[''report.xml''] \<mapsto> Reg 1000 ''<testsuite/>''] ''report.xml'' [] 5 = (''<test'', True, True) \<and>
   len ''<test'' \<le> 5"
proof -
  have r: "readTestReport demo_os [[''report.xml''] \<mapsto> Reg 1000 ''<testsuite/>''] ''report.xml'' [] 5 =
      (''<test'', True, True)"
    by (simp add: readTestReport_def demo_os_def comps_of_def fits64_def)
  from readTestReport_bounded [OF _ _ r] r show ?thesis by (simp add: fits64_def)
qed

end
