(* ===== verification/Batch.thy ===== *)
theory Batch
  imports Prelude
begin

text \<open>
  \<^verbatim>\<open>internal/executor/batch.go\<close>: one execution per input, in order, stopped early by the batch's
  wall budget or by the end of the caller's context. The clock, the context and the execution are
  parameters over the state they share.
\<close>

definition ms_ns :: "int \<Rightarrow> int" where
  "ms_ns ms = i64 (ms * 1000000)"

definition over_budget :: "('s \<Rightarrow> int \<times> 's) \<Rightarrow> int \<Rightarrow> int \<Rightarrow> 's \<Rightarrow> bool \<times> 's" where
  "over_budget now start totalBudgetMs s =
     (if totalBudgetMs > 0 then (case now s of (t, s1) \<Rightarrow> (i64 (t - start) \<ge> ms_ns totalBudgetMs, s1))
      else (False, s))"

fun batchLoop ::
  "('s \<Rightarrow> int \<times> 's) \<Rightarrow> ('s \<Rightarrow> bool) \<Rightarrow> int \<Rightarrow> int \<Rightarrow> (bytes \<Rightarrow> 's \<Rightarrow> 'r \<times> 's) \<Rightarrow>
     bytes list \<Rightarrow> 's \<Rightarrow> 'r list \<times> bool \<times> 's" where
  "batchLoop now gone start totalBudgetMs run [] s = ([], False, s)"
| "batchLoop now gone start totalBudgetMs run (x # xs) s =
     (case over_budget now start totalBudgetMs s of (over, s1) \<Rightarrow>
        if over then ([], True, s1)
        else if gone s1 then ([], True, s1)
        else (case run x s1 of (r, s2) \<Rightarrow>
                (case batchLoop now gone start totalBudgetMs run xs s2 of
                   (rs, aborted, s3) \<Rightarrow> (r # rs, aborted, s3))))"

lemma batchLoop_step:
  assumes "batchLoop now gone start budget run (x # xs) s = (rs, aborted, s')"
  obtains (stop) over s1 where "over_budget now start budget s = (over, s1)" "over \<or> gone s1"
      "rs = []" "aborted" "s' = s1"
    | (go) s1 r s2 rs' where "over_budget now start budget s = (False, s1)" "\<not> gone s1"
      "run x s1 = (r, s2)" "batchLoop now gone start budget run xs s2 = (rs', aborted, s')" "rs = r # rs'"
proof (cases "over_budget now start budget s")
  case (Pair over s1)
  show ?thesis
  proof (cases "over \<or> gone s1")
    case True
    with assms Pair show ?thesis by (intro stop [of over s1]) (auto split: if_splits)
  next
    case False
    obtain r s2 where r: "run x s1 = (r, s2)" by fastforce
    with assms Pair False go [of s1 r s2] show ?thesis by (auto split: prod.splits)
  qed
qed

lemma batchLoop_length:
  "batchLoop now gone start budget run xs s = (rs, aborted, s') \<Longrightarrow>
     length rs \<le> length xs \<and> (aborted \<longleftrightarrow> length rs < length xs)"
proof (induction xs arbitrary: s rs)
  case (Cons x xs)
  from Cons.prems show ?case by (rule batchLoop_step) (use Cons.IH in auto)
qed simp

lemma batchLoop_all:
  assumes "\<And>x s. Q (fst (run x s))"
  shows "batchLoop now gone start budget run xs s = (rs, aborted, s') \<Longrightarrow> \<forall>r\<in>set rs. Q r"
proof (induction xs arbitrary: s rs)
  case (Cons x xs)
  from Cons.prems show ?case
  proof (rule batchLoop_step)
    fix s1 r s2 rs' assume "run x s1 = (r, s2)" "rs = r # rs'"
      "batchLoop now gone start budget run xs s2 = (rs', aborted, s')"
    with Cons.IH assms [of x s1] show ?thesis by auto
  qed simp
qed simp

text \<open>An invariant of the shared state that the clock and the execution preserve holds throughout.\<close>

lemma batchLoop_invariant:
  assumes now: "\<And>s t s'. I s \<Longrightarrow> now s = (t, s') \<Longrightarrow> I s'"
    and run: "\<And>x s r s'. I s \<Longrightarrow> run x s = (r, s') \<Longrightarrow> I s'"
  shows "batchLoop now gone start budget run xs s = (rs, aborted, s') \<Longrightarrow> I s \<Longrightarrow> I s'"
proof (induction xs arbitrary: s rs)
  case (Cons x xs)
  have I1: "I s1" if "over_budget now start budget s = (b, s1)" for b s1
    using that now Cons.prems(2) by (auto simp: over_budget_def split: if_splits prod.splits)
  from Cons.prems(1) show ?case
    by (rule batchLoop_step) (use I1 run Cons.IH in blast)+
qed simp

text \<open>C22: A batch is index-aligned, sequential and budgeted. There are at most as many results as inputs, and
  fewer exactly when the batch was aborted; the \<open>i\<close>-th result is that of an execution of the \<open>i\<close>-th
  input, started in the state its predecessors left; and when there is a wall budget, every execution
  that was started was started before the budget had elapsed, and after the caller was known to be
  still there.\<close>
theorem batchLoop_aligned:
  assumes "batchLoop now gone start budget run xs s = (rs, aborted, s')"
  shows "length rs \<le> length xs \<and> (aborted \<longleftrightarrow> length rs < length xs) \<and>
    (\<exists>ss. length ss = Suc (length rs) \<and> hd ss = s \<and>
       (\<forall>i<length rs. \<exists>s1. over_budget now start budget (ss ! i) = (False, s1) \<and> \<not> gone s1 \<and>
          run (xs ! i) s1 = (rs ! i, ss ! Suc i)))"
proof -
  have "\<exists>ss. length ss = Suc (length rs) \<and> hd ss = s \<and>
      (\<forall>i<length rs. \<exists>s1. over_budget now start budget (ss ! i) = (False, s1) \<and> \<not> gone s1 \<and>
         run (xs ! i) s1 = (rs ! i, ss ! Suc i))"
    using assms
  proof (induction xs arbitrary: s rs)
    case Nil
    then show ?case by (intro exI [of _ "[s]"]) simp
  next
    case (Cons x xs)
    from Cons.prems show ?case
    proof (rule batchLoop_step)
      assume "rs = []"
      then show ?thesis by (intro exI [of _ "[s]"]) simp
    next
      fix s1 r s2 rs'
      assume 1: "over_budget now start budget s = (False, s1)" "\<not> gone s1" "run x s1 = (r, s2)"
        and rs: "batchLoop now gone start budget run xs s2 = (rs', aborted, s')" "rs = r # rs'"
      from Cons.IH [OF rs(1)] obtain ss where ss: "length ss = Suc (length rs')" "hd ss = s2"
        "\<forall>i<length rs'. \<exists>s1. over_budget now start budget (ss ! i) = (False, s1) \<and> \<not> gone s1 \<and>
           run (xs ! i) s1 = (rs' ! i, ss ! Suc i)" by blast
      have 0: "ss ! 0 = s2" using ss(1,2) by (cases ss) auto
      have "\<exists>s1. over_budget now start budget ((s # ss) ! i) = (False, s1) \<and> \<not> gone s1 \<and>
          run ((x # xs) ! i) s1 = (rs ! i, (s # ss) ! Suc i)" if "i < length rs" for i
        using that ss(3) 0 1 rs(2) by (cases i) auto
      with ss(1) rs(2) show ?thesis by (intro exI [of _ "s # ss"]) simp
    qed
  qed
  with batchLoop_length [OF assms] show ?thesis by blast
qed

text \<open>A clock that advances by a millisecond at every reading, and runs that take two.\<close>

theorem batchLoop_aligned_witness:
  "\<exists>rs s'. batchLoop (\<lambda>s. (s, s + 1000000)) (\<lambda>_. False) (0::int) 4 (\<lambda>x s. (length x, s + 2000000))
      [''a'', ''bb'', ''ccc''] 0 = (rs, True, s') \<and> length rs < 3"
proof -
  have b: "batchLoop (\<lambda>s. (s, s + 1000000)) (\<lambda>_. False) (0::int) 4 (\<lambda>x s. (length x, s + 2000000))
      [''a'', ''bb'', ''ccc''] 0 = ([1, 2], True, 7000000)"
    by (simp add: over_budget_def ms_ns_def fits64_def)
  from batchLoop_aligned [OF b] b show ?thesis by simp
qed

end
