(* ===== verification/CompiledSpecs.thy ===== *)
theory CompiledSpecs
  imports TestMode
begin

text \<open>
  The registry of the compiled languages (the \<open>compiledLangSpec\<close> values of
  \<^verbatim>\<open>internal/executor/compiled.go\<close>) and the multi-file recipes of \<^verbatim>\<open>compiled_multifile.go\<close>.
\<close>

subsection \<open>Placeholders\<close>

definition subst :: "bytes list \<Rightarrow> (bytes \<times> bytes) list \<Rightarrow> bytes list" where
  "subst argv pairs = map (replacer pairs) argv"

definition memHex :: "int \<Rightarrow> bytes" where
  "memHex mb = (if mb \<le> 0 then [] else ''0x'' @ format_hex (i64 (mb * 2 ^ 20)))"

definition defaultArtifact :: bytes where
  "defaultArtifact = ''bin''"

subsection \<open>Multi-file recipes\<close>

record multiFileBuild =
  mfPrep :: "(os_faults \<Rightarrow> tree \<Rightarrow> mat_error + tree) option"
  mfCompileArgv :: "MaterializedFile list \<Rightarrow> bytes \<Rightarrow> bytes list"
  mfArtifactRel :: "bytes \<Rightarrow> bytes"
  mfRunTemplate :: "bytes \<Rightarrow> bytes list"

definition compileUnits :: "MaterializedFile list \<Rightarrow> bytes \<Rightarrow> bytes list" where
  "compileUnits files language =
     (let units = (case filePolicies language of None \<Rightarrow> {} | Some p \<Rightarrow> CompileExts p)
      in sort (map (\<lambda>f. jailSrc (MPath f))
           (filter (\<lambda>f. to_lower (path_Ext (MPath f)) \<in> units) files)))"

definition cFamilyMultiFile :: "bytes list \<Rightarrow> bytes list \<Rightarrow> bytes \<Rightarrow> multiFileBuild" where
  "cFamilyMultiFile compileTmpl link language =
     \<lparr>mfPrep = None,
      mfCompileArgv = (\<lambda>files _.
        subst (filter (\<lambda>tok. tok \<noteq> ''{src}'') compileTmpl)
          [(''{out}'', JailPath defaultArtifact), (''{dir}'', JailMount)] @
        [''-I'' @ srcJailDir] @ compileUnits files language @ link),
      mfArtifactRel = (\<lambda>_. defaultArtifact),
      mfRunTemplate = (\<lambda>_. [JailPath defaultArtifact])\<rparr>"

definition goMultiFile :: multiFileBuild where
  "goMultiFile =
     \<lparr>mfPrep = Some write_go_mod,
      mfCompileArgv = (\<lambda>_ entry.
        let d = path_Dir entry;
            pkgDir = (if d \<noteq> ''.'' then srcJailDir @ ''/'' @ d else srcJailDir);
            sh = ''cp -r /opt/gocache /tmp/gocache && cd '' @ shellQuote pkgDir @
              '' && exec go build -trimpath -o '' @ JailPath defaultArtifact @ '' .''
        in [''/bin/sh'', ''-c'', sh]),
      mfArtifactRel = (\<lambda>_. defaultArtifact),
      mfRunTemplate = (\<lambda>_. [JailPath defaultArtifact])\<rparr>"

definition javaClassesDir :: bytes where
  "javaClassesDir = ''classes''"

definition java_prep :: "os_faults \<Rightarrow> tree \<Rightarrow> mat_error + tree" where
  "java_prep os t = os_result javaClassesDir (mkdir_all os t [] [javaClassesDir])"

definition javaArtifactRel :: "bytes \<Rightarrow> bytes" where
  "javaArtifactRel entry =
     path_Join javaClassesDir (replace_char CHR ''.'' ''/'' entry @ ''.class'')"

definition java_flags :: "bytes list" where
  "java_flags = [''-XX:+UseSerialGC'', ''-XX:-UsePerfData'', ''-XX:ActiveProcessorCount=1'', ''-Xmx{mem}m'']"

definition javaMultiFile :: multiFileBuild where
  "javaMultiFile =
     \<lparr>mfPrep = Some java_prep,
      mfCompileArgv = (\<lambda>files _.
        [''javac'', ''-encoding'', ''UTF-8'', ''-d'', JailPath javaClassesDir] @ compileUnits files ''java''),
      mfArtifactRel = javaArtifactRel,
      mfRunTemplate = (\<lambda>entry. java_flags @ [''-cp'', JailPath javaClassesDir, entry])\<rparr>"

subsection \<open>Version banners\<close>

definition is_digit :: "char \<Rightarrow> bool" where
  "is_digit c \<longleftrightarrow> CHR ''0'' \<le> c \<and> c \<le> CHR ''9''"

definition parseGoVersion :: "bytes \<Rightarrow> bytes" where
  "parseGoVersion out =
     (case filter (\<lambda>f. prefix ''go'' f \<and> drop 2 f \<noteq> [] \<and> is_digit (hd (drop 2 f))) (str_fields out) of
        f # _ \<Rightarrow> drop 2 f
      | [] \<Rightarrow> trim_space out)"

definition parseJavaVersion :: "bytes \<Rightarrow> bytes" where
  "parseJavaVersion out =
     (case filter (\<lambda>f. f \<noteq> [] \<and> is_digit (hd f) \<and> contains_str f ''.'') (str_fields out) of
        f # _ \<Rightarrow> f
      | [] \<Rightarrow> trim_space out)"

fun after_version :: "bytes list \<Rightarrow> bytes option" where
  "after_version (f # g # fs) = (if f = ''version'' then Some g else after_version (g # fs))"
| "after_version _ = None"

definition parseOdinVersion :: "bytes \<Rightarrow> bytes" where
  "parseOdinVersion out =
     (let fs = str_fields out in
      case after_version fs of
        Some v \<Rightarrow> v
      | None \<Rightarrow> if fs = [] then [] else last fs)"

subsection \<open>The languages\<close>

record compiledLangSpec =
  cName :: bytes
  cSourceFile :: bytes
  cCompile :: "bytes list"
  cLink :: "bytes list"
  cRun :: "bytes list"
  cBinNames :: "bytes list"
  cCompileEnv :: "bytes list"
  cRunEnv :: "bytes list"
  cCapAddressSpace :: bool
  cUnlimitedAddressSpace :: bool
  cMaxOpenFiles :: int
  cStaticAllowlistOK :: bool
  cVersionArgs :: "bytes list"
  cParseVersion :: "bytes \<Rightarrow> bytes"
  cCompileTmpfsMB :: int
  cCompileArgv0Absolute :: bool
  cArtifact :: bytes
  cRunBin :: "bytes list"
  cRunFullRootfs :: bool
  cMemErrSubstr :: bytes
  cMultiFile :: "multiFileBuild option"
  cMultiFileCompileEnv :: "bytes list"
  cMinTimeoutMs :: int
  cMinMemoryMB :: int

definition zero_cspec :: compiledLangSpec where
  "zero_cspec =
     \<lparr>cName = [], cSourceFile = [], cCompile = [], cLink = [], cRun = [], cBinNames = [],
      cCompileEnv = [], cRunEnv = [], cCapAddressSpace = False, cUnlimitedAddressSpace = False,
      cMaxOpenFiles = 0, cStaticAllowlistOK = False, cVersionArgs = [], cParseVersion = trim_space,
      cCompileTmpfsMB = 0, cCompileArgv0Absolute = False, cArtifact = [], cRunBin = [],
      cRunFullRootfs = False, cMemErrSubstr = [], cMultiFile = None, cMultiFileCompileEnv = [],
      cMinTimeoutMs = 0, cMinMemoryMB = 0\<rparr>"

definition c_compile :: "bytes list" where
  "c_compile = [''gcc'', ''-O2'', ''-static'', ''-o'', ''{out}'', ''{src}'']"

definition cSpec :: compiledLangSpec where
  "cSpec = zero_cspec
     \<lparr>cName := ''c'', cSourceFile := ''main.c'', cCompile := c_compile, cLink := [''-lm''],
      cRun := [''{out}''], cBinNames := [''gcc'', ''cc''],
      cRunEnv := determinismEnv [''GLIBC_TUNABLES=glibc.pthread.rseq=0''],
      cCapAddressSpace := True, cStaticAllowlistOK := True,
      cVersionArgs := [''-dumpfullversion''], cParseVersion := trim_space,
      cMultiFile := Some (cFamilyMultiFile c_compile [''-lm''] ''c'')\<rparr>"

definition cpp_compile :: "bytes list" where
  "cpp_compile = [''g++'', ''-O2'', ''-static'', ''-std=c++20'', ''-o'', ''{out}'', ''{src}'']"

definition cppSpec :: compiledLangSpec where
  "cppSpec = zero_cspec
     \<lparr>cName := ''cpp'', cSourceFile := ''main.cpp'', cCompile := cpp_compile,
      cRun := [''{out}''], cBinNames := [''g++''],
      cRunEnv := determinismEnv [''GLIBC_TUNABLES=glibc.pthread.rseq=0''],
      cCapAddressSpace := True, cStaticAllowlistOK := True,
      cVersionArgs := [''-dumpfullversion''], cParseVersion := trim_space,
      cMultiFile := Some (cFamilyMultiFile cpp_compile [] ''cpp'')\<rparr>"

definition goSpec :: compiledLangSpec where
  "goSpec = zero_cspec
     \<lparr>cName := ''go'', cSourceFile := ''main.go'',
      cCompile := [''/bin/sh'', ''-c'',
        ''cp -r /opt/gocache /tmp/gocache && exec go build -trimpath -o {out} {src}''],
      cRun := [''{out}''], cBinNames := [''go''],
      cCompileEnv := [''CGO_ENABLED=0'', ''GOCACHE=/tmp/gocache'', ''GOPATH=/tmp/gopath'',
        ''GOTOOLCHAIN=local'', ''GOENV=off''],
      cCompileArgv0Absolute := True, cRunEnv := determinismEnv [''GOMAXPROCS=1''],
      cCapAddressSpace := False, cStaticAllowlistOK := False,
      cVersionArgs := [''version''], cParseVersion := parseGoVersion, cCompileTmpfsMB := 256,
      cMultiFile := Some goMultiFile,
      cMultiFileCompileEnv := [''GOPROXY=off'', ''GOSUMDB=off'', ''GOWORK=off'', ''GOFLAGS=-mod=mod'']\<rparr>"

definition rustSpec :: compiledLangSpec where
  "rustSpec = zero_cspec
     \<lparr>cName := ''rust'', cSourceFile := ''main.rs'',
      cCompile := [''rustc'', ''--edition'', ''2021'', ''-O'', ''--target'', ''x86_64-unknown-linux-musl'',
        ''-o'', ''{out}'', ''{src}''],
      cRun := [''{out}''], cBinNames := [''rustc''], cRunEnv := determinismEnv [],
      cCapAddressSpace := True, cStaticAllowlistOK := False, cMemErrSubstr := ''memory allocation of'',
      cVersionArgs := [''--version''], cParseVersion := secondField, cCompileTmpfsMB := 128\<rparr>"

definition odinSpec :: compiledLangSpec where
  "odinSpec = zero_cspec
     \<lparr>cName := ''odin'', cSourceFile := ''main.odin'',
      cCompile := [''odin'', ''build'', ''{src}'', ''-file'', ''-out:{out}''],
      cRun := [''{out}''], cBinNames := [''odin''], cRunEnv := determinismEnv [],
      cRunFullRootfs := True, cCapAddressSpace := False, cMaxOpenFiles := 1024,
      cStaticAllowlistOK := False, cVersionArgs := [''version''], cParseVersion := parseOdinVersion,
      cCompileTmpfsMB := 128\<rparr>"

definition javaSpec :: compiledLangSpec where
  "javaSpec = zero_cspec
     \<lparr>cName := ''java'', cSourceFile := ''Main.java'', cArtifact := ''Main.class'',
      cCompile := [''javac'', ''-d'', ''{dir}'', ''{src}''], cBinNames := [''javac''],
      cRun := java_flags @ [''-cp'', ''{dir}'', ''Main''], cRunBin := [''java''],
      cRunEnv := determinismEnv [], cRunFullRootfs := True, cCapAddressSpace := False,
      cStaticAllowlistOK := False, cMemErrSubstr := ''OutOfMemoryError'',
      cVersionArgs := [''-version''], cParseVersion := parseJavaVersion,
      cMinMemoryMB := 128, cMinTimeoutMs := 2000, cMultiFile := Some javaMultiFile\<rparr>"

definition typescriptSpec :: compiledLangSpec where
  "typescriptSpec = zero_cspec
     \<lparr>cName := ''typescript'', cSourceFile := ''main.ts'',
      cCompile := [''node'', ''/opt/typescript/bin/tsc'',
        ''--strict'', ''--noEmitOnError'', ''--skipLibCheck'', ''--esModuleInterop'',
        ''--target'', ''ES2020'', ''--module'', ''commonjs'', ''--lib'', ''ES2020'',
        ''--types'', ''node'', ''--typeRoots'', ''/opt/ts-types'', ''--outDir'', ''{dir}'', ''{src}''],
      cBinNames := [''node'', ''nodejs''], cArtifact := ''main.js'',
      cRun := [''--disable-proto=throw'', ''--max-old-space-size={mem}'', ''{out}''],
      cRunBin := [''node'', ''nodejs''], cRunEnv := determinismEnv [usual_path],
      cRunFullRootfs := True, cCapAddressSpace := False, cStaticAllowlistOK := False,
      cVersionArgs := [''/opt/typescript/bin/tsc'', ''--version''], cParseVersion := secondField\<rparr>"

definition csharpSpec :: compiledLangSpec where
  "csharpSpec = zero_cspec
     \<lparr>cName := ''csharp'', cSourceFile := ''Main.cs'',
      cCompile := [''/bin/sh'', ''-c'',
        ''/opt/dotnet/dotnet exec $(echo /opt/dotnet/sdk/*/Roslyn/bincore/csc.dll) -nologo -optimize+ -nostdlib @/opt/cs/refs.rsp -out:{out} {src} && cp /opt/cs/Main.runtimeconfig.json {dir}/Main.runtimeconfig.json''],
      cCompileArgv0Absolute := True, cArtifact := ''Main.dll'',
      cRun := [''exec'', ''{out}''], cRunBin := [''dotnet''], cBinNames := [''dotnet''],
      cCompileEnv := [''DOTNET_ROOT=/opt/dotnet'', ''HOME=/tmp'', ''DOTNET_CLI_HOME=/tmp'',
        ''DOTNET_CLI_TELEMETRY_OPTOUT=1'', ''DOTNET_NOLOGO=1'', ''DOTNET_EnableDiagnostics=0'',
        ''DOTNET_EnableWriteXorExecute=0'', ''DOTNET_SYSTEM_GLOBALIZATION_INVARIANT=1'',
        ''DOTNET_gcServer=0'', ''DOTNET_GCHeapHardLimit=0x18000000''],
      cRunEnv := determinismEnv [usual_path, ''DOTNET_ROOT=/opt/dotnet'',
        ''HOME=/tmp'', ''TMPDIR=/tmp'', ''DOTNET_CLI_TELEMETRY_OPTOUT=1'', ''DOTNET_NOLOGO=1'',
        ''DOTNET_EnableDiagnostics=0'', ''DOTNET_EnableWriteXorExecute=0'',
        ''DOTNET_SYSTEM_GLOBALIZATION_INVARIANT=1'', ''DOTNET_gcServer=0'',
        ''DOTNET_GCHeapHardLimit={memhex}''],
      cRunFullRootfs := True, cCapAddressSpace := False, cUnlimitedAddressSpace := True,
      cMaxOpenFiles := 1024, cStaticAllowlistOK := False, cMemErrSubstr := ''Out of memory'',
      cMinMemoryMB := 128, cVersionArgs := [''--version''], cParseVersion := trim_space,
      cCompileTmpfsMB := 64\<rparr>"

definition compiled_specs :: "compiledLangSpec list" where
  "compiled_specs = [cSpec, cppSpec, goSpec, rustSpec, odinSpec, javaSpec, typescriptSpec, csharpSpec]"

lemmas compiled_spec_defs =
  cSpec_def cppSpec_def goSpec_def rustSpec_def odinSpec_def javaSpec_def typescriptSpec_def
  csharpSpec_def zero_cspec_def

end
