(* ===== verification/RunCore.thy ===== *)
theory RunCore
  imports Sandbox TestMode Encoding Batch
begin

text \<open>
  What the two runtimes share (\<^verbatim>\<open>interpreted.go\<close> and \<^verbatim>\<open>compiled.go\<close> repeat it): the state of the
  process while one request is served, launching a command, and the verdict on a finished run. The
  state is the outside world, the sandbox backend, the request's working directory, and, for the
  theorems only, the list of the commands launched so far.
\<close>

record 'w world =
  Ext :: 'w
  Sb :: sandbox
  Work :: tree
  Launched :: "os_cmd list"

definition clock :: "'w host \<Rightarrow> 'w world \<Rightarrow> int \<times> 'w world" where
  "clock h w = (case now_ns h (Ext w) of (t, e) \<Rightarrow> (t, w\<lparr>Ext := e\<rparr>))"

definition gone :: "'w host \<Rightarrow> 'w world \<Rightarrow> bool" where
  "gone h w = ctx_done h (Ext w)"

definition MkdirTemp :: "'w host \<Rightarrow> bytes \<Rightarrow> 'w world \<Rightarrow> bytes option \<times> 'w world" where
  "MkdirTemp h pattern w =
     (case mkdir_temp h [] pattern (Ext w) of
        (None, e) \<Rightarrow> (None, w\<lparr>Ext := e\<rparr>)
      | (Some dir, e) \<Rightarrow> (Some dir, w\<lparr>Ext := e, Work := fresh_dir\<rparr>))"

definition WriteFile :: "'w host \<Rightarrow> bytes list \<Rightarrow> bytes \<Rightarrow> 'w world \<Rightarrow> 'w world option" where
  "WriteFile h q content w =
     map_option (\<lambda>t. w\<lparr>Work := t\<rparr>) (write_file (faults h (Ext w)) (Work w) q content)"

definition RemoveAll :: "'w world \<Rightarrow> 'w world" where
  "RemoveAll w = w\<lparr>Work := Map.empty\<rparr>"

definition Command ::
  "'w host \<Rightarrow> Spec \<Rightarrow> 'w world \<Rightarrow> (os_cmd \<times> runCgroup option) option \<times> 'w world" where
  "Command h spec w =
     (case sb_Command h (Sb w) spec (Ext w) of (sb, e, r) \<Rightarrow> (r, w\<lparr>Sb := sb, Ext := e\<rparr>))"

text \<open>\<open>cmd.Run\<close>: the child's events are delivered to the run's buffers and context.\<close>

definition cmd_Run :: "'w host \<Rightarrow> os_cmd \<Rightarrow> 'w world \<Rightarrow> child \<times> 'w world" where
  "cmd_Run h cmd w =
     (case spawn h cmd (Work w) (Ext w) of (ch, t, e) \<Rightarrow>
        (ch, w\<lparr>Ext := e, Work := t, Launched := Launched w @ [cmd]\<rparr>))"

definition acct_Close :: "'w host \<Rightarrow> runCgroup option \<Rightarrow> 'w world \<Rightarrow> 'w world" where
  "acct_Close h acct w =
     (case acct of None \<Rightarrow> w | Some rc \<Rightarrow> w\<lparr>Ext := snd (cg_Close h rc (Ext w))\<rparr>)"

definition acct_OOMKilled :: "'w host \<Rightarrow> runCgroup option \<Rightarrow> 'w world \<Rightarrow> bool" where
  "acct_OOMKilled h acct w = (case acct of None \<Rightarrow> False | Some rc \<Rightarrow> OOMKilled h rc (Ext w))"

definition memoryKB :: "'w host \<Rightarrow> runCgroup option \<Rightarrow> child \<Rightarrow> 'w world \<Rightarrow> int" where
  "memoryKB h acct ch w =
     (case acct of
        None \<Rightarrow> MaxRSSkb (PState ch)
      | Some rc \<Rightarrow> (let peak = PeakMemoryKB h rc (Ext w) in
                   if peak > 0 then peak else MaxRSSkb (PState ch)))"

definition ms_since :: "int \<Rightarrow> int \<Rightarrow> int" where
  "ms_since start t = go_quot (i64 (t - start)) 1000000"

definition child_exit :: "child \<Rightarrow> int" where
  "child_exit ch = (case PState ch of None \<Rightarrow> 0 | Some p \<Rightarrow> PExit p)"

definition internal_result :: "bytes \<Rightarrow> RunResult" where
  "internal_result msg = zero_result\<lparr>Status := StatusInternalError, Stderr := msg\<rparr>"

definition internal_batch :: BatchResult where
  "internal_batch = zero_batch\<lparr>BatchStatus := StatusInternalError\<rparr>"

subsection \<open>The verdict on a run\<close>

text \<open>
  The \<open>switch\<close> that ends \<open>execute\<close> in both files. The arguments are what it consults: the
  cancellation cause, \<^verbatim>\<open>runErr != nil\<close>, the cgroup's OOM event, and the marker in the stderr text.
\<close>

definition run_status :: "cancel_cause option \<Rightarrow> bool \<Rightarrow> bool \<Rightarrow> bool \<Rightarrow> bytes" where
  "run_status cause runErr oom marker =
     (if cause = Some CauseDeadline then StatusTimeout
      else if \<not> runErr then StatusSuccess
      else if oom then StatusMemoryExceeded
      else if marker then StatusMemoryExceeded
      else if cause = Some CauseOutputLimit then StatusOutputLimitExceeded
      else StatusRuntimeError)"

definition mem_marker :: "bytes \<Rightarrow> bytes \<Rightarrow> bool" where
  "mem_marker sub stderr \<longleftrightarrow> sub \<noteq> [] \<and> contains_str stderr sub"

definition test_status ::
  "cancel_cause option \<Rightarrow> bool \<Rightarrow> bool \<Rightarrow> int \<Rightarrow> int \<Rightarrow> bool \<Rightarrow> bytes" where
  "test_status cause oom compileFailed exitCode testsFailedExit produced =
     (if cause = Some CauseDeadline then StatusTimeout
      else if oom then StatusMemoryExceeded
      else if cause = Some CauseOutputLimit then StatusOutputLimitExceeded
      else if compileFailed then StatusCompileError
      else (let st = classifyTestExit exitCode testsFailedExit produced in
            if st \<noteq> [] then st else StatusRuntimeError))"

definition trace_status :: "cancel_cause option \<Rightarrow> bool \<Rightarrow> bool \<Rightarrow> bool \<Rightarrow> bytes" where
  "trace_status cause oom marker runErr =
     (if cause = Some CauseDeadline then StatusTimeout
      else if oom then StatusMemoryExceeded
      else if marker then StatusMemoryExceeded
      else if cause = Some CauseOutputLimit then StatusOutputLimitExceeded
      else if \<not> runErr then StatusSuccess
      else StatusRuntimeError)"

lemma status_ne [simp]:
  "StatusTimeout \<noteq> StatusSuccess" "StatusTimeout \<noteq> StatusMemoryExceeded"
  "StatusTimeout \<noteq> StatusOutputLimitExceeded" "StatusTimeout \<noteq> StatusRuntimeError"
  "StatusSuccess \<noteq> StatusMemoryExceeded" "StatusSuccess \<noteq> StatusOutputLimitExceeded"
  "StatusSuccess \<noteq> StatusRuntimeError" "StatusMemoryExceeded \<noteq> StatusOutputLimitExceeded"
  "StatusMemoryExceeded \<noteq> StatusRuntimeError" "StatusOutputLimitExceeded \<noteq> StatusRuntimeError"
  "StatusCompileError \<noteq> BatchStatusOK" "StatusInternalError \<noteq> BatchStatusOK"
  "StatusCompileError \<noteq> StatusInternalError" "StatusInternalError \<noteq> StatusMemoryExceeded"
  "StatusInternalError \<noteq> StatusSuccess" "StatusInternalError \<noteq> StatusTestsFailed"
  using status_distinct by auto

lemmas status_ne_sym [simp] = status_ne [symmetric]

lemma run_status_in [simp]: "run_status c e om m \<in> all_statuses"
  by (simp add: run_status_def)

lemma classify_in: "classifyTestExit e f p \<in> insert [] all_statuses"
  by (simp add: classifyTestExit_def)

lemma test_status_in [simp]: "test_status c om cf e f p \<in> all_statuses"
  using classify_in [of e f p] by (auto simp: test_status_def Let_def)

lemma trace_status_in [simp]: "trace_status c om m e \<in> all_statuses"
  by (simp add: trace_status_def)

lemma run_status_values:
  "run_status c e om m = StatusMemoryExceeded \<longleftrightarrow> c \<noteq> Some CauseDeadline \<and> e \<and> (om \<or> m)"
  "run_status c e om m = StatusSuccess \<longleftrightarrow> c \<noteq> Some CauseDeadline \<and> \<not> e"
  by (simp_all add: run_status_def)

lemma option_cause_cases:
  obtains "cause = None" | "cause = Some CauseDeadline" | "cause = Some CauseOutputLimit" | "cause = Some CauseParent"
  by (metis cancel_cause.exhaust option.exhaust)

text \<open>The run verdict. Timeout is reported exactly when the deadline was the first cancellation, whatever
  the process did; otherwise success exactly for a clean exit, even after a flood; a failed run is
  blamed on memory exactly when the kernel or the marker says so, then on the output flood, and is a
  runtime error otherwise. In a trace the memory and flood verdicts come before the clean exit.\<close>
theorem run_status_cases:
  "(run_status cause runErr oom marker = StatusTimeout \<longleftrightarrow> cause = Some CauseDeadline) \<and>
   (run_status cause runErr oom marker = StatusSuccess \<longleftrightarrow> cause \<noteq> Some CauseDeadline \<and> \<not> runErr) \<and>
   (run_status cause runErr oom marker = StatusMemoryExceeded \<longleftrightarrow>
      cause \<noteq> Some CauseDeadline \<and> runErr \<and> (oom \<or> marker)) \<and>
   (run_status cause runErr oom marker = StatusOutputLimitExceeded \<longleftrightarrow>
      cause = Some CauseOutputLimit \<and> runErr \<and> \<not> oom \<and> \<not> marker) \<and>
   (run_status cause runErr oom marker = StatusRuntimeError \<longleftrightarrow>
      runErr \<and> \<not> oom \<and> \<not> marker \<and> (cause = None \<or> cause = Some CauseParent)) \<and>
   (trace_status cause oom marker runErr \<noteq> run_status cause runErr oom marker \<longleftrightarrow>
      \<not> runErr \<and> cause \<noteq> Some CauseDeadline \<and> (oom \<or> marker \<or> cause = Some CauseOutputLimit))"
proof (intro conjI)
  show "run_status cause runErr oom marker = StatusRuntimeError \<longleftrightarrow>
      runErr \<and> \<not> oom \<and> \<not> marker \<and> (cause = None \<or> cause = Some CauseParent)"
    by (cases cause rule: option_cause_cases) (simp_all add: run_status_def)
  show "trace_status cause oom marker runErr \<noteq> run_status cause runErr oom marker \<longleftrightarrow>
      \<not> runErr \<and> cause \<noteq> Some CauseDeadline \<and> (oom \<or> marker \<or> cause = Some CauseOutputLimit)"
    by (cases runErr) (simp_all add: run_status_def trace_status_def)
qed (simp_all add: run_status_def)

text \<open>C20: A test run is never passed, nor failed by its tests, without the framework's report: whatever exit
  code the submitted code forces, success needs exit code 0 and a produced report, and a verdict of
  failed tests needs the framework's own exit code for it and a produced report; and neither is given
  to a run that hit its deadline, ran out of memory, flooded its output, or did not compile.\<close>
theorem test_verdict_needs_report:
  "(test_status cause oom compileFailed exitCode testsFailedExit produced = StatusSuccess \<longleftrightarrow>
      produced \<and> exitCode = 0 \<and> \<not> oom \<and> \<not> compileFailed \<and>
      cause \<notin> {Some CauseDeadline, Some CauseOutputLimit}) \<and>
   (test_status cause oom compileFailed exitCode testsFailedExit produced = StatusTestsFailed \<longleftrightarrow>
      produced \<and> exitCode \<noteq> 0 \<and> exitCode = testsFailedExit \<and> \<not> oom \<and> \<not> compileFailed \<and>
      cause \<notin> {Some CauseDeadline, Some CauseOutputLimit})"
  using status_distinct by (auto simp: test_status_def classifyTestExit_def Let_def)

text \<open>\<open>detectVersion\<close> runs the interpreter once, when the runtime is built.\<close>

definition detectVersion ::
  "'w host \<Rightarrow> bytes \<Rightarrow> bytes list \<Rightarrow> (bytes \<Rightarrow> bytes) \<Rightarrow> 'w \<Rightarrow> bytes \<times> 'w" where
  "detectVersion h bin versionArgs parseVersion w =
     (if bin = [] \<or> versionArgs = [] then ([], w)
      else (case run_plain h (exec_Command bin versionArgs) w of
              ((ok, out), w1) \<Rightarrow> (if ok then parseVersion out else [], w1)))"

subsection \<open>Effects on the state\<close>

lemma clock_keeps [simp]:
  "Sb (snd (clock h w)) = Sb w" "Work (snd (clock h w)) = Work w" "Launched (snd (clock h w)) = Launched w"
  by (simp_all add: clock_def split: prod.splits)

lemma MkdirTemp_keeps:
  "MkdirTemp h p w = (d, w') \<Longrightarrow> Sb w' = Sb w \<and> Launched w' = Launched w \<and> (d \<noteq> None \<longrightarrow> Work w' = fresh_dir)"
  by (auto simp: MkdirTemp_def split: prod.splits option.splits)

lemma WriteFile_keeps:
  "WriteFile h q c w = Some w' \<Longrightarrow> Sb w' = Sb w \<and> Launched w' = Launched w \<and> Ext w' = Ext w"
  by (auto simp: WriteFile_def)

lemma RemoveAll_keeps [simp]:
  "Sb (RemoveAll w) = Sb w" "Launched (RemoveAll w) = Launched w" "Ext (RemoveAll w) = Ext w"
  by (simp_all add: RemoveAll_def)

lemma acct_Close_keeps [simp]:
  "Sb (acct_Close h acct w) = Sb w" "Launched (acct_Close h acct w) = Launched w"
  "Work (acct_Close h acct w) = Work w"
  by (simp_all add: acct_Close_def split: option.splits)

lemma Command_keeps [simp]:
  "Launched (snd (Command h spec w)) = Launched w" "Work (snd (Command h spec w)) = Work w"
  by (simp_all add: Command_def split: prod.splits)

lemma Command_sb:
  "Command h spec w = (r, w') \<Longrightarrow> sb_Command h (Sb w) spec (Ext w) = (Sb w', Ext w', r)"
  by (auto simp: Command_def split: prod.splits)

lemma cmd_Run_keeps [simp]:
  "Sb (snd (cmd_Run h cmd w)) = Sb w" "Launched (snd (cmd_Run h cmd w)) = Launched w @ [cmd]"
  by (simp_all add: cmd_Run_def split: prod.splits)

text \<open>
  A command the jail backend made for \<open>spec\<close>, in which the runtime then set only the standard input,
  the environment and the deadline. The environment is always set, so the child never inherits the
  runner's own.
\<close>

definition jailed_for :: "nsjailSandbox \<Rightarrow> Spec \<Rightarrow> os_cmd \<Rightarrow> bool" where
  "jailed_for s spec cmd \<longleftrightarrow>
     Prog cmd = nj_bin s \<and> Args cmd = nsjailArgs (nj_uid s) (nj_gid s) spec \<and> Setpgid cmd \<and> CancelGroup cmd \<and>
     Env cmd \<noteq> None \<and> (nj_cgRequired s \<and> nj_cg s \<noteq> None \<longrightarrow> CgroupFD cmd \<noteq> None)"

definition same_jail :: "nsjailSandbox \<Rightarrow> nsjailSandbox \<Rightarrow> bool" where
  "same_jail s s' \<longleftrightarrow> s' = s\<lparr>nj_cgroupFailed := nj_cgroupFailed s'\<rparr>"

lemma same_jail_refl [simp]: "same_jail s s"
  by (simp add: same_jail_def)

lemma Command_jailed:
  assumes "Command h spec w = (r, w')" and "Sb w = Nsjail s"
  shows "\<exists>s'. Sb w' = Nsjail s' \<and> same_jail s s' \<and>
    (\<forall>cmd0 acct i e d. r = Some (cmd0, acct) \<longrightarrow>
       jailed_for s spec (cmd0\<lparr>StdinData := i, Env := Some e, Deadline := d\<rparr>))"
proof -
  from Command_sb [OF assms(1)] assms(2) obtain s' where s': "Sb w' = Nsjail s'"
    and c: "nsjail_Command h s spec (Ext w) = (s', Ext w', r)"
    by (auto split: prod.splits)
  from nsjail_Command_cases [OF c] s' show ?thesis
    by (auto simp: same_jail_def jailed_for_def nsjail_cmd_def exec_Command_def)
qed

definition closed_result :: "RunResult \<Rightarrow> bool" where
  "closed_result res \<longleftrightarrow> Status res \<in> all_statuses \<and> RuntimeName res = [] \<and> RuntimeVersion res = [] \<and>
     PythonVersion res = []"

subsection \<open>What a runtime promises to the service\<close>

lemma internal_simps [simp]:
  "Status (internal_result m) = StatusInternalError" "RuntimeName (internal_result m) = []"
  "RuntimeVersion (internal_result m) = []" "PythonVersion (internal_result m) = []"
  "Stderr (internal_result m) = m" "Stdout (internal_result m) = []"
  "BatchStatus internal_batch = StatusInternalError" "Results internal_batch = []"
  "\<not> Aborted internal_batch" "BatchRuntimeVersion internal_batch = []"
  by (simp_all add: internal_result_def internal_batch_def zero_result_def zero_batch_def)

lemma closed_internal [simp]: "closed_result (internal_result m)"
  by (simp add: closed_result_def)

lemma zero_simps [simp]:
  "RuntimeName zero_result = []" "RuntimeVersion zero_result = []" "PythonVersion zero_result = []"
  "Results zero_batch = []" "\<not> Aborted zero_batch" "BatchRuntimeVersion zero_batch = []"
  by (simp_all add: zero_result_def zero_batch_def)

lemma batch_results_closed:
  assumes "batchLoop now gn start n run xs w = (rs, ab, w1)" and "\<And>x w. closed_result (fst (run x w))"
  shows "\<forall>res\<in>set rs. closed_result res"
  by (rule batchLoop_all [where Q = closed_result, OF assms(2,1)])

text \<open>What makes a batch envelope well formed for its request.\<close>

definition batch_formed :: "RunRequest \<Rightarrow> BatchResult \<Rightarrow> bool" where
  "batch_formed req b \<longleftrightarrow>
     BatchStatus b \<in> {BatchStatusOK, StatusCompileError, StatusInternalError} \<and>
     BatchRuntimeVersion b = [] \<and> (\<forall>res\<in>set (Results b). closed_result res) \<and>
     (if BatchStatus b = BatchStatusOK
      then length (Results b) \<le> length (Stdins req) \<and> (Aborted b \<longleftrightarrow> length (Results b) < length (Stdins req))
      else Results b = [] \<and> \<not> Aborted b)"

lemma batch_formed_failed:
  "st \<in> {StatusCompileError, StatusInternalError} \<Longrightarrow>
    batch_formed req (zero_batch\<lparr>BatchStatus := st, BatchCompileMs := ms, BatchCompileOutput := out\<rparr>)"
  by (auto simp: batch_formed_def)

lemma batch_formed_ran:
  assumes "batchLoop now gn start n run (Stdins req) w = (rs, ab, w1)" and "\<And>x w. closed_result (fst (run x w))"
  shows "batch_formed req (zero_batch\<lparr>BatchStatus := BatchStatusOK, BatchCompileMs := ms, Results := rs, Aborted := ab\<rparr>)"
  using batchLoop_length [OF assms(1)] batch_results_closed [OF assms] by (simp add: batch_formed_def)

text \<open>
  The contract of \<open>Runtime\<close> and \<open>batchRunner\<close> (\<^verbatim>\<open>executor.go\<close>): every outcome is encoded in the
  closed set of statuses, provenance is left to the service, and a batch is index-aligned: it either
  failed as a whole, with no result, or ran a prefix of its inputs, all of them unless it aborted.
\<close>

locale runtime_contract =
  fixes run :: "RunRequest \<Rightarrow> 's \<Rightarrow> RunResult \<times> 's"
    and run_batch :: "RunRequest \<Rightarrow> int \<Rightarrow> 's \<Rightarrow> BatchResult \<times> 's"
  assumes run_closed: "closed_result (fst (run req s))"
    and batch_form: "batch_formed req (fst (run_batch req n s))"
begin

lemma batch_never_longer: "length (Results (fst (run_batch req n s))) \<le> length (Stdins req)"
  using batch_form [of req n s] by (auto simp: batch_formed_def split: if_splits)

lemma batch_complete:
  "BatchStatus (fst (run_batch req n s)) = BatchStatusOK \<Longrightarrow> \<not> Aborted (fst (run_batch req n s)) \<Longrightarrow>
     length (Results (fst (run_batch req n s))) = length (Stdins req)"
  using batch_form [of req n s] by (auto simp: batch_formed_def split: if_splits)

lemma batch_aborted_short:
  "Aborted (fst (run_batch req n s)) \<Longrightarrow>
     BatchStatus (fst (run_batch req n s)) = BatchStatusOK \<and>
     length (Results (fst (run_batch req n s))) < length (Stdins req)"
  using batch_form [of req n s] by (auto simp: batch_formed_def split: if_splits)

end

subsection \<open>What was launched\<close>

text \<open>
  The shape every launching step has: it asks the backend for \<open>spec\<close>'s command and, if there is one,
  runs exactly it.
\<close>

definition launch_shape :: "'w host \<Rightarrow> Spec \<Rightarrow> 'w world \<Rightarrow> 'w world \<Rightarrow> bool" where
  "launch_shape h spec w w' \<longleftrightarrow>
     (\<exists>ca w1. Command h spec w = (ca, w1) \<and> Sb w' = Sb w1 \<and>
       (case ca of None \<Rightarrow> Launched w' = Launched w
        | Some (cmd0, acct) \<Rightarrow>
            \<exists>i e t. Launched w' = Launched w @ [cmd0\<lparr>StdinData := i, Env := Some e, Deadline := t\<rparr>]))"

lemma launch_shape_refused:
  "fst (Command h spec w) = None \<Longrightarrow> launch_shape h spec w (snd (Command h spec w))"
  unfolding launch_shape_def by (intro exI conjI, rule surjective_pairing) auto

lemma launch_shape_ran:
  "fst (Command h spec w) = Some (cmd0, acct) \<Longrightarrow> Sb w' = Sb (snd (Command h spec w)) \<Longrightarrow>
     Launched w' = Launched w @ [cmd0\<lparr>StdinData := i, Env := Some e, Deadline := t\<rparr>] \<Longrightarrow> launch_shape h spec w w'"
  unfolding launch_shape_def by (intro exI conjI, rule surjective_pairing) auto

lemma launch_shape_ran_no_stdin:
  "fst (Command h spec w) = Some (cmd0, acct) \<Longrightarrow> Sb w' = Sb (snd (Command h spec w)) \<Longrightarrow>
     Launched w' = Launched w @ [cmd0\<lparr>Env := Some e, Deadline := t\<rparr>] \<Longrightarrow> launch_shape h spec w w'"
  by (rule launch_shape_ran [where i = "StdinData cmd0" and e = e and t = t]) (simp_all, cases cmd0, simp)

text \<open>
  Between two states exactly these commands were launched, in this order: the \<open>i\<close>-th one jailed for a
  spec with the \<open>i\<close>-th property. \<open>ran_upto\<close> is the same for a first part of the list.
\<close>

definition ran :: "nsjailSandbox \<Rightarrow> (Spec \<Rightarrow> bool) list \<Rightarrow> 'w world \<Rightarrow> 'w world \<Rightarrow> bool" where
  "ran s Qs w w' \<longleftrightarrow>
     (\<exists>s'. Sb w' = Nsjail s' \<and> same_jail s s') \<and>
     (\<exists>cmds. Launched w' = Launched w @ cmds \<and>
        list_all2 (\<lambda>Q cmd. \<exists>spec. jailed_for s spec cmd \<and> Q spec) Qs cmds)"

definition ran_upto :: "nsjailSandbox \<Rightarrow> (Spec \<Rightarrow> bool) list \<Rightarrow> 'w world \<Rightarrow> 'w world \<Rightarrow> bool" where
  "ran_upto s Qs w w' \<longleftrightarrow> (\<exists>k. ran s (take k Qs) w w')"

lemma same_jail_jailed: "same_jail s s' \<Longrightarrow> jailed_for s' spec cmd = jailed_for s spec cmd"
  by (cases s; cases s') (simp add: same_jail_def jailed_for_def)

lemma same_jail_trans: "same_jail s s1 \<Longrightarrow> same_jail s1 s2 \<Longrightarrow> same_jail s s2"
  by (cases s; cases s1; cases s2) (simp add: same_jail_def)

lemma ran_none: "Sb w = Nsjail s \<Longrightarrow> Sb w' = Sb w \<Longrightarrow> Launched w' = Launched w \<Longrightarrow> ran s [] w w'"
  by (simp add: ran_def)

lemma ran_step:
  assumes "launch_shape h spec w w'" and "Sb w = Nsjail s" and "Q spec"
  shows "ran s [] w w' \<or> ran s [Q] w w'"
proof -
  from assms(1) obtain ca w1 where c: "Command h spec w = (ca, w1)" and sb: "Sb w' = Sb w1"
    and l: "case ca of None \<Rightarrow> Launched w' = Launched w
      | Some (cmd0, acct) \<Rightarrow> \<exists>i e t. Launched w' = Launched w @ [cmd0\<lparr>StdinData := i, Env := Some e, Deadline := t\<rparr>]"
    unfolding launch_shape_def by blast
  from Command_jailed [OF c assms(2)] obtain s' where s': "Sb w1 = Nsjail s'" "same_jail s s'"
    and j: "\<forall>cmd0 acct i e d. ca = Some (cmd0, acct) \<longrightarrow>
      jailed_for s spec (cmd0\<lparr>StdinData := i, Env := Some e, Deadline := d\<rparr>)" by blast
  show ?thesis
  proof (cases ca)
    case None
    with l s' sb show ?thesis by (simp add: ran_def)
  next
    case (Some cp)
    obtain cmd0 acct where cp: "cp = (cmd0, acct)" by (cases cp)
    with l Some obtain i e t where
      "Launched w' = Launched w @ [cmd0\<lparr>StdinData := i, Env := Some e, Deadline := t\<rparr>]" by auto
    moreover have "jailed_for s spec (cmd0\<lparr>StdinData := i, Env := Some e, Deadline := t\<rparr>)"
      using j Some cp by blast
    ultimately show ?thesis
      using s' sb assms(3) unfolding ran_def by auto
  qed
qed

lemma ran_trans:
  assumes "ran s Ps w w1" and "\<And>s1. Sb w1 = Nsjail s1 \<Longrightarrow> ran s1 Qs w1 w2"
  shows "ran s (Ps @ Qs) w w2"
proof -
  from assms(1) obtain s1 c1 where 1: "Sb w1 = Nsjail s1" "same_jail s s1" "Launched w1 = Launched w @ c1"
    "list_all2 (\<lambda>Q cmd. \<exists>spec. jailed_for s spec cmd \<and> Q spec) Ps c1"
    unfolding ran_def by blast
  from assms(2) [OF 1(1)] obtain s2 c2 where 2: "Sb w2 = Nsjail s2" "same_jail s1 s2" "Launched w2 = Launched w1 @ c2"
    "list_all2 (\<lambda>Q cmd. \<exists>spec. jailed_for s1 spec cmd \<and> Q spec) Qs c2"
    unfolding ran_def by blast
  have "list_all2 (\<lambda>Q cmd. \<exists>spec. jailed_for s spec cmd \<and> Q spec) (Ps @ Qs) (c1 @ c2)"
    using 1(4) 2(4) same_jail_jailed [OF 1(2)] by (simp add: list_all2_appendI)
  with 1 2 same_jail_trans [OF 1(2) 2(2)] show ?thesis
    unfolding ran_def by (intro conjI exI [of _ "c1 @ c2"]) auto
qed

lemma ran_from: "Launched v = Launched w \<Longrightarrow> ran s Qs v w' = ran s Qs w w'"
  by (simp add: ran_def)

lemma ran_until: "Sb v = Sb w' \<Longrightarrow> Launched v = Launched w' \<Longrightarrow> ran s Qs w v = ran s Qs w w'"
  by (simp add: ran_def)

lemma ran_upto_from: "Launched v = Launched w \<Longrightarrow> ran_upto s Qs v w' = ran_upto s Qs w w'"
  unfolding ran_upto_def ran_def by simp

lemma ran_RemoveAll [simp]:
  "ran s Qs w (RemoveAll w') = ran s Qs w w'" "ran_upto s Qs w (RemoveAll w') = ran_upto s Qs w w'"
  by (simp_all add: ran_def ran_upto_def)

lemma ran_length:
  "ran s Qs w w' \<Longrightarrow> length (Launched w') = length (Launched w) + length Qs"
  by (auto simp: ran_def dest: list_all2_lengthD)

lemma ran_uptoI: "ran s Ps w w' \<Longrightarrow> Qs = Ps @ Rs \<Longrightarrow> ran_upto s Qs w w'"
  unfolding ran_upto_def by (rule exI [of _ "length Ps"]) simp

lemma ran_upto_none [intro]:
  "Sb w = Nsjail s \<Longrightarrow> Sb w' = Sb w \<Longrightarrow> Launched w' = Launched w \<Longrightarrow> ran_upto s Qs w w'"
  using ran_uptoI [OF ran_none] by force

lemma ran_upto_step:
  assumes "launch_shape h spec v w'" and "Sb v = Nsjail s" and "Launched v = Launched w" and "Q spec"
  shows "ran_upto s [Q] w w'"
  using ran_step [where Q = Q, OF assms(1,2,4)] ran_from [OF assms(3)] ran_uptoI by (metis append.right_neutral append_Nil)

lemma ran_uptoD:
  assumes "ran_upto s Qs w w'"
  obtains cmds where "Launched w' = Launched w @ cmds" and "length cmds \<le> length Qs"
    and "\<forall>i<length cmds. \<exists>spec. jailed_for s spec (cmds ! i) \<and> (Qs ! i) spec"
proof -
  from assms obtain k cmds where k: "Launched w' = Launched w @ cmds"
    "list_all2 (\<lambda>Q cmd. \<exists>spec. jailed_for s spec cmd \<and> Q spec) (take k Qs) cmds"
    unfolding ran_upto_def ran_def by blast
  from k(2) have "length cmds \<le> length Qs" and "length cmds \<le> k"
    and "\<And>i. i < length cmds \<Longrightarrow> \<exists>spec. jailed_for s spec (cmds ! i) \<and> (take k Qs ! i) spec"
    using list_all2_lengthD [OF k(2)] list_all2_nthD2 [OF k(2)] by auto
  then show thesis by (intro that [OF k(1)]) auto
qed

lemma ran_upto_one:
  assumes "ran_upto s [Q] w w'"
  obtains "Launched w' = Launched w"
    | cmd spec where "Launched w' = Launched w @ [cmd]" and "jailed_for s spec cmd" and "Q spec"
proof -
  from assms obtain cmds where c: "Launched w' = Launched w @ cmds" "length cmds \<le> length [Q]"
    "\<forall>i<length cmds. \<exists>spec. jailed_for s spec (cmds ! i) \<and> ([Q] ! i) spec" by (rule ran_uptoD)
  show thesis
  proof (cases cmds)
    case (Cons cmd rest)
    with c(2) have "cmds = [cmd]" by simp
    with c that(2) show thesis by auto
  qed (use c that(1) in simp)
qed

subsection \<open>A closed example\<close>

definition plain_jail :: nsjailSandbox where
  "plain_jail = \<lparr>nj_bin = ''/usr/bin/nsjail'', nj_uid = 1000, nj_gid = 1000, nj_cg = None,
     nj_cgRequired = False, nj_cgroupFailed = False\<rparr>"

definition demo_world :: "int world" where
  "demo_world = \<lparr>Ext = 0, Sb = Nsjail plain_jail, Work = Map.empty, Launched = []\<rparr>"

lemma mode_simps [simp]: "[] \<noteq> modeTest" "[] \<noteq> modeTrace"
  by (simp_all add: modeTest_def modeTrace_def)

lemma ran_upto_all:
  assumes "ran_upto s Qs w w'" and "\<And>Q spec. Q \<in> set Qs \<Longrightarrow> Q spec \<Longrightarrow> P spec"
  shows "\<exists>cmds. Launched w' = Launched w @ cmds \<and> length cmds \<le> length Qs \<and>
    (\<forall>cmd\<in>set cmds. \<exists>spec. jailed_for s spec cmd \<and> P spec)"
proof -
  from assms(1) obtain cmds where c: "Launched w' = Launched w @ cmds" "length cmds \<le> length Qs"
    "\<forall>i<length cmds. \<exists>spec. jailed_for s spec (cmds ! i) \<and> (Qs ! i) spec" by (rule ran_uptoD)
  have "\<exists>spec. jailed_for s spec cmd \<and> P spec" if cmd: "cmd \<in> set cmds" for cmd
  proof -
    from cmd obtain i where "i < length cmds" "cmds ! i = cmd" by (auto simp: in_set_conv_nth)
    then show ?thesis using c(2,3) assms(2) by (metis nth_mem order_less_le_trans)
  qed
  with c(1,2) show ?thesis by blast
qed

text \<open>A batch of executions that each launch at most one command of one posture.\<close>

lemma batchLoop_ran:
  assumes step: "\<And>x v s. Sb v = Nsjail s \<Longrightarrow> ran_upto s [Q] v (snd (exec x v))"
  shows "batchLoop (clock h) (gone h) e n exec xs w = (rs, ab, w') \<Longrightarrow> Sb w = Nsjail s \<Longrightarrow>
    \<exists>k\<le>length rs. ran s (replicate k Q) w w'"
proof (induction xs arbitrary: w rs s)
  case Nil
  then show ?case by (intro exI [of _ 0]) (simp add: ran_none)
next
  case (Cons x xs)
  have b: "Sb w1 = Sb w \<and> Launched w1 = Launched w" if "over_budget (clock h) e n w = (o1, w1)" for o1 w1
    using that clock_keeps [of h w] by (cases "clock h w") (auto simp: over_budget_def split: if_splits)
  from Cons.prems(1) show ?case
  proof (rule batchLoop_step)
    fix o1 w1 assume "over_budget (clock h) e n w = (o1, w1)" "w' = w1"
    with b Cons.prems(2) show ?case by (intro exI [of _ 0]) (simp add: ran_none)
  next
    fix w1 r w2 rs'
    assume 1: "over_budget (clock h) e n w = (False, w1)" "exec x w1 = (r, w2)" "rs = r # rs'"
      and 2: "batchLoop (clock h) (gone h) e n exec xs w2 = (rs', ab, w')"
    have w1: "Sb w1 = Nsjail s" "Launched w1 = Launched w" using b [OF 1(1)] Cons.prems(2) by simp_all
    from step [OF w1(1), of x] 1(2) obtain j where j: "ran s (take j [Q]) w w2"
      using ran_from [OF w1(2)] by (auto simp: ran_upto_def)
    then obtain s2 where s2: "Sb w2 = Nsjail s2" by (auto simp: ran_def)
    from Cons.IH [OF 2 s2] obtain k where k: "k \<le> length rs'" "ran s2 (replicate k Q) w2 w'" by blast
    have "ran s (take j [Q] @ replicate k Q) w w'" by (rule ran_trans [OF j]) (use k(2) s2 in simp)
    moreover have "take j [Q] @ replicate k Q = replicate (min j 1 + k) Q" by (cases j) simp_all
    ultimately show ?case using k(1) 1(3) by (intro exI [of _ "min j 1 + k"]) auto
  qed
qed

end
