(* ===== verification/Interpreted.thy ===== *)
theory Interpreted
  imports RunCore
begin

text \<open>
  \<^verbatim>\<open>internal/executor/interpreted.go\<close>: the runtime of one interpreted language. Run, test and trace
  mode each prepare the working directory, launch one jailed process, and classify what came back.
\<close>

record interpretedRuntime =
  irSpec :: languageSpec
  irBin :: bytes
  irVersion :: bytes
  irOutputLimit :: int
  irMaxProcesses :: int
  irMaxFileSizeMB :: int
  irMaxReportBytes :: int
  irMaxTraceReportBytes :: int
  irMaxTraceSteps :: int

definition newInterpreted ::
  "'w host \<Rightarrow> languageSpec \<Rightarrow> int \<Rightarrow> int \<Rightarrow> int \<Rightarrow> int \<Rightarrow> 'w \<Rightarrow> interpretedRuntime \<times> 'w" where
  "newInterpreted h spec outputLimit maxProcesses maxFileSizeMB maxReportBytes w =
     (let bin = resolveBin h (lBinNames spec);
          (version, w1) = detectVersion h bin (lVersionArgs spec) (lParseVersion spec) w
      in (\<lparr>irSpec = spec, irBin = bin, irVersion = version, irOutputLimit = outputLimit,
           irMaxProcesses = maxProcesses, irMaxFileSizeMB = maxFileSizeMB,
           irMaxReportBytes = maxReportBytes, irMaxTraceReportBytes = maxReportBytes,
           irMaxTraceSteps = 0\<rparr>, w1))"

type_synonym 'w ir_new = "int \<Rightarrow> int \<Rightarrow> int \<Rightarrow> int \<Rightarrow> 'w \<Rightarrow> interpretedRuntime \<times> 'w"

definition NewPython :: "'w host \<Rightarrow> 'w ir_new" where "NewPython h = newInterpreted h pythonSpec"
definition NewNode :: "'w host \<Rightarrow> 'w ir_new" where "NewNode h = newInterpreted h javascriptSpec"
definition NewLua :: "'w host \<Rightarrow> 'w ir_new" where "NewLua h = newInterpreted h luaSpec"
definition NewPHP :: "'w host \<Rightarrow> 'w ir_new" where "NewPHP h = newInterpreted h phpSpec"
definition NewSQL :: "'w host \<Rightarrow> 'w ir_new" where "NewSQL h = newInterpreted h sqliteSpec"

lemmas ir_constructors = NewPython_def NewNode_def NewLua_def NewPHP_def NewSQL_def

definition ir_WithTraceLimits :: "interpretedRuntime \<Rightarrow> int \<Rightarrow> int \<Rightarrow> interpretedRuntime" where
  "ir_WithTraceLimits r reportBytes steps =
     (let r1 = (if reportBytes > 0 then r\<lparr>irMaxTraceReportBytes := reportBytes\<rparr> else r)
      in if steps > 0 then r1\<lparr>irMaxTraceSteps := steps\<rparr> else r1)"

subsection \<open>Run mode\<close>

definition ir_prepare ::
  "'w host \<Rightarrow> interpretedRuntime \<Rightarrow> RunRequest \<Rightarrow> 'w world \<Rightarrow> (bytes + (bytes list \<times> bytes list)) \<times> 'w world" where
  "ir_prepare h r req w =
     (if Files req = [] then
        (case WriteFile h [lSourceFile (irSpec r)] (SourceCode req) w of
           None \<Rightarrow> (Inl ''could not write source'', w)
         | Some w1 \<Rightarrow> (Inr (lRunArgs (irSpec r), lEnv (irSpec r)), w1))
      else
        (case lMultiFileRunArgs (irSpec r) of
           None \<Rightarrow> (Inl ''language does not support multi-file submissions'', w)
         | Some args \<Rightarrow>
             (case materializeSource (faults h (Ext w)) (Work w) req of
                Inl e \<Rightarrow> (Inl (err_text h e), w)
              | Inr (t, _) \<Rightarrow>
                  (Inr (args (srcRel (Entrypoint req)), lEnv (irSpec r) @ [''HOME=/nonexistent'']),
                   w\<lparr>Work := t\<rparr>))))"

definition ir_run_spec :: "interpretedRuntime \<Rightarrow> RunRequest \<Rightarrow> bytes \<Rightarrow> bytes list \<Rightarrow> Spec" where
  "ir_run_spec r req workDir runArgsTail =
     (let argv = [irBin r] @
            (case lMemoryArgs (irSpec r) of None \<Rightarrow> [] | Some args \<Rightarrow> args (MemoryMB req)) @ runArgsTail;
          addressSpaceMB = (if lCapAddressSpace (irSpec r) then MemoryMB req else 0)
      in zero_spec\<lparr>Argv := argv, WorkDir := workDir, SpecTimeoutMs := TimeoutMs req,
           AddressSpaceMB := addressSpaceMB, SpecMemoryMB := MemoryMB req,
           MaxProcesses := irMaxProcesses r, MaxFileSizeMB := irMaxFileSizeMB r\<rparr>)"

definition ir_execute ::
  "'w host \<Rightarrow> interpretedRuntime \<Rightarrow> RunRequest \<Rightarrow> bytes \<Rightarrow> bytes list \<Rightarrow> bytes list \<Rightarrow> 'w world \<Rightarrow>
     RunResult \<times> 'w world" where
  "ir_execute h r req workDir runArgsTail env w =
     (case Command h (ir_run_spec r req workDir runArgsTail) w of
        (None, w1) \<Rightarrow> (internal_result ''sandbox containment unavailable'', w1)
      | (Some (cmd0, acct), w1) \<Rightarrow>
          (let cmd = cmd0\<lparr>StdinData := Stdin req, Env := Some env, Deadline := ms_ns (TimeoutMs req)\<rparr>;
               outputLimit = effectiveOutputLimit (OutputLimitBytes req) (irOutputLimit r);
               (start, w2) = clock h w1;
               (ch, w3) = cmd_Run h cmd w2;
               (stop, w4) = clock h w3;
               io = run_events (start_io outputLimit outputLimit) (Events ch);
               res = zero_result
                 \<lparr>Stdout := encodeStream (Encoding req) (lb_String (OutB io)),
                  Stderr := encodeStream (Encoding req) (lb_String (ErrB io)),
                  StdoutTruncated := truncated (OutB io), StderrTruncated := truncated (ErrB io),
                  DurationMs := ms_since start stop, MemoryKB := memoryKB h acct ch w4,
                  ResultFormat := lResultFormat (irSpec r), ExitCode := child_exit ch\<rparr>;
               status = run_status (Cause io) (RunErr ch) (acct_OOMKilled h acct w4)
                 (mem_marker (lMemErrSubstr (irSpec r)) (Stderr res))
           in (res\<lparr>Status := status\<rparr>, acct_Close h acct w4)))"

subsection \<open>Test mode\<close>

definition ir_prepareTest ::
  "'w host \<Rightarrow> RunRequest \<Rightarrow> bytes \<Rightarrow> 'w world \<Rightarrow> (bytes + bytes) \<times> 'w world" where
  "ir_prepareTest h req srcFile w =
     (if Files req = [] then
        (case WriteFile h [srcFile] (SourceCode req) w of
           None \<Rightarrow> (Inl ''could not write source'', w)
         | Some w1 \<Rightarrow> (Inr srcFile, w1))
      else (case materializeSource (faults h (Ext w)) (Work w) req of
              Inl e \<Rightarrow> (Inl (err_text h e), w)
            | Inr (t, _) \<Rightarrow> (Inr srcRootName, w\<lparr>Work := t\<rparr>)))"

definition ir_test_spec :: "interpretedRuntime \<Rightarrow> RunRequest \<Rightarrow> bytes \<Rightarrow> bytes list \<Rightarrow> Spec" where
  "ir_test_spec r req workDir argvTail =
     zero_spec\<lparr>Argv := irBin r # argvTail, WorkDir := workDir, SpecTimeoutMs := TimeoutMs req,
       AddressSpaceMB := 0, SpecMemoryMB := MemoryMB req, MaxProcesses := irMaxProcesses r,
       MaxFileSizeMB := irMaxFileSizeMB r, Writable := True\<rparr>"

definition ir_executeTest ::
  "'w host \<Rightarrow> interpretedRuntime \<Rightarrow> RunRequest \<Rightarrow> bytes \<Rightarrow> bytes \<Rightarrow> testCommand \<Rightarrow> 'w world \<Rightarrow>
     RunResult \<times> 'w world" where
  "ir_executeTest h r req workDir target tc w =
     (case Command h (ir_test_spec r req workDir (tcArgvTail tc target (tcReportFile tc))) w of
        (None, w1) \<Rightarrow> (internal_result ''sandbox containment unavailable'', w1)
      | (Some (cmd0, acct), w1) \<Rightarrow>
          (let cmd = cmd0\<lparr>StdinData := [], Env := Some (tcEnv tc), Deadline := ms_ns (TimeoutMs req)\<rparr>;
               outputLimit = effectiveOutputLimit (OutputLimitBytes req) (irOutputLimit r);
               (start, w2) = clock h w1;
               (ch, w3) = cmd_Run h cmd w2;
               (stop, w4) = clock h w3;
               io = run_events (start_io outputLimit outputLimit) (Events ch);
               (report, produced, reportTrunc) =
                 readTestReport (faults h (Ext w4)) (Work w4) (tcReportFile tc) (lb_raw (OutB io))
                   (irMaxReportBytes r);
               res = zero_result
                 \<lparr>Stdout := encodeStream (Encoding req) (lb_String (OutB io)),
                  Stderr := encodeStream (Encoding req) (lb_String (ErrB io)),
                  StdoutTruncated := truncated (OutB io), StderrTruncated := truncated (ErrB io),
                  DurationMs := ms_since start stop, MemoryKB := memoryKB h acct ch w4,
                  ReportFormat := tcReportFormat tc, ExitCode := child_exit ch,
                  TestReport := report, TestReportTruncated := reportTrunc\<rparr>;
               status = test_status (Cause io) (acct_OOMKilled h acct w4) False (child_exit ch)
                 (tcTestsFailedExit tc) produced
           in (res\<lparr>Status := status\<rparr>, acct_Close h acct w4)))"

definition ir_runTest ::
  "'w host \<Rightarrow> interpretedRuntime \<Rightarrow> RunRequest \<Rightarrow> 'w world \<Rightarrow> RunResult \<times> 'w world" where
  "ir_runTest h r req w =
     (case testCommands (lName (irSpec r)) of
        None \<Rightarrow> (internal_result ''test mode not supported for this language'', w)
      | Some tc \<Rightarrow>
          (case MkdirTemp h ''dalivim-test-*'' w of
             (None, w1) \<Rightarrow> (internal_result ''could not create sandbox dir'', w1)
           | (Some workDir, w1) \<Rightarrow>
               (let srcFile = (if tcSourceFile tc \<noteq> [] then tcSourceFile tc else lSourceFile (irSpec r)) in
                case ir_prepareTest h req srcFile w1 of
                  (Inl e, w2) \<Rightarrow> (internal_result e, RemoveAll w2)
                | (Inr target, w2) \<Rightarrow>
                    (case ir_executeTest h r req workDir target tc w2 of
                       (res, w3) \<Rightarrow> (res, RemoveAll w3)))))"

subsection \<open>Trace mode\<close>

definition ir_prepareTrace ::
  "'w host \<Rightarrow> interpretedRuntime \<Rightarrow> RunRequest \<Rightarrow> 'w world \<Rightarrow> (bytes + (bytes \<times> bytes)) \<times> 'w world" where
  "ir_prepareTrace h r req w =
     (if Files req = [] then
        (case WriteFile h [lSourceFile (irSpec r)] (SourceCode req) w of
           None \<Rightarrow> (Inl ''could not write source'', w)
         | Some w1 \<Rightarrow> (Inr (lSourceFile (irSpec r), ''.''), w1))
      else (case materializeSource (faults h (Ext w)) (Work w) req of
              Inl e \<Rightarrow> (Inl (err_text h e), w)
            | Inr (t, _) \<Rightarrow> (Inr (srcRel (Entrypoint req), srcRootName), w\<lparr>Work := t\<rparr>)))"

definition ir_executeTrace ::
  "'w host \<Rightarrow> interpretedRuntime \<Rightarrow> RunRequest \<Rightarrow> bytes \<Rightarrow> bytes \<Rightarrow> bytes \<Rightarrow> traceCommand \<Rightarrow> 'w world \<Rightarrow>
     RunResult \<times> 'w world" where
  "ir_executeTrace h r req workDir target root tc w =
     (case Command h (ir_test_spec r req workDir (trArgvTail tc)) w of
        (None, w1) \<Rightarrow> (internal_result ''sandbox containment unavailable'', w1)
      | (Some (cmd0, acct), w1) \<Rightarrow>
          (let env = trEnv tc target root (trReportFile tc) (irMaxTraceSteps r) (irMaxTraceReportBytes r);
               cmd = cmd0\<lparr>StdinData := Stdin req, Env := Some env, Deadline := ms_ns (TimeoutMs req)\<rparr>;
               outputLimit = effectiveOutputLimit (OutputLimitBytes req) (irOutputLimit r);
               (start, w2) = clock h w1;
               (ch, w3) = cmd_Run h cmd w2;
               (stop, w4) = clock h w3;
               io = run_events (start_io outputLimit outputLimit) (Events ch);
               (report, _, reportTrunc) =
                 readTestReport (faults h (Ext w4)) (Work w4) (trReportFile tc) [] (irMaxTraceReportBytes r);
               res = zero_result
                 \<lparr>Stdout := encodeStream (Encoding req) (lb_String (OutB io)),
                  Stderr := encodeStream (Encoding req) (lb_String (ErrB io)),
                  StdoutTruncated := truncated (OutB io), StderrTruncated := truncated (ErrB io),
                  DurationMs := ms_since start stop, MemoryKB := memoryKB h acct ch w4,
                  TraceFormat := trTraceFormat tc, ExitCode := child_exit ch,
                  TraceReport := report, TraceReportTruncated := reportTrunc\<rparr>;
               status = trace_status (Cause io) (acct_OOMKilled h acct w4)
                 (mem_marker (lMemErrSubstr (irSpec r)) (Stderr res)) (RunErr ch)
           in (res\<lparr>Status := status\<rparr>, acct_Close h acct w4)))"

definition ir_runTrace ::
  "'w host \<Rightarrow> interpretedRuntime \<Rightarrow> RunRequest \<Rightarrow> 'w world \<Rightarrow> RunResult \<times> 'w world" where
  "ir_runTrace h r req w =
     (case traceCommands (embedded h) (lName (irSpec r)) of
        None \<Rightarrow> (internal_result ''trace mode not supported for this language'', w)
      | Some tc \<Rightarrow>
          (case MkdirTemp h ''dalivim-trace-*'' w of
             (None, w1) \<Rightarrow> (internal_result ''could not create sandbox dir'', w1)
           | (Some workDir, w1) \<Rightarrow>
               (case WriteFile h [trHarnessName tc] (trHarness tc) w1 of
                  None \<Rightarrow> (internal_result ''could not write trace harness'', RemoveAll w1)
                | Some w2 \<Rightarrow>
                    (case ir_prepareTrace h r req w2 of
                       (Inl e, w3) \<Rightarrow> (internal_result e, RemoveAll w3)
                     | (Inr (target, root), w3) \<Rightarrow>
                         (case ir_executeTrace h r req workDir target root tc w3 of
                            (res, w4) \<Rightarrow> (res, RemoveAll w4))))))"

subsection \<open>Entry points\<close>

definition ir_Run ::
  "'w host \<Rightarrow> interpretedRuntime \<Rightarrow> RunRequest \<Rightarrow> 'w world \<Rightarrow> RunResult \<times> 'w world" where
  "ir_Run h r req w =
     (if Mode req = modeTest then ir_runTest h r req w
      else if Mode req = modeTrace then ir_runTrace h r req w
      else
        (case MkdirTemp h ''dalivim-run-*'' w of
           (None, w1) \<Rightarrow> (internal_result ''could not create sandbox dir'', w1)
         | (Some workDir, w1) \<Rightarrow>
             (case ir_prepare h r req w1 of
                (Inl e, w2) \<Rightarrow> (internal_result e, RemoveAll w2)
              | (Inr (runArgsTail, env), w2) \<Rightarrow>
                  (case ir_execute h r req workDir runArgsTail env w2 of
                     (res, w3) \<Rightarrow> (res, RemoveAll w3)))))"

definition ir_RunBatch ::
  "'w host \<Rightarrow> interpretedRuntime \<Rightarrow> RunRequest \<Rightarrow> int \<Rightarrow> 'w world \<Rightarrow> BatchResult \<times> 'w world" where
  "ir_RunBatch h r req totalBudgetMs w =
     (let (start, w0) = clock h w in
      case MkdirTemp h ''dalivim-run-*'' w0 of
        (None, w1) \<Rightarrow> (internal_batch, w1)
      | (Some workDir, w1) \<Rightarrow>
          (case ir_prepare h r req w1 of
             (Inl e, w2) \<Rightarrow> (internal_batch, RemoveAll w2)
           | (Inr (runArgsTail, env), w2) \<Rightarrow>
               (case batchLoop (clock h) (gone h) start totalBudgetMs
                   (\<lambda>stdin. ir_execute h r (req\<lparr>Stdin := stdin\<rparr>) workDir runArgsTail env)
                   (Stdins req) w2 of
                  (results, aborted, w3) \<Rightarrow>
                    (zero_batch\<lparr>BatchStatus := BatchStatusOK, Results := results, Aborted := aborted\<rparr>,
                     RemoveAll w3))))"

subsection \<open>The contract\<close>

lemma ir_execute_closed [simp]: "closed_result (fst (ir_execute h r req d tail env w))"
  by (simp add: ir_execute_def closed_result_def Let_def split: prod.splits option.splits)

lemma ir_executeTest_closed [simp]: "closed_result (fst (ir_executeTest h r req d target tc w))"
  by (simp add: ir_executeTest_def closed_result_def Let_def split: prod.splits option.splits)

lemma ir_executeTrace_closed [simp]: "closed_result (fst (ir_executeTrace h r req d target root tc w))"
  by (simp add: ir_executeTrace_def closed_result_def Let_def split: prod.splits option.splits)

lemma ir_runTest_closed [simp]: "closed_result (fst (ir_runTest h r req w))"
  by (simp add: ir_runTest_def Let_def split_beta split: option.split sum.split)

lemma ir_runTrace_closed [simp]: "closed_result (fst (ir_runTrace h r req w))"
  by (simp add: ir_runTrace_def Let_def split_beta split: option.split sum.split)

lemma ir_Run_closed: "closed_result (fst (ir_Run h r req w))"
  by (simp add: ir_Run_def Let_def split_beta split: option.split sum.split)

text \<open>A batch either failed before anything ran, or is a run of the loop.\<close>

lemma ir_RunBatch_cases:
  assumes "ir_RunBatch h r req n w = (b, w')"
  obtains (failed) "b = internal_batch"
    | (ran) start d tail env rs ab w0 w1 where
      "batchLoop (clock h) (gone h) start n
         (\<lambda>stdin. ir_execute h r (req\<lparr>Stdin := stdin\<rparr>) d tail env) (Stdins req) w0 = (rs, ab, w1)"
      "b = zero_batch\<lparr>BatchStatus := BatchStatusOK, Results := rs, Aborted := ab\<rparr>"
proof -
  obtain start w0 where c: "clock h w = (start, w0)" by fastforce
  obtain od w1 where m: "MkdirTemp h ''dalivim-run-*'' w0 = (od, w1)" by fastforce
  show thesis
  proof (cases od)
    case None
    with assms c m show thesis by (intro failed) (simp add: ir_RunBatch_def)
  next
    case (Some d)
    obtain p w2 where p: "ir_prepare h r req w1 = (p, w2)" by fastforce
    show thesis
    proof (cases p)
      case (Inl e)
      with assms c m p Some show thesis by (intro failed) (simp add: ir_RunBatch_def)
    next
      case (Inr te)
      obtain tail env where te: "te = (tail, env)" by fastforce
      obtain rs ab w3 where "batchLoop (clock h) (gone h) start n
         (\<lambda>stdin. ir_execute h r (req\<lparr>Stdin := stdin\<rparr>) d tail env) (Stdins req) w2 = (rs, ab, w3)"
        by (metis prod_cases3)
      with assms c m p Some Inr te show thesis by (intro ran) (auto simp: ir_RunBatch_def)
    qed
  qed
qed

lemma ir_RunBatch_formed: "batch_formed req (fst (ir_RunBatch h r req n w))"
proof -
  obtain b w' where b: "ir_RunBatch h r req n w = (b, w')" by fastforce
  then show ?thesis
  proof (cases rule: ir_RunBatch_cases)
    case failed
    with b show ?thesis by (simp add: batch_formed_def)
  next
    case (ran start d tail env rs ab w0 w1)
    from batchLoop_length [OF ran(1)] batch_results_closed [OF ran(1) ir_execute_closed] ran(2) b
    show ?thesis by (simp add: batch_formed_def)
  qed
qed

interpretation interpreted: runtime_contract "ir_Run h r" "ir_RunBatch h r" for h :: "'w host" and r
  by unfold_locales (rule ir_Run_closed, rule ir_RunBatch_formed)

subsection \<open>One execution, taken apart\<close>

lemma ir_execute_cases:
  assumes "ir_execute h r req d tail env w = (res, w')"
  obtains (refused) "Command h (ir_run_spec r req d tail) w = (None, w')"
      "res = internal_result ''sandbox containment unavailable''"
    | (ran) cmd0 acct w1 cmd ch io oom where
      "Command h (ir_run_spec r req d tail) w = (Some (cmd0, acct), w1)"
      "cmd = cmd0\<lparr>StdinData := Stdin req, Env := Some env, Deadline := ms_ns (TimeoutMs req)\<rparr>"
      "Launched w' = Launched w @ [cmd]" "Sb w' = Sb w1"
      "\<exists>w2. ch = fst (cmd_Run h cmd w2) \<and> Work w2 = Work w"
      "io = run_events (let n = effectiveOutputLimit (OutputLimitBytes req) (irOutputLimit r) in start_io n n) (Events ch)"
      "Stdout res = encodeStream (Encoding req) (lb_String (OutB io))"
      "Stderr res = encodeStream (Encoding req) (lb_String (ErrB io))"
      "StdoutTruncated res = truncated (OutB io)" "ExitCode res = child_exit ch" "acct = None \<Longrightarrow> \<not> oom"
      "Status res = run_status (Cause io) (RunErr ch) oom (mem_marker (lMemErrSubstr (irSpec r)) (Stderr res))"
proof (cases "Command h (ir_run_spec r req d tail) w")
  case (Pair ca w1)
  show thesis
  proof (cases ca)
    case None
    with Pair assms show thesis by (intro refused) (simp_all add: ir_execute_def)
  next
    case (Some cp)
    obtain cmd0 acct where cp: "cp = (cmd0, acct)" by fastforce
    let ?cmd = "cmd0\<lparr>StdinData := Stdin req, Env := Some env, Deadline := ms_ns (TimeoutMs req)\<rparr>"
    let ?w2 = "snd (clock h w1)" let ?w3 = "snd (cmd_Run h ?cmd ?w2)" let ?w4 = "snd (clock h ?w3)"
    have w1: "Launched w1 = Launched w" "Work w1 = Work w"
      using Command_keeps [of h "ir_run_spec r req d tail" w] Pair by simp_all
    note ex = assms [unfolded ir_execute_def Pair prod.case Some option.case cp Let_def split_beta]
    show thesis
      by (rule ran [of cmd0 acct w1 ?cmd "fst (cmd_Run h ?cmd ?w2)" _ "acct_OOMKilled h acct ?w4"])
        (use ex w1 Pair Some cp in \<open>auto simp: Let_def acct_OOMKilled_def\<close>)
  qed
qed

lemma ir_executeTest_launch:
  "launch_shape h (ir_test_spec r req d (tcArgvTail tc target (tcReportFile tc))) w
     (snd (ir_executeTest h r req d target tc w))"
  by (auto simp: ir_executeTest_def Let_def split_beta intro: launch_shape_refused launch_shape_ran
      split: prod.split option.split)

lemma ir_executeTrace_launch:
  "launch_shape h (ir_test_spec r req d (trArgvTail tc)) w
     (snd (ir_executeTrace h r req d target root tc w))"
  by (auto simp: ir_executeTrace_def Let_def split_beta intro: launch_shape_refused launch_shape_ran
      split: prod.split option.split)

lemma ir_execute_launch:
  "launch_shape h (ir_run_spec r req d tail) w (snd (ir_execute h r req d tail env w))"
  by (auto simp: ir_execute_def Let_def split_beta intro: launch_shape_refused launch_shape_ran
      split: prod.split option.split)

lemma ir_prepare_keeps: "ir_prepare h r req w = (p, w') \<Longrightarrow> Sb w' = Sb w \<and> Launched w' = Launched w"
  by (auto simp: ir_prepare_def dest: WriteFile_keeps split: if_splits option.splits sum.splits)

lemma ir_prepareTest_keeps: "ir_prepareTest h req f w = (p, w') \<Longrightarrow> Sb w' = Sb w \<and> Launched w' = Launched w"
  by (auto simp: ir_prepareTest_def dest: WriteFile_keeps split: if_splits option.splits sum.splits)

lemma ir_prepareTrace_keeps: "ir_prepareTrace h r req w = (p, w') \<Longrightarrow> Sb w' = Sb w \<and> Launched w' = Launched w"
  by (auto simp: ir_prepareTrace_def dest: WriteFile_keeps split: if_splits option.splits sum.splits)

text \<open>The posture of an interpreted jail; only test and trace mode may write the working directory.\<close>

definition interpreted_posture :: "interpretedRuntime \<Rightarrow> RunRequest \<Rightarrow> Spec \<Rightarrow> bool" where
  "interpreted_posture r req spec \<longleftrightarrow>
     (Writable spec \<longleftrightarrow> Mode req \<in> {modeTest, modeTrace}) \<and> Seccomp spec = SeccompDenylist \<and>
     \<not> TracerProcfs spec \<and> \<not> UnlimitedAddressSpace spec \<and> hd (Argv spec) = irBin r \<and>
     SpecTimeoutMs spec = TimeoutMs req \<and> SpecMemoryMB spec = MemoryMB req \<and>
     MaxProcesses spec = irMaxProcesses r \<and> MaxFileSizeMB spec = irMaxFileSizeMB r"

lemma ir_specs_posture:
  "Mode req \<notin> {modeTest, modeTrace} \<Longrightarrow> interpreted_posture r req (ir_run_spec r req d tail)"
  "Mode req \<in> {modeTest, modeTrace} \<Longrightarrow> interpreted_posture r req (ir_test_spec r req d tail)"
  by (simp_all add: interpreted_posture_def ir_run_spec_def ir_test_spec_def zero_spec_def Let_def)

lemma ir_steps_posture:
  assumes "Sb v = Nsjail s" and "Launched v = Launched w"
  shows "Mode req \<notin> {modeTest, modeTrace} \<Longrightarrow> ir_execute h r req d tail env v = (res, w') \<Longrightarrow>
      ran_upto s [interpreted_posture r req] w w'"
    and "Mode req \<in> {modeTest, modeTrace} \<Longrightarrow> ir_executeTest h r req d target tc v = (res, w') \<Longrightarrow>
      ran_upto s [interpreted_posture r req] w w'"
    and "Mode req \<in> {modeTest, modeTrace} \<Longrightarrow> ir_executeTrace h r req d target root trc v = (res, w') \<Longrightarrow>
      ran_upto s [interpreted_posture r req] w w'"
  using ran_upto_step [where Q = "interpreted_posture r req", OF _ assms]
    ir_specs_posture ir_execute_launch ir_executeTest_launch ir_executeTrace_launch
  by (metis snd_conv)+

lemma ir_Run_ran:
  assumes "ir_Run h r req w = (res, w')" and "Sb w = Nsjail s"
  shows "ran_upto s [interpreted_posture r req] w w'"
proof -
  consider (test) "Mode req = modeTest" | (trace) "Mode req = modeTrace" "Mode req \<noteq> modeTest"
    | (run) "Mode req \<notin> {modeTest, modeTrace}" by blast
  then show ?thesis
  proof cases
    case test
    with assms have t: "ir_runTest h r req w = (res, w')" by (simp add: ir_Run_def)
    show ?thesis
      using t assms(2) test
      by (auto simp: ir_runTest_def Let_def split: option.splits prod.splits sum.splits
          dest!: MkdirTemp_keeps ir_prepareTest_keeps intro: ir_steps_posture)
  next
    case trace
    with assms have t: "ir_runTrace h r req w = (res, w')" by (simp add: ir_Run_def)
    show ?thesis
      using t assms(2) trace
      by (auto simp: ir_runTrace_def Let_def split: option.splits prod.splits sum.splits
          dest!: MkdirTemp_keeps ir_prepareTrace_keeps WriteFile_keeps intro: ir_steps_posture)
  next
    case run
    with assms show ?thesis
      by (auto simp: ir_Run_def Let_def split: option.splits prod.splits sum.splits
          dest!: MkdirTemp_keeps ir_prepare_keeps intro: ir_steps_posture)
  qed
qed

lemma interpreted_posture_Stdin: "interpreted_posture r (req\<lparr>Stdin := x\<rparr>) = interpreted_posture r req"
  by (simp add: interpreted_posture_def fun_eq_iff)

lemma ir_execute_batch_posture:
  assumes "Mode req \<notin> {modeTest, modeTrace}" and "Sb u = Nsjail s"
  shows "ran_upto s [interpreted_posture r req] u (snd (ir_execute h r (req\<lparr>Stdin := x\<rparr>) dir tail env u))"
  using ir_steps_posture(1) [OF assms(2) refl, of "req\<lparr>Stdin := x\<rparr>" h r dir tail env] assms(1)
  by (metis interpreted_posture_Stdin RunRequest.select_convs(12) RunRequest.surjective RunRequest.update_convs(5) prod.collapse)

lemma ir_RunBatch_ran:
  assumes "ir_RunBatch h r req n w = (b, w')" and "Sb w = Nsjail s" and "Mode req \<notin> {modeTest, modeTrace}"
  shows "\<exists>k\<le>length (Results b). ran_upto s (replicate k (interpreted_posture r req)) w w'"
proof -
  obtain start w0 where c: "clock h w = (start, w0)" by fastforce
  obtain d w1 where m: "MkdirTemp h ''dalivim-run-*'' w0 = (d, w1)" by fastforce
  have k1: "Sb w1 = Nsjail s" "Launched w1 = Launched w"
    using clock_keeps [of h w] MkdirTemp_keeps [OF m] c assms(2) by simp_all
  have none: "?thesis" if "Sb w' = Sb w" "Launched w' = Launched w"
    using ran_none [OF assms(2) that] by (intro exI [of _ 0]) (simp add: ran_upto_def)
  show ?thesis
  proof (cases d)
    case None
    with assms(1) c m have "w' = w1" by (simp add: ir_RunBatch_def)
    with k1 assms(2) none show ?thesis by simp
  next
    case (Some dir)
    obtain p w2 where p: "ir_prepare h r req w1 = (p, w2)" by fastforce
    have k2: "Sb w2 = Nsjail s" "Launched w2 = Launched w" using ir_prepare_keeps [OF p] k1 by simp_all
    show ?thesis
    proof (cases p)
      case (Inl e)
      with assms(1) c m Some p have "w' = RemoveAll w2" by (simp add: ir_RunBatch_def)
      with k2 assms(2) none show ?thesis by (simp add: RemoveAll_def)
    next
      case (Inr te)
      obtain tail env where te: "te = (tail, env)" by fastforce
      obtain rs ab w3 where l: "batchLoop (clock h) (gone h) start n
          (\<lambda>stdin. ir_execute h r (req\<lparr>Stdin := stdin\<rparr>) dir tail env) (Stdins req) w2 = (rs, ab, w3)"
        by (metis prod_cases3)
      from assms(1) c m Some p Inr te l have b: "Results b = rs" "w' = RemoveAll w3"
        by (auto simp: ir_RunBatch_def)
      from batchLoop_ran [OF ir_execute_batch_posture [OF assms(3)] l k2(1)] obtain k where k: "k \<le> length rs"
        "ran s (replicate k (interpreted_posture r req)) w2 w3" by blast
      then have "ran s (replicate k (interpreted_posture r req)) w w'"
        using k2(2) b(2) by (simp add: ran_def RemoveAll_def)
      with k(1) b(1) show ?thesis by (auto intro: ran_uptoI [where Rs = "[]"])
    qed
  qed
qed


subsection \<open>A closed example\<close>

definition demo_python :: interpretedRuntime where
  "demo_python =
     \<lparr>irSpec = pythonSpec, irBin = ''/usr/bin/python3'', irVersion = ''3.12.3'', irOutputLimit = 65536,
      irMaxProcesses = 0, irMaxFileSizeMB = 16, irMaxReportBytes = 65536, irMaxTraceReportBytes = 65536,
      irMaxTraceSteps = 0\<rparr>"

definition demo_request :: RunRequest where
  "demo_request = zero_request\<lparr>Language := ''python'', SourceCode := ''print(1)'', TimeoutMs := 3000,
     MemoryMB := 128\<rparr>"

lemmas demo_run_defs =
  demo_python_def demo_request_def demo_world_def plain_jail_def demo_host_def demo_child_def demo_os_def

text \<open>A host whose child fails with the given standard error text.\<close>

definition failing_host :: "bytes \<Rightarrow> int host" where
  "failing_host err = demo_host\<lparr>spawn := (\<lambda>c t w.
     (\<lparr>Events = [ErrChunk err], RunErr = True, PState = Some \<lparr>PExit = 1, PSignal = None, PMaxrss = 0\<rparr>\<rparr>, t, w))\<rparr>"

lemma demo_run:
  "Launched (snd (ir_Run demo_host demo_python demo_request demo_world)) \<noteq> [] \<and>
   Status (fst (ir_Run demo_host demo_python demo_request demo_world)) = StatusSuccess"
  by (simp add: ir_Run_def ir_prepare_def ir_execute_def demo_run_defs pythonSpec_def zero_request_def
      modeTest_def modeTrace_def MkdirTemp_def WriteFile_def write_file_def fresh_dir_def Command_def
      nsjail_Command_def clock_def cmd_Run_def Let_def run_status_def start_io_def new_buffer_def
      lb_write_def effectiveOutputLimit_def onFlood_def acct_Close_def fits64_def)


subsection \<open>Output\<close>

lemma captured_stream:
  assumes "0 \<le> n" and "fits64 n" and "[] \<notin> set (out_chunks evs)"
  shows "lb_String (OutB (run_events (start_io n m) evs)) =
      take (nat n) (concat (out_chunks evs)) @ (if n < len (concat (out_chunks evs)) then truncation_marker else [])"
  using limitedBuffer_prefix [OF assms] by (simp add: run_events_out start_io_def lb_String_def lb_raw_def)

text \<open>C34: What a run shows of its output: the rendering, in the requested encoding, of the first bytes the
  program wrote, as many as the request's output limit allows (the configured ceiling if the request
  gives none or more), followed by the truncation marker exactly when the program wrote more; and the
  truncation flag says the same.\<close>
theorem interpreted_output:
  assumes "ir_execute h r req d tail env w = (res, w')"
    and "Launched w' \<noteq> Launched w"
    and "0 < irOutputLimit r" and "fits64 (irOutputLimit r)"
    and "\<And>cmd t v. [] \<notin> set (out_chunks (Events (fst (spawn h cmd t v))))"
  shows "\<exists>cmd v. let n = effectiveOutputLimit (OutputLimitBytes req) (irOutputLimit r);
      written = concat (out_chunks (Events (fst (spawn h cmd (Work w) v)))) in
    Launched w' = Launched w @ [cmd] \<and> StdinData cmd = Stdin req \<and> n \<le> irOutputLimit r \<and>
    Stdout res = encodeStream (Encoding req)
      (take (nat n) written @ (if n < len written then truncation_marker else [])) \<and>
    (StdoutTruncated res \<longleftrightarrow> n < len written)"
  using assms(1)
proof (cases rule: ir_execute_cases)
  case refused
  then have "Launched w' = Launched w"
    using Command_keeps(1) [of h "ir_run_spec r req d tail" w] by simp
  with assms(2) show ?thesis by simp
next
  case (ran cmd0 acct w1 cmd ch io oom)
  let ?n = "effectiveOutputLimit (OutputLimitBytes req) (irOutputLimit r)"
  from ran(5) obtain e where ch: "ch = fst (spawn h cmd (Work w) e)"
    by (auto simp: cmd_Run_def split_beta)
  have ne: "[] \<notin> set (out_chunks (Events ch))" using assms(5) ch by blast
  have n: "0 \<le> ?n" "fits64 ?n" "?n \<le> irOutputLimit r"
    using assms(3,4) by (auto simp: effectiveOutputLimit_def fits64_def)
  have io: "io = run_events (start_io ?n ?n) (Events ch)" using ran(6) by (simp add: Let_def)
  have "Stdout res = encodeStream (Encoding req) (take (nat ?n) (concat (out_chunks (Events ch))) @
      (if ?n < len (concat (out_chunks (Events ch))) then truncation_marker else []))"
    unfolding ran(7) io captured_stream [OF n(1,2) ne] ..
  moreover have "StdoutTruncated res \<longleftrightarrow> ?n < len (concat (out_chunks (Events ch)))"
    unfolding ran(9) io using limitedBuffer_prefix [OF n(1,2) ne] by (simp add: run_events_out start_io_def)
  moreover have "StdinData cmd = Stdin req" by (simp add: ran(2))
  ultimately show ?thesis using ran(3) n(3) unfolding Let_def ch by blast
qed

definition tiny_request :: RunRequest where
  "tiny_request = demo_request\<lparr>OutputLimitBytes := 3\<rparr>"

lemma demo_execute:
  "Launched (snd (ir_execute demo_host demo_python tiny_request ''/tmp/r'' [''main.py''] [] demo_world)) \<noteq> Launched demo_world"
  by (simp add: ir_execute_def demo_run_defs pythonSpec_def zero_request_def tiny_request_def
      Command_def nsjail_Command_def clock_def cmd_Run_def Let_def acct_Close_def)

theorem interpreted_output_witness:
  "Stdout (fst (ir_execute demo_host demo_python tiny_request ''/tmp/r'' [''main.py''] [] demo_world)) =
     ''hel'' @ truncation_marker"
proof -
  obtain res w' where r: "ir_execute demo_host demo_python tiny_request ''/tmp/r'' [''main.py''] [] demo_world = (res, w')"
    by fastforce
  have l: "Launched w' \<noteq> Launched demo_world" using demo_execute r by simp
  have c: "[] \<notin> set (out_chunks (Events (fst (spawn demo_host cmd t v))))" for cmd t v
    by (simp add: demo_host_def demo_child_def)
  have lim: "0 < irOutputLimit demo_python" "fits64 (irOutputLimit demo_python)"
    by (simp_all add: demo_python_def fits64_def)
  have nb: "\<not> wantBase64 []" by code_simp
  from interpreted_output [OF r l lim c] obtain cmd v where
    "Stdout res = encodeStream (Encoding tiny_request)
       (take 3 (concat (out_chunks (Events (fst (spawn demo_host cmd (Work demo_world) v))))) @
        (if 3 < len (concat (out_chunks (Events (fst (spawn demo_host cmd (Work demo_world) v))))) then truncation_marker else []))"
    by (auto simp: Let_def effectiveOutputLimit_def tiny_request_def demo_python_def)
  then have "Stdout res = ''hel'' @ truncation_marker"
    using nb by (simp add: demo_host_def demo_child_def tiny_request_def demo_request_def zero_request_def encodeStream_def)
  with r show ?thesis by simp
qed

subsection \<open>The memory fallback under base64\<close>

lemma b64_encode_chars: "c \<in> set (b64_encode s) \<Longrightarrow> c \<in> set b64_alphabet \<or> c = CHR ''=''"
proof (induction s rule: b64_encode.induct)
  case (4 a b c' rest)
  then show ?case by (auto simp: b64_char_def)
qed (auto simp: b64_char_def)

lemma mem_marker_base64:
  assumes "c \<in> set sub" and "c \<notin> set b64_alphabet" and "c \<noteq> CHR ''=''"
  shows "\<not> mem_marker sub (b64_encode s)"
proof
  assume "mem_marker sub (b64_encode s)"
  then obtain p q where "b64_encode s = p @ sub @ q" by (auto simp: mem_marker_def contains_str_iff)
  with assms(1) have "c \<in> set (b64_encode s)" by simp
  with b64_encode_chars assms(2,3) show False by blast
qed

text \<open>C38: A defect: the stderr marker is looked for in the rendered stream. When a request asks for base64
  streams and no cgroup accounts the run, a Lua, PHP or SQL program that runs out of memory can never
  be reported as such, whatever it prints: the markers of these languages contain a blank, and a
  base64 text contains none.\<close>
theorem base64_disables_memory_fallback:
  assumes "wantBase64 (Encoding req)" and "irSpec r \<in> {luaSpec, phpSpec, sqliteSpec}"
    and "Sb w = Nsjail s" and "nj_cg s = None" and "Mode req \<notin> {modeTest, modeTrace}"
  shows "Status (fst (ir_Run h r req w)) \<noteq> StatusMemoryExceeded"
proof -
  have blank: "CHR '' '' \<in> set (lMemErrSubstr (irSpec r))"
    using assms(2) by (auto simp: interpreted_spec_defs)
  have nb: "CHR '' '' \<notin> set b64_alphabet" by (simp add: b64_alphabet_def)
  have ex: "Status (fst (ir_execute h r req d tail env v)) \<noteq> StatusMemoryExceeded"
    if v: "Sb v = Nsjail s" for d tail env v
  proof -
    obtain res w' where e: "ir_execute h r req d tail env v = (res, w')" by fastforce
    then show ?thesis
    proof (cases rule: ir_execute_cases)
      case refused
      then show ?thesis using e by simp
    next
      case (ran cmd0 acct w1 cmd ch io oom)
      have "acct = None"
        using Command_sb [OF ran(1)] v assms(4) by (auto simp: nsjail_Command_def)
      then have "\<not> oom" using ran(11) by blast
      moreover have "\<not> mem_marker (lMemErrSubstr (irSpec r)) (Stderr res)"
        unfolding ran(8) using mem_marker_base64 [OF blank nb] assms(1) by (simp add: encodeStream_def)
      ultimately show ?thesis using ran(12) e run_status_values by auto
    qed
  qed
  show ?thesis
  proof (cases "MkdirTemp h ''dalivim-run-*'' w")
    case (Pair od w1)
    with MkdirTemp_keeps [OF Pair] assms(3) have "Sb w1 = Nsjail s" by simp
    then have "Sb (snd (ir_prepare h r req w1)) = Nsjail s"
      using ir_prepare_keeps [OF surjective_pairing, of h r req w1] by simp
    with Pair assms(5) ex show ?thesis
      by (auto simp: ir_Run_def split_beta split: option.split sum.split)
  qed
qed

definition demo_lua :: interpretedRuntime where
  "demo_lua = demo_python\<lparr>irSpec := luaSpec, irBin := ''/usr/bin/lua5.4''\<rparr>"

definition lua_request :: "bytes \<Rightarrow> RunRequest" where
  "lua_request enc = demo_request\<lparr>Language := ''lua'', Encoding := enc\<rparr>"

text \<open>The same Lua program, out of memory, with plain and with base64 streams.\<close>

lemma lua_oom_plain:
  "Status (fst (ir_Run (failing_host ''lua: not enough memory'') demo_lua (lua_request []) demo_world)) =
     StatusMemoryExceeded"
proof -
  have w: "\<not> wantBase64 []" by code_simp
  show ?thesis
    by (simp add: ir_Run_def ir_prepare_def ir_execute_def demo_run_defs luaSpec_def zero_request_def
      modeTest_def modeTrace_def MkdirTemp_def WriteFile_def write_file_def fresh_dir_def Command_def
      nsjail_Command_def clock_def cmd_Run_def Let_def run_status_def start_io_def new_buffer_def
      lb_write_def effectiveOutputLimit_def onFlood_def acct_Close_def fits64_def demo_lua_def
      lua_request_def failing_host_def mem_marker_def encodeStream_def w lb_String_def zero_result_def)
qed

theorem base64_disables_memory_fallback_witness:
  "Status (fst (ir_Run (failing_host ''lua: not enough memory'') demo_lua (lua_request []) demo_world)) = StatusMemoryExceeded \<and>
   Status (fst (ir_Run (failing_host ''lua: not enough memory'') demo_lua (lua_request ''base64'') demo_world)) \<noteq> StatusMemoryExceeded"
proof -
  have "wantBase64 ''base64''" by code_simp
  then have "Status (fst (ir_Run (failing_host ''lua: not enough memory'') demo_lua (lua_request ''base64'') demo_world))
      \<noteq> StatusMemoryExceeded"
    by (intro base64_disables_memory_fallback [of _ _ _ plain_jail])
      (simp_all add: lua_request_def demo_lua_def demo_world_def plain_jail_def demo_request_def
        zero_request_def modeTest_def modeTrace_def)
  with lua_oom_plain show ?thesis by blast
qed

subsection \<open>The wrapper of a Python submission\<close>

lemma path_ok_plain:
  assumes "path_ok p raw"
  shows "\<forall>c\<in>set raw. plain_char c"
proof
  fix c assume "c \<in> set raw"
  then have "c \<in> set (join_with ''/'' (split_on CHR ''/'' raw))" by (simp add: join_split)
  then have "c = CHR ''/'' \<or> (\<exists>w\<in>set (split_on CHR ''/'' raw). c \<in> set w)"
    using set_join_with [of "CHR ''/''" "split_on CHR ''/'' raw"] by auto
  moreover have "in_class path_ranges c" if "w \<in> set (split_on CHR ''/'' raw)" "c \<in> set w" for w
    using assms that comp_in_path by (auto simp: path_ok_def Let_def comp_ok_def list_all_iff)
  ultimately have "in_class path_ranges c" by (auto simp: in_class_def path_ranges_def)
  then show "plain_char c"
    by (auto simp: plain_char_def in_class_def path_ranges_def alnum_ranges_def less_eq_char_def)
qed

text \<open>The Python wrapper cannot be broken out of. For an entrypoint that the file policy accepts, the program
  text passed with \<open>-c\<close> is the fixed wrapper with the entrypoint's own bytes between its quotes, and
  those bytes contain no quote, backslash or control character.\<close>
theorem python_wrapper_fixed:
  assumes "path_ok p entry"
  shows "pythonRunpyArgs (srcRel entry) =
    [''-s'', ''-P'', ''-B'', ''-c'',
     ''import runpy, sys; sys.path.insert(0, '' @ [CHR 0x22] @ ''src'' @ [CHR 0x22] @
     ''); runpy.run_path('' @ [CHR 0x22] @ ''src/'' @ entry @ [CHR 0x22] @
     '', run_name='' @ [CHR 0x22] @ ''__main__'' @ [CHR 0x22] @ '')''] \<and>
    (\<forall>c\<in>set entry. plain_char c)"
proof -
  have pl: "plain_char CHR ''s''" "plain_char CHR ''r''" "plain_char CHR ''c''" "plain_char CHR ''/''"
    "plain_char CHR ''_''" "plain_char CHR ''m''" "plain_char CHR ''a''" "plain_char CHR ''i''" "plain_char CHR ''n''"
    by (simp_all add: plain_char_def less_eq_char_def)
  have q: "go_quote (srcRel entry) = [CHR 0x22] @ srcRel entry @ [CHR 0x22]"
    "go_quote srcRootName = [CHR 0x22] @ srcRootName @ [CHR 0x22]"
    "go_quote ''__main__'' = [CHR 0x22] @ ''__main__'' @ [CHR 0x22]"
    by (rule go_quote_plain; use path_ok_plain [OF assms] pl in \<open>simp add: srcRel_def srcRootName_def\<close>)+
  show ?thesis
    unfolding pythonRunpyArgs_def Let_def q using path_ok_plain [OF assms]
    by (simp add: srcRel_def srcRootName_def)
qed

theorem python_wrapper_fixed_witness:
  "length (pythonRunpyArgs (srcRel ''pkg/util.py'')) = 5 \<and> list_all plain_char ''pkg/util.py''"
  using python_wrapper_fixed [of demo_policy "''pkg/util.py''"] demo_path_ok by (simp add: list_all_iff)

end
