(* ===== verification/Compiled.thy ===== *)
theory Compiled
  imports RunCore CompiledSpecs
begin

text \<open>
  \<^verbatim>\<open>internal/executor/compiled.go\<close>: the runtime of one compiled language. A request is planned,
  compiled in one jail, its artifact validated, and run in a second, stricter jail; test mode uses
  one toolchain jail and trace mode a debug build followed by the tracer's jail.
\<close>

record compiledRuntime =
  crSpec :: compiledLangSpec
  crCompilerBin :: bytes
  crRunBin :: bytes
  crArtifact :: bytes
  crVersion :: bytes
  crOutputLimit :: int
  crMaxProcesses :: int
  crMaxFileSizeMB :: int
  crCompileMemoryMB :: int
  crMaxArtifactBytes :: int
  crRunSeccomp :: SeccompProfile
  crMaxReportBytes :: int
  crTracerBin :: bytes
  crMaxTraceSteps :: int
  crMaxTraceReportBytes :: int

record CompiledConfig =
  ccOutputLimit :: int
  ccMaxProcesses :: int
  ccMaxFileSizeMB :: int
  ccCompileMemoryMB :: int
  ccMaxArtifactBytes :: int
  ccRunSeccomp :: SeccompProfile
  ccMaxReportBytes :: int

definition newCompiled ::
  "'w host \<Rightarrow> compiledLangSpec \<Rightarrow> CompiledConfig \<Rightarrow> 'w \<Rightarrow> compiledRuntime \<times> 'w" where
  "newCompiled h spec cfg w =
     (let bin = resolveBin h (cBinNames spec);
          runSeccomp = (if cStaticAllowlistOK spec then ccRunSeccomp cfg else SeccompDenylist);
          artifact = (if cArtifact spec = [] then defaultArtifact else cArtifact spec);
          runBin = (if cRunBin spec \<noteq> [] then resolveBin h (cRunBin spec) else []);
          tracerBin = (case traceCommands (embedded h) (cName spec) of
                         None \<Rightarrow> []
                       | Some tc \<Rightarrow> if isCompiledTrace tc then resolveBin h (trTracerBin tc) else []);
          (version, w1) = detectVersion h bin (cVersionArgs spec) (cParseVersion spec) w
      in (\<lparr>crSpec = spec, crCompilerBin = bin, crRunBin = runBin, crArtifact = artifact,
           crVersion = version, crOutputLimit = ccOutputLimit cfg, crMaxProcesses = ccMaxProcesses cfg,
           crMaxFileSizeMB = ccMaxFileSizeMB cfg, crCompileMemoryMB = ccCompileMemoryMB cfg,
           crMaxArtifactBytes = ccMaxArtifactBytes cfg, crRunSeccomp = runSeccomp,
           crMaxReportBytes = ccMaxReportBytes cfg, crTracerBin = tracerBin,
           crMaxTraceSteps = 0, crMaxTraceReportBytes = 0\<rparr>, w1))"

type_synonym 'w cr_new = "CompiledConfig \<Rightarrow> 'w \<Rightarrow> compiledRuntime \<times> 'w"

definition NewC :: "'w host \<Rightarrow> 'w cr_new" where "NewC h = newCompiled h cSpec"
definition NewCpp :: "'w host \<Rightarrow> 'w cr_new" where "NewCpp h = newCompiled h cppSpec"
definition NewGo :: "'w host \<Rightarrow> 'w cr_new" where "NewGo h = newCompiled h goSpec"
definition NewRust :: "'w host \<Rightarrow> 'w cr_new" where "NewRust h = newCompiled h rustSpec"
definition NewOdin :: "'w host \<Rightarrow> 'w cr_new" where "NewOdin h = newCompiled h odinSpec"
definition NewJava :: "'w host \<Rightarrow> 'w cr_new" where "NewJava h = newCompiled h javaSpec"
definition NewTypeScript :: "'w host \<Rightarrow> 'w cr_new" where "NewTypeScript h = newCompiled h typescriptSpec"
definition NewCSharp :: "'w host \<Rightarrow> 'w cr_new" where "NewCSharp h = newCompiled h csharpSpec"

lemmas cr_constructors = NewC_def NewCpp_def NewGo_def NewRust_def NewOdin_def NewJava_def NewTypeScript_def NewCSharp_def

definition cr_WithTraceLimits :: "compiledRuntime \<Rightarrow> int \<Rightarrow> int \<Rightarrow> compiledRuntime" where
  "cr_WithTraceLimits r reportBytes steps =
     (let r1 = (if reportBytes > 0 then r\<lparr>crMaxTraceReportBytes := reportBytes\<rparr> else r)
      in if steps > 0 then r1\<lparr>crMaxTraceSteps := steps\<rparr> else r1)"

subsection \<open>Planning\<close>

record buildPlan =
  bpCompileArgv :: "bytes list"
  bpArtifactRel :: bytes
  bpRunTemplate :: "bytes list"
  bpExtraCompileEnv :: "bytes list"

definition single_plan :: "compiledRuntime \<Rightarrow> buildPlan" where
  "single_plan r =
     \<lparr>bpCompileArgv = subst (cCompile (crSpec r) @ cLink (crSpec r))
        [(''{src}'', JailPath (cSourceFile (crSpec r))), (''{out}'', JailPath (crArtifact r)),
         (''{dir}'', JailMount)],
      bpArtifactRel = crArtifact r, bpRunTemplate = cRun (crSpec r), bpExtraCompileEnv = []\<rparr>"

definition cr_plan ::
  "'w host \<Rightarrow> compiledRuntime \<Rightarrow> RunRequest \<Rightarrow> 'w world \<Rightarrow> (bytes + buildPlan) \<times> 'w world" where
  "cr_plan h r req w =
     (if Files req = [] then
        (case WriteFile h [cSourceFile (crSpec r)] (SourceCode req) w of
           None \<Rightarrow> (Inl ''could not write source'', w)
         | Some w1 \<Rightarrow> (Inr (single_plan r), w1))
      else
        (case cMultiFile (crSpec r) of
           None \<Rightarrow> (Inl ''language does not support multi-file submissions'', w)
         | Some mf \<Rightarrow>
             (case materializeSource (faults h (Ext w)) (Work w) req of
                Inl e \<Rightarrow> (Inl (err_text h e), w)
              | Inr (t, files) \<Rightarrow>
                  (case (case mfPrep mf of None \<Rightarrow> Inr t | Some prep \<Rightarrow> prep (faults h (Ext w)) t) of
                     Inl e \<Rightarrow> (Inl (err_text h e), w\<lparr>Work := t\<rparr>)
                   | Inr t1 \<Rightarrow>
                       (Inr \<lparr>bpCompileArgv = mfCompileArgv mf files (Entrypoint req),
                             bpArtifactRel = mfArtifactRel mf (Entrypoint req),
                             bpRunTemplate = mfRunTemplate mf (Entrypoint req),
                             bpExtraCompileEnv = cMultiFileCompileEnv (crSpec r)\<rparr>,
                        w\<lparr>Work := t1\<rparr>)))))"

subsection \<open>Compiling\<close>

text \<open>
  The compiler's two streams share one buffer without a kill signal; of the events only the first
  cancellation matters besides.
\<close>

fun diag_deliver :: "limitedBuffer \<times> cancel_cause option \<Rightarrow> event \<Rightarrow> limitedBuffer \<times> cancel_cause option" where
  "diag_deliver (b, c) (OutChunk p) = (fst (lb_write b p), c)"
| "diag_deliver (b, c) (ErrChunk p) = (fst (lb_write b p), c)"
| "diag_deliver (b, c) DeadlineFires = (b, if c = None then Some CauseDeadline else c)"
| "diag_deliver (b, c) ParentDone = (b, if c = None then Some CauseParent else c)"

definition cr_compile_spec :: "compiledRuntime \<Rightarrow> RunRequest \<Rightarrow> bytes \<Rightarrow> buildPlan \<Rightarrow> Spec" where
  "cr_compile_spec r req workDir plan =
     (let argv = (if cCompileArgv0Absolute (crSpec r) then bpCompileArgv plan
                  else (bpCompileArgv plan)[0 := crCompilerBin r])
      in zero_spec\<lparr>Argv := argv, WorkDir := workDir, SpecTimeoutMs := CompileTimeoutMs req,
           AddressSpaceMB := (if cCapAddressSpace (crSpec r) then crCompileMemoryMB r else 0),
           UnlimitedAddressSpace := cUnlimitedAddressSpace (crSpec r),
           MaxOpenFiles := cMaxOpenFiles (crSpec r), SpecMemoryMB := crCompileMemoryMB r,
           MaxProcesses := crMaxProcesses r, MaxFileSizeMB := crMaxFileSizeMB r,
           TmpfsSizeMB := cCompileTmpfsMB (crSpec r), Writable := True, MinimalRootfs := False\<rparr>)"

definition compile_env :: "compiledRuntime \<Rightarrow> buildPlan \<Rightarrow> bytes list" where
  "compile_env r plan =
     [''PATH=/usr/local/go/bin:/usr/local/bin:/usr/bin:/bin'', ''TMPDIR=/tmp''] @
     cCompileEnv (crSpec r) @ bpExtraCompileEnv plan"

definition compile_failed :: "bytes \<Rightarrow> RunResult" where
  "compile_failed out = zero_result\<lparr>Status := StatusCompileError, CompileOutput := out\<rparr>"

definition cr_compile ::
  "'w host \<Rightarrow> compiledRuntime \<Rightarrow> RunRequest \<Rightarrow> bytes \<Rightarrow> buildPlan \<Rightarrow> 'w world \<Rightarrow> RunResult option \<times> 'w world" where
  "cr_compile h r req workDir plan w =
     (case Command h (cr_compile_spec r req workDir plan) w of
        (None, w1) \<Rightarrow> (Some (internal_result ''sandbox containment unavailable''), w1)
      | (Some (cmd0, acct), w1) \<Rightarrow>
          (let cmd = cmd0\<lparr>Env := Some (compile_env r plan), Deadline := ms_ns (CompileTimeoutMs req)\<rparr>;
               outputLimit = effectiveOutputLimit (OutputLimitBytes req) (crOutputLimit r);
               (ch, w2) = cmd_Run h cmd w1;
               (diag, cause) = foldl diag_deliver (new_buffer outputLimit, None) (Events ch);
               outcome =
                 (if cause = Some CauseDeadline
                  then Some (compile_failed (lb_String diag @ nl @ ''[compile timed out]''))
                  else if RunErr ch then Some (compile_failed (lb_String diag))
                  else (case os_Stat h (Work w2) (comps_of (bpArtifactRel plan)) (Ext w2) of
                          None \<Rightarrow> Some (internal_result ''compile produced no artifact'')
                        | Some n \<Rightarrow>
                            if n = 0 then Some (internal_result ''compile produced no artifact'')
                            else if crMaxArtifactBytes r > 0 \<and> n > crMaxArtifactBytes r
                            then Some (internal_result ''compiled artifact exceeds size cap'')
                            else None))
           in (outcome, acct_Close h acct w2)))"

subsection \<open>Running the artifact\<close>

definition signalNames :: "int \<Rightarrow> bytes option" where
  "signalNames = map_of
     [(11, ''SIGSEGV''), (9, ''SIGKILL''), (6, ''SIGABRT''), (8, ''SIGFPE''), (7, ''SIGBUS''),
      (31, ''SIGSYS''), (4, ''SIGILL''), (15, ''SIGTERM''), (2, ''SIGINT''), (24, ''SIGXCPU''),
      (25, ''SIGXFSZ'')]"

definition signalName :: "child \<Rightarrow> bytes" where
  "signalName ch =
     (case PState ch of
        None \<Rightarrow> []
      | Some p \<Rightarrow> (case PSignal p of
                    None \<Rightarrow> []
                  | Some n \<Rightarrow> (case signalNames n of Some name \<Rightarrow> name | None \<Rightarrow> ''signal '' @ itoa n)))"

definition run_argv :: "compiledRuntime \<Rightarrow> RunRequest \<Rightarrow> buildPlan \<Rightarrow> bytes list" where
  "run_argv r req plan =
     (let argv = subst (bpRunTemplate plan)
            [(''{out}'', JailPath (bpArtifactRel plan)), (''{dir}'', JailMount), (''{mem}'', itoa (MemoryMB req))]
      in if crRunBin r \<noteq> [] then argv[0 := crRunBin r] else argv)"

definition cr_run_spec :: "compiledRuntime \<Rightarrow> RunRequest \<Rightarrow> bytes \<Rightarrow> buildPlan \<Rightarrow> Spec" where
  "cr_run_spec r req workDir plan =
     zero_spec\<lparr>Argv := run_argv r req plan, WorkDir := workDir, SpecTimeoutMs := TimeoutMs req,
       AddressSpaceMB := (if cCapAddressSpace (crSpec r) then MemoryMB req else 0),
       UnlimitedAddressSpace := cUnlimitedAddressSpace (crSpec r),
       MaxOpenFiles := cMaxOpenFiles (crSpec r), SpecMemoryMB := MemoryMB req,
       MaxProcesses := crMaxProcesses r, MaxFileSizeMB := crMaxFileSizeMB r, Writable := False,
       MinimalRootfs := \<not> cRunFullRootfs (crSpec r), Seccomp := crRunSeccomp r\<rparr>"

definition cr_execute ::
  "'w host \<Rightarrow> compiledRuntime \<Rightarrow> RunRequest \<Rightarrow> bytes \<Rightarrow> buildPlan \<Rightarrow> 'w world \<Rightarrow> RunResult \<times> 'w world" where
  "cr_execute h r req workDir plan w =
     (case Command h (cr_run_spec r req workDir plan) w of
        (None, w1) \<Rightarrow> (internal_result ''sandbox containment unavailable'', w1)
      | (Some (cmd0, acct), w1) \<Rightarrow>
          (let env = subst (cRunEnv (crSpec r)) [(''{memhex}'', memHex (MemoryMB req))];
               cmd = cmd0\<lparr>StdinData := Stdin req, Env := Some env, Deadline := ms_ns (TimeoutMs req)\<rparr>;
               outputLimit = effectiveOutputLimit (OutputLimitBytes req) (crOutputLimit r);
               (start, w2) = clock h w1;
               (ch, w3) = cmd_Run h cmd w2;
               (stop, w4) = clock h w3;
               io = run_events (start_io outputLimit outputLimit) (Events ch);
               res = zero_result
                 \<lparr>Stdout := encodeStream (Encoding req) (lb_String (OutB io)),
                  Stderr := encodeStream (Encoding req) (lb_String (ErrB io)),
                  StdoutTruncated := truncated (OutB io), StderrTruncated := truncated (ErrB io),
                  DurationMs := ms_since start stop, MemoryKB := memoryKB h acct ch w4,
                  Signal := signalName ch, ExitCode := child_exit ch\<rparr>;
               status = run_status (Cause io) (RunErr ch) (acct_OOMKilled h acct w4)
                 (mem_marker (cMemErrSubstr (crSpec r)) (Stderr res))
           in (res\<lparr>Status := status\<rparr>, acct_Close h acct w4)))"

subsection \<open>Test mode\<close>

definition cr_prepareTest ::
  "'w host \<Rightarrow> RunRequest \<Rightarrow> compiledTestCommand \<Rightarrow> 'w world \<Rightarrow> (bytes + unit) \<times> 'w world" where
  "cr_prepareTest h req tc w =
     (let (r, w1) =
        (if Files req = [] then
           (case mkdir_all (faults h (Ext w)) (Work w) [] [srcRootName] of
              None \<Rightarrow> (Inl (err_text h (MatOS srcRootName)), w)
            | Some t \<Rightarrow>
                (case WriteFile h [srcRootName, ctSourceFile tc] (SourceCode req) (w\<lparr>Work := t\<rparr>) of
                   None \<Rightarrow> (Inl ''could not write source'', w\<lparr>Work := t\<rparr>)
                 | Some w1 \<Rightarrow> (Inr (), w1)))
         else (case materializeSource (faults h (Ext w)) (Work w) req of
                 Inl e \<Rightarrow> (Inl (err_text h e), w)
               | Inr (t, _) \<Rightarrow> (Inr (), w\<lparr>Work := t\<rparr>)))
      in case r of
           Inl e \<Rightarrow> (Inl e, w1)
         | Inr _ \<Rightarrow>
             (case ctPrep tc of
                None \<Rightarrow> (Inr (), w1)
              | Some prep \<Rightarrow>
                  (case prep (faults h (Ext w1)) (Work w1) of
                     Inl e \<Rightarrow> (Inl (err_text h e), w1)
                   | Inr t \<Rightarrow> (Inr (), w1\<lparr>Work := t\<rparr>))))"

definition cr_test_spec :: "compiledRuntime \<Rightarrow> RunRequest \<Rightarrow> bytes \<Rightarrow> compiledTestCommand \<Rightarrow> Spec" where
  "cr_test_spec r req workDir tc =
     zero_spec\<lparr>Argv := subst (ctArgv tc) [(''{mem}'', itoa (MemoryMB req))], WorkDir := workDir,
       SpecTimeoutMs := TimeoutMs req, AddressSpaceMB := 0, SpecMemoryMB := MemoryMB req,
       MaxProcesses := crMaxProcesses r, MaxFileSizeMB := crMaxFileSizeMB r,
       TmpfsSizeMB := ctTmpfsMB tc, Writable := ctWritable tc, MinimalRootfs := False,
       Seccomp := SeccompDenylist\<rparr>"

definition cr_executeTest ::
  "'w host \<Rightarrow> compiledRuntime \<Rightarrow> RunRequest \<Rightarrow> bytes \<Rightarrow> compiledTestCommand \<Rightarrow> 'w world \<Rightarrow> RunResult \<times> 'w world" where
  "cr_executeTest h r req workDir tc w =
     (case Command h (cr_test_spec r req workDir tc) w of
        (None, w1) \<Rightarrow> (internal_result ''sandbox containment unavailable'', w1)
      | (Some (cmd0, acct), w1) \<Rightarrow>
          (let cmd = cmd0\<lparr>StdinData := [], Env := Some (ctEnv tc), Deadline := ms_ns (TimeoutMs req)\<rparr>;
               outputLimit = effectiveOutputLimit (OutputLimitBytes req) (crOutputLimit r);
               reportLimit = (if crMaxReportBytes r \<le> 0 then outputLimit else crMaxReportBytes r);
               (start, w2) = clock h w1;
               (ch, w3) = cmd_Run h cmd w2;
               (stop, w4) = clock h w3;
               io = run_events (start_io reportLimit outputLimit) (Events ch);
               (report, produced, reportTrunc) =
                 readTestReport (faults h (Ext w4)) (Work w4) (ctReportFile tc) (lb_raw (OutB io))
                   (crMaxReportBytes r);
               res = zero_result
                 \<lparr>Stdout := encodeStream (Encoding req) (lb_String (OutB io)),
                  Stderr := encodeStream (Encoding req) (lb_String (ErrB io)),
                  StdoutTruncated := truncated (OutB io), StderrTruncated := truncated (ErrB io),
                  DurationMs := ms_since start stop, MemoryKB := memoryKB h acct ch w4,
                  Signal := signalName ch, ReportFormat := ctReportFormat tc, ExitCode := child_exit ch,
                  TestReport := report,
                  TestReportTruncated := (reportTrunc \<or> ctReportFile tc = [] \<and> truncated (OutB io))\<rparr>;
               compileFailed =
                 (ctCompileFailExit tc \<noteq> 0 \<and> child_exit ch = ctCompileFailExit tc \<or>
                  ctBuildFailMarker tc \<noteq> [] \<and> contains_str report (ctBuildFailMarker tc));
               status = test_status (Cause io) (acct_OOMKilled h acct w4) compileFailed (child_exit ch)
                 (ctTestsFailedExit tc) produced
           in (res\<lparr>Status := status\<rparr>, acct_Close h acct w4)))"

definition cr_runTest ::
  "'w host \<Rightarrow> compiledRuntime \<Rightarrow> RunRequest \<Rightarrow> 'w world \<Rightarrow> RunResult \<times> 'w world" where
  "cr_runTest h r req w =
     (case compiledTestCommands (cName (crSpec r)) of
        None \<Rightarrow> (internal_result ''test mode not supported for this language'', w)
      | Some tc \<Rightarrow>
          (case MkdirTemp h ''dalivim-test-*'' w of
             (None, w1) \<Rightarrow> (internal_result ''could not create sandbox dir'', w1)
           | (Some workDir, w1) \<Rightarrow>
               (case cr_prepareTest h req tc w1 of
                  (Inl e, w2) \<Rightarrow> (internal_result e, RemoveAll w2)
                | (Inr _, w2) \<Rightarrow>
                    (case cr_executeTest h r req workDir tc w2 of (res, w3) \<Rightarrow> (res, RemoveAll w3)))))"

subsection \<open>Trace mode\<close>

definition plannedTraceTarget :: "compiledLangSpec \<Rightarrow> bytes" where
  "plannedTraceTarget spec = cSourceFile spec"

definition cr_trace_spec :: "compiledRuntime \<Rightarrow> RunRequest \<Rightarrow> bytes \<Rightarrow> traceCommand \<Rightarrow> Spec" where
  "cr_trace_spec r req workDir tc =
     zero_spec\<lparr>Argv := crTracerBin r # trArgvTail tc, WorkDir := workDir,
       SpecTimeoutMs := TimeoutMs req, AddressSpaceMB := 0,
       UnlimitedAddressSpace := cUnlimitedAddressSpace (crSpec r),
       MaxOpenFiles := cMaxOpenFiles (crSpec r), SpecMemoryMB := MemoryMB req,
       MaxProcesses := crMaxProcesses r, MaxFileSizeMB := crMaxFileSizeMB r, Writable := True,
       MinimalRootfs := False, Seccomp := SeccompTracer, TracerProcfs := True\<rparr>"

definition cr_executeTrace ::
  "'w host \<Rightarrow> compiledRuntime \<Rightarrow> RunRequest \<Rightarrow> bytes \<Rightarrow> traceCommand \<Rightarrow> 'w world \<Rightarrow> RunResult \<times> 'w world" where
  "cr_executeTrace h r req workDir tc w =
     (case Command h (cr_trace_spec r req workDir tc) w of
        (None, w1) \<Rightarrow> (internal_result ''sandbox containment unavailable'', w1)
      | (Some (cmd0, acct), w1) \<Rightarrow>
          (let env = trEnv tc (plannedTraceTarget (crSpec r)) [] (trReportFile tc) (crMaxTraceSteps r)
                 (crMaxTraceReportBytes r);
               cmd = cmd0\<lparr>StdinData := Stdin req, Env := Some env, Deadline := ms_ns (TimeoutMs req)\<rparr>;
               outputLimit = effectiveOutputLimit (OutputLimitBytes req) (crOutputLimit r);
               (start, w2) = clock h w1;
               (ch, w3) = cmd_Run h cmd w2;
               (stop, w4) = clock h w3;
               io = run_events (start_io outputLimit outputLimit) (Events ch);
               os = faults h (Ext w4);
               (progOut, _, outTrunc) = readTestReport os (Work w4) traceStdoutFile [] outputLimit;
               (progErr0, _, errTrunc0) = readTestReport os (Work w4) traceStderrFile [] outputLimit;
               (progErr, errTrunc) =
                 (if progErr0 = [] \<and> RunErr ch then (lb_String (ErrB io), truncated (ErrB io))
                  else (progErr0, errTrunc0));
               (report, _, reportTrunc) =
                 readTestReport os (Work w4) (trReportFile tc) [] (crMaxTraceReportBytes r);
               res = zero_result
                 \<lparr>Stdout := encodeStream (Encoding req) progOut,
                  Stderr := encodeStream (Encoding req) progErr,
                  StdoutTruncated := outTrunc, StderrTruncated := errTrunc,
                  DurationMs := ms_since start stop, MemoryKB := memoryKB h acct ch w4,
                  TraceFormat := trTraceFormat tc, ExitCode := child_exit ch,
                  TraceReport := report, TraceReportTruncated := reportTrunc\<rparr>;
               status = trace_status (Cause io) (acct_OOMKilled h acct w4) False (RunErr ch)
           in (res\<lparr>Status := status\<rparr>, acct_Close h acct w4)))"

definition cr_runTrace ::
  "'w host \<Rightarrow> compiledRuntime \<Rightarrow> RunRequest \<Rightarrow> 'w world \<Rightarrow> RunResult \<times> 'w world" where
  "cr_runTrace h r req w =
     (case traceCommands (embedded h) (cName (crSpec r)) of
        None \<Rightarrow> (internal_result ''trace mode not supported for this language'', w)
      | Some tc \<Rightarrow>
          if \<not> isCompiledTrace tc then (internal_result ''trace mode not supported for this language'', w)
          else
            (case MkdirTemp h ''dalivim-trace-*'' w of
               (None, w1) \<Rightarrow> (internal_result ''could not create build dir'', w1)
             | (Some workDir, w1) \<Rightarrow>
                 (case cr_plan h r req w1 of
                    (Inl e, w2) \<Rightarrow> (internal_result e, RemoveAll w2)
                  | (Inr plan0, w2) \<Rightarrow>
                      (let plan = plan0\<lparr>bpCompileArgv := bpCompileArgv plan0 @ trCompileExtra tc\<rparr>;
                           (start, w3) = clock h w2;
                           (failed, w4) = cr_compile h r req workDir plan w3;
                           (stop, w5) = clock h w4;
                           compileMs = ms_since start stop
                       in case failed of
                            Some res \<Rightarrow> (res\<lparr>CompileMs := compileMs\<rparr>, RemoveAll w5)
                          | None \<Rightarrow>
                              (case WriteFile h [trHarnessName tc] (trHarness tc) w5 of
                                 None \<Rightarrow> (internal_result ''could not write trace driver'', RemoveAll w5)
                               | Some w6 \<Rightarrow>
                                   (case cr_executeTrace h r req workDir tc w6 of
                                      (res, w7) \<Rightarrow> (res\<lparr>CompileMs := compileMs\<rparr>, RemoveAll w7)))))))"

subsection \<open>Entry points\<close>

definition cr_Run ::
  "'w host \<Rightarrow> compiledRuntime \<Rightarrow> RunRequest \<Rightarrow> 'w world \<Rightarrow> RunResult \<times> 'w world" where
  "cr_Run h r req w =
     (if Mode req = modeTest then cr_runTest h r req w
      else if Mode req = modeTrace then cr_runTrace h r req w
      else
        (case MkdirTemp h ''dalivim-build-*'' w of
           (None, w1) \<Rightarrow> (internal_result ''could not create build dir'', w1)
         | (Some workDir, w1) \<Rightarrow>
             (case cr_plan h r req w1 of
                (Inl e, w2) \<Rightarrow> (internal_result e, RemoveAll w2)
              | (Inr plan, w2) \<Rightarrow>
                  (let (start, w3) = clock h w2;
                       (failed, w4) = cr_compile h r req workDir plan w3;
                       (stop, w5) = clock h w4;
                       compileMs = ms_since start stop
                   in case failed of
                        Some res \<Rightarrow> (res\<lparr>CompileMs := compileMs\<rparr>, RemoveAll w5)
                      | None \<Rightarrow>
                          (case cr_execute h r req workDir plan w5 of
                             (res, w6) \<Rightarrow> (res\<lparr>CompileMs := compileMs\<rparr>, RemoveAll w6))))))"

definition cr_RunBatch ::
  "'w host \<Rightarrow> compiledRuntime \<Rightarrow> RunRequest \<Rightarrow> int \<Rightarrow> 'w world \<Rightarrow> BatchResult \<times> 'w world" where
  "cr_RunBatch h r req totalBudgetMs w =
     (let (epoch, w0) = clock h w in
      case MkdirTemp h ''dalivim-build-*'' w0 of
        (None, w1) \<Rightarrow> (internal_batch, w1)
      | (Some workDir, w1) \<Rightarrow>
          (case cr_plan h r req w1 of
             (Inl e, w2) \<Rightarrow> (internal_batch, RemoveAll w2)
           | (Inr plan, w2) \<Rightarrow>
               (let (start, w3) = clock h w2;
                    (failed, w4) = cr_compile h r req workDir plan w3;
                    (stop, w5) = clock h w4;
                    compileMs = ms_since start stop
                in case failed of
                     Some res \<Rightarrow>
                       (zero_batch\<lparr>BatchStatus := Status res, BatchCompileMs := compileMs,
                          BatchCompileOutput := CompileOutput res\<rparr>, RemoveAll w5)
                   | None \<Rightarrow>
                       (case batchLoop (clock h) (gone h) epoch totalBudgetMs
                           (\<lambda>stdin. cr_execute h r (req\<lparr>Stdin := stdin\<rparr>) workDir plan) (Stdins req) w5 of
                          (results, aborted, w6) \<Rightarrow>
                            (zero_batch\<lparr>BatchStatus := BatchStatusOK, BatchCompileMs := compileMs,
                               Results := results, Aborted := aborted\<rparr>, RemoveAll w6)))))"

subsection \<open>The contract\<close>

text \<open>
  The code overwrites element 0 of the argument vector of a plan, where Go would panic on an empty one. For the registered
  languages there always is one.
\<close>

lemma cFamilyMultiFile_heads:
  "''{src}'' \<noteq> c \<Longrightarrow> mfCompileArgv (cFamilyMultiFile (c # cs) ls l) files e \<noteq> []"
  "mfRunTemplate (cFamilyMultiFile cs ls l) e \<noteq> []"
  by (simp_all add: cFamilyMultiFile_def)

lemma multiFile_heads:
  "spec \<in> set compiled_specs \<Longrightarrow> cMultiFile spec = Some mf \<Longrightarrow> mfCompileArgv mf files e \<noteq> [] \<and> mfRunTemplate mf e \<noteq> []"
  by (auto simp: compiled_specs_def cSpec_def cppSpec_def goSpec_def rustSpec_def odinSpec_def javaSpec_def
      typescriptSpec_def csharpSpec_def zero_cspec_def c_compile_def cpp_compile_def cFamilyMultiFile_heads
      goMultiFile_def javaMultiFile_def java_flags_def Let_def)

lemma single_heads: "spec \<in> set compiled_specs \<Longrightarrow> cCompile spec \<noteq> [] \<and> cRun spec \<noteq> []"
  by (auto simp: compiled_specs_def cSpec_def cppSpec_def goSpec_def rustSpec_def odinSpec_def javaSpec_def
      typescriptSpec_def csharpSpec_def zero_cspec_def c_compile_def cpp_compile_def java_flags_def)

lemma plan_argv0:
  assumes "crSpec r \<in> set compiled_specs" and "cr_plan h r req w = (Inr plan, w')"
  shows "bpCompileArgv plan \<noteq> [] \<and> bpRunTemplate plan \<noteq> []"
  using assms(2) single_heads [OF assms(1)] multiFile_heads [OF assms(1)]
  by (auto simp: cr_plan_def single_plan_def subst_def split: if_splits option.splits sum.splits prod.splits)

lemma cr_plan_keeps: "cr_plan h r req w = (p, w') \<Longrightarrow> Sb w' = Sb w \<and> Launched w' = Launched w"
  by (auto simp: cr_plan_def dest: WriteFile_keeps split: if_splits option.splits sum.splits prod.splits)

lemma cr_execute_closed [simp]: "closed_result (fst (cr_execute h r req d plan w))"
  by (simp add: cr_execute_def closed_result_def Let_def split: prod.splits option.splits)

lemma cr_executeTest_closed [simp]: "closed_result (fst (cr_executeTest h r req d tc w))"
  by (simp add: cr_executeTest_def closed_result_def Let_def split: prod.splits option.splits)

lemma cr_executeTrace_closed [simp]: "closed_result (fst (cr_executeTrace h r req d tc w))"
  by (simp add: cr_executeTrace_def closed_result_def Let_def split_beta split: option.split)

lemma closed_CompileMs [simp]: "closed_result (res\<lparr>CompileMs := n\<rparr>) = closed_result res"
  by (simp add: closed_result_def)

lemma cr_compile_closed:
  "fst (cr_compile h r req d plan w) = Some res \<Longrightarrow>
     closed_result res \<and> Status res \<in> {StatusCompileError, StatusInternalError}"
  by (auto simp: cr_compile_def compile_failed_def closed_result_def Let_def split_beta split: option.splits if_splits)

lemma cr_runTest_closed [simp]: "closed_result (fst (cr_runTest h r req w))"
  by (simp add: cr_runTest_def split_beta split: option.split sum.split)

lemma cr_runTrace_closed [simp]: "closed_result (fst (cr_runTrace h r req w))"
  by (auto simp: cr_runTrace_def Let_def split_beta split: option.split sum.split dest!: cr_compile_closed)

lemma cr_Run_closed: "closed_result (fst (cr_Run h r req w))"
  by (auto simp: cr_Run_def Let_def split_beta split: option.split sum.split dest!: cr_compile_closed)

text \<open>The ways a batch can go.\<close>

lemma cr_RunBatch_cases:
  assumes "cr_RunBatch h r req n w = (b, w')"
  obtains (unprepared) "b = internal_batch" "Launched w' = Launched w" "Sb w' = Sb w"
    | (uncompiled) d plan v res v1 ms where "Launched v = Launched w" "Sb v = Sb w"
      "cr_compile h r req d plan v = (Some res, v1)" "Launched w' = Launched v1" "Sb w' = Sb v1"
      "b = zero_batch\<lparr>BatchStatus := Status res, BatchCompileMs := ms, BatchCompileOutput := CompileOutput res\<rparr>"
    | (ran) d plan v v1 ms epoch v2 rs ab v3 where "Launched v = Launched w" "Sb v = Sb w"
      "cr_compile h r req d plan v = (None, v1)" "Launched v2 = Launched v1" "Sb v2 = Sb v1"
      "batchLoop (clock h) (gone h) epoch n (\<lambda>stdin. cr_execute h r (req\<lparr>Stdin := stdin\<rparr>) d plan) (Stdins req) v2 =
         (rs, ab, v3)" "Launched w' = Launched v3" "Sb w' = Sb v3"
      "b = zero_batch\<lparr>BatchStatus := BatchStatusOK, BatchCompileMs := ms, Results := rs, Aborted := ab\<rparr>"
proof -
  obtain epoch w0 where c: "clock h w = (epoch, w0)" by fastforce
  obtain od w1 where m: "MkdirTemp h ''dalivim-build-*'' w0 = (od, w1)" by fastforce
  have w1: "Sb w1 = Sb w" "Launched w1 = Launched w"
    using MkdirTemp_keeps [OF m] clock_keeps [of h w] c by simp_all
  show thesis
  proof (cases od)
    case None
    with assms c m w1 show thesis by (intro unprepared) (auto simp: cr_RunBatch_def)
  next
    case (Some d)
    obtain p w2 where p: "cr_plan h r req w1 = (p, w2)" by fastforce
    have w2: "Sb w2 = Sb w" "Launched w2 = Launched w" using cr_plan_keeps [OF p] w1 by simp_all
    show thesis
    proof (cases p)
      case (Inl e)
      with assms c m p Some w2 show thesis by (intro unprepared) (auto simp: cr_RunBatch_def)
    next
      case (Inr plan)
      obtain start w3 where s: "clock h w2 = (start, w3)" by fastforce
      obtain f w4 where f: "cr_compile h r req d plan w3 = (f, w4)" by fastforce
      obtain stop w5 where t: "clock h w4 = (stop, w5)" by fastforce
      have w3: "Sb w3 = Sb w" "Launched w3 = Launched w" and w5: "Sb w5 = Sb w4" "Launched w5 = Launched w4"
        using clock_keeps [of h w2] clock_keeps [of h w4] s t w2 by simp_all
      note st = cr_RunBatch_def c m p s f t Some Inr Let_def
      show thesis
      proof (cases f)
        case (Some res)
        show thesis
          by (rule uncompiled [of w3 d plan res w4 "ms_since start stop"])
            (use assms w3 w5 f Some in \<open>auto simp: st\<close>)
      next
        case None
        obtain rs ab w6 where l: "batchLoop (clock h) (gone h) epoch n
            (\<lambda>stdin. cr_execute h r (req\<lparr>Stdin := stdin\<rparr>) d plan) (Stdins req) w5 = (rs, ab, w6)"
          by (metis prod_cases3)
        show thesis
          by (rule ran [of w3 d plan w4 w5 epoch rs ab w6 "ms_since start stop"])
            (use assms w3 w5 f None l in \<open>auto simp: st\<close>)
      qed
    qed
  qed
qed

lemma cr_RunBatch_formed: "batch_formed req (fst (cr_RunBatch h r req n w))"
proof -
  obtain b w' where b: "cr_RunBatch h r req n w = (b, w')" by fastforce
  then show ?thesis
  proof (cases rule: cr_RunBatch_cases)
    case unprepared
    with b show ?thesis by (simp add: batch_formed_def)
  next
    case (uncompiled d plan v res v1 ms)
    have "fst (cr_compile h r req d plan v) = Some res" using uncompiled(3) by simp
    from cr_compile_closed [OF this] have "Status res \<in> {StatusCompileError, StatusInternalError}" by blast
    from batch_formed_failed [OF this] b uncompiled(6) show ?thesis by simp
  next
    case (ran d plan v v1 ms epoch v2 rs ab v3)
    from batch_formed_ran [OF ran(6) cr_execute_closed] b ran(9) show ?thesis by simp
  qed
qed

interpretation compiled: runtime_contract "cr_Run h r" "cr_RunBatch h r" for h :: "'w host" and r
  by unfold_locales (rule cr_Run_closed, rule cr_RunBatch_formed)

subsection \<open>The jails of a compiled request\<close>

lemma cr_compile_launch:
  "launch_shape h (cr_compile_spec r req d plan) w (snd (cr_compile h r req d plan w))"
  by (auto simp: cr_compile_def Let_def split_beta intro: launch_shape_refused launch_shape_ran_no_stdin
      split: prod.split option.split)

lemma cr_execute_launch: "launch_shape h (cr_run_spec r req d plan) w (snd (cr_execute h r req d plan w))"
  by (auto simp: cr_execute_def Let_def split_beta intro: launch_shape_refused launch_shape_ran
      split: prod.split option.split)

lemma cr_executeTest_launch: "launch_shape h (cr_test_spec r req d tc) w (snd (cr_executeTest h r req d tc w))"
  by (auto simp: cr_executeTest_def Let_def split_beta intro: launch_shape_refused launch_shape_ran
      split: prod.split option.split)

lemma cr_executeTrace_launch: "launch_shape h (cr_trace_spec r req d tc) w (snd (cr_executeTrace h r req d tc w))"
  by (auto simp: cr_executeTrace_def Let_def split_beta intro: launch_shape_refused launch_shape_ran
      split: prod.split option.split)

text \<open>
  The posture of each phase. A build may write its directory and sees the toolchains, a run may
  not write, the tracer alone has procfs and the tracing filter, and each is bounded by its own
  budgets.
\<close>

definition compile_posture :: "compiledRuntime \<Rightarrow> RunRequest \<Rightarrow> Spec \<Rightarrow> bool" where
  "compile_posture r req spec \<longleftrightarrow>
     Writable spec \<and> \<not> MinimalRootfs spec \<and> Seccomp spec = SeccompDenylist \<and> \<not> TracerProcfs spec \<and>
     SpecTimeoutMs spec = CompileTimeoutMs req \<and> SpecMemoryMB spec = crCompileMemoryMB r \<and>
     MaxProcesses spec = crMaxProcesses r \<and> MaxFileSizeMB spec = crMaxFileSizeMB r"

definition run_posture :: "compiledRuntime \<Rightarrow> RunRequest \<Rightarrow> Spec \<Rightarrow> bool" where
  "run_posture r req spec \<longleftrightarrow>
     \<not> Writable spec \<and> (MinimalRootfs spec \<longleftrightarrow> \<not> cRunFullRootfs (crSpec r)) \<and>
     Seccomp spec = crRunSeccomp r \<and> \<not> TracerProcfs spec \<and>
     SpecTimeoutMs spec = TimeoutMs req \<and> SpecMemoryMB spec = MemoryMB req \<and>
     MaxProcesses spec = crMaxProcesses r \<and> MaxFileSizeMB spec = crMaxFileSizeMB r"

definition test_posture :: "compiledRuntime \<Rightarrow> RunRequest \<Rightarrow> Spec \<Rightarrow> bool" where
  "test_posture r req spec \<longleftrightarrow>
     \<not> MinimalRootfs spec \<and> Seccomp spec = SeccompDenylist \<and> \<not> TracerProcfs spec \<and>
     SpecTimeoutMs spec = TimeoutMs req \<and> SpecMemoryMB spec = MemoryMB req \<and>
     MaxProcesses spec = crMaxProcesses r \<and> MaxFileSizeMB spec = crMaxFileSizeMB r"

definition trace_posture :: "compiledRuntime \<Rightarrow> RunRequest \<Rightarrow> Spec \<Rightarrow> bool" where
  "trace_posture r req spec \<longleftrightarrow>
     Writable spec \<and> \<not> MinimalRootfs spec \<and> Seccomp spec = SeccompTracer \<and> TracerProcfs spec \<and>
     hd (Argv spec) = crTracerBin r \<and>
     SpecTimeoutMs spec = TimeoutMs req \<and> SpecMemoryMB spec = MemoryMB req \<and>
     MaxProcesses spec = crMaxProcesses r \<and> MaxFileSizeMB spec = crMaxFileSizeMB r"

lemma cr_specs_posture:
  "compile_posture r req (cr_compile_spec r req d plan)" "run_posture r req (cr_run_spec r req d plan)"
  "test_posture r req (cr_test_spec r req d tc)" "trace_posture r req (cr_trace_spec r req d trc)"
  by (simp_all add: compile_posture_def run_posture_def test_posture_def trace_posture_def cr_compile_spec_def
      cr_run_spec_def cr_test_spec_def cr_trace_spec_def zero_spec_def Let_def)

definition cr_phases :: "compiledRuntime \<Rightarrow> RunRequest \<Rightarrow> (Spec \<Rightarrow> bool) list" where
  "cr_phases r req =
     (if Mode req = modeTest then [test_posture r req]
      else if Mode req = modeTrace then [compile_posture r req, trace_posture r req]
      else [compile_posture r req, run_posture r req])"

text \<open>A compilation that succeeded has launched the compiler; one that failed may have been refused.\<close>

lemma cr_compile_ran:
  assumes "cr_compile h r req d plan v = (f, w')" and "Sb v = Nsjail s"
  shows "ran_upto s [compile_posture r req] v w'" and "f = None \<Longrightarrow> ran s [compile_posture r req] v w'"
proof -
  have l: "launch_shape h (cr_compile_spec r req d plan) v w'"
    using cr_compile_launch [of h r req d plan v] assms(1) by simp
  show "ran_upto s [compile_posture r req] v w'"
    using ran_upto_step [where Q = "compile_posture r req", OF l assms(2) refl cr_specs_posture(1)] .
  assume "f = None"
  then have "length (Launched w') \<noteq> length (Launched v)"
    using assms(1) by (auto simp: cr_compile_def Let_def split_beta split: option.splits)
  then show "ran s [compile_posture r req] v w'"
    using ran_step [where Q = "compile_posture r req", OF l assms(2) cr_specs_posture(1)]
      ran_length [of s "[]" v w'] by auto
qed

lemma cr_steps_ran:
  assumes "Sb v = Nsjail s"
  shows "ran_upto s [run_posture r req] v (snd (cr_execute h r req d plan v))"
    and "ran_upto s [test_posture r req] v (snd (cr_executeTest h r req d tc v))"
    and "ran_upto s [trace_posture r req] v (snd (cr_executeTrace h r req d trc v))"
  using ran_upto_step [where Q = "run_posture r req", OF cr_execute_launch assms refl cr_specs_posture(2)]
    ran_upto_step [where Q = "test_posture r req", OF cr_executeTest_launch assms refl cr_specs_posture(3)]
    ran_upto_step [where Q = "trace_posture r req", OF cr_executeTrace_launch assms refl cr_specs_posture(4)]
  by blast+

text \<open>A build phase that succeeded, followed by at most one more process.\<close>

lemma two_phases:
  assumes "cr_compile h r req d plan v = (None, v1)" and "Sb v = Nsjail s"
    and "Sb v2 = Sb v1" "Launched v2 = Launched v1"
    and "\<And>s'. Sb v2 = Nsjail s' \<Longrightarrow> ran_upto s' [Q] v2 w'"
  shows "ran_upto s [compile_posture r req, Q] v w'"
proof -
  have c: "ran s [compile_posture r req] v v2"
    using cr_compile_ran(2) [OF assms(1,2)] ran_until assms(3,4) by blast
  then obtain s' where s': "Sb v2 = Nsjail s'" by (auto simp: ran_def)
  from assms(5) [OF this] obtain k where k: "ran s' (take k [Q]) v2 w'" by (auto simp: ran_upto_def)
  have "ran s ([compile_posture r req] @ take k [Q]) v w'"
    by (rule ran_trans [OF c]) (use k s' in simp)
  then show ?thesis by (rule ran_uptoI [where Rs = "drop k [Q]"]) simp
qed

lemma one_phase:
  assumes "cr_compile h r req d plan v = (f, v1)" and "Sb v = Nsjail s" and "Launched w' = Launched v1" "Sb w' = Sb v1"
  shows "ran_upto s [compile_posture r req, Q] v w'" and "length (Launched w') \<le> Suc (length (Launched v))"
proof -
  from cr_compile_ran(1) [OF assms(1,2)] obtain k where k: "ran s (take k [compile_posture r req]) v v1"
    by (auto simp: ran_upto_def)
  then have k': "ran s (take k [compile_posture r req]) v w'" using ran_until assms(3,4) by blast
  show "ran_upto s [compile_posture r req, Q] v w'"
    by (rule ran_uptoI [OF k', where Rs = "drop k [compile_posture r req] @ [Q]"])
      (simp only: append_assoc [symmetric] append_take_drop_id, simp)
  show "length (Launched w') \<le> Suc (length (Launched v))" using ran_length [OF k'] by simp
qed

lemma run_status_not_ce [simp]:
  "run_status c e om m \<noteq> StatusCompileError" "trace_status c om m e \<noteq> StatusCompileError"
  using status_distinct by (auto simp: run_status_def trace_status_def)

lemma steps_not_ce [simp]:
  "Status (fst (cr_execute h r req d plan v)) \<noteq> StatusCompileError"
  "Status (fst (cr_executeTrace h r req d trc v)) \<noteq> StatusCompileError"
  by (simp_all add: cr_execute_def cr_executeTrace_def Let_def split_beta split: option.split)

lemma cr_prepareTest_keeps: "cr_prepareTest h req tc w = (p, w') \<Longrightarrow> Sb w' = Sb w \<and> Launched w' = Launched w"
  by (auto simp: cr_prepareTest_def Let_def dest: WriteFile_keeps
      split: if_splits option.splits sum.splits prod.splits)

lemma cr_runTest_ran:
  assumes "cr_runTest h r req w = (res, w')" and "Sb w = Nsjail s"
  shows "ran_upto s [test_posture r req] w w'"
proof -
  have ex: "ran_upto s [test_posture r req] w w1"
    if "cr_executeTest h r req d tc v = (res1, w1)" "Sb v = Nsjail s" "Launched v = Launched w" for res1 w1 d tc v
    using cr_steps_ran(2) [of v s r req h d tc] that ran_upto_from by (metis snd_conv)
  show ?thesis
    using assms
    by (auto simp: cr_runTest_def split: option.splits prod.splits sum.splits
        dest!: MkdirTemp_keeps cr_prepareTest_keeps intro: ex)
qed

text \<open>What run mode and trace mode share: a build, and one more step if it succeeded.\<close>

lemma build_then:
  fixes h :: "'w host" and w w' v1 :: "'w world"
  assumes "cr_compile h r req d plan v = (f, v1)" and "Sb w = Nsjail s"
    and "Sb v = Sb w" "Launched v = Launched w"
    and "f \<noteq> None \<Longrightarrow> Sb w' = Sb v1 \<and> Launched w' = Launched v1"
    and "f = None \<Longrightarrow> Status res \<noteq> StatusCompileError \<and> (\<exists>v2 :: 'w world. Sb v2 = Sb v1 \<and> Launched v2 = Launched v1 \<and>
           (\<forall>s'. Sb v2 = Nsjail s' \<longrightarrow> ran_upto s' [Q] v2 w'))"
  shows "ran_upto s [compile_posture r req, Q] w w' \<and>
    (Status res = StatusCompileError \<longrightarrow> length (Launched w') \<le> Suc (length (Launched w)))"
proof (cases f)
  case None
  with assms(6) obtain v2 :: "'w world" where v2: "Status res \<noteq> StatusCompileError" "Sb v2 = Sb v1" "Launched v2 = Launched v1"
    "\<And>s'. Sb v2 = Nsjail s' \<Longrightarrow> ran_upto s' [Q] v2 w'" by blast
  have "Sb v = Nsjail s" using assms(2,3) by simp
  from two_phases [OF assms(1) [unfolded None] this v2(2,3)] v2(4)
  have "ran_upto s [compile_posture r req, Q] v w'" by blast
  with v2(1) ran_upto_from [OF assms(4)] show ?thesis by blast
next
  case (Some e)
  with assms(5) have k: "Launched w' = Launched v1" "Sb w' = Sb v1" by simp_all
  have "Sb v = Nsjail s" using assms(2,3) by simp
  from one_phase(1) [where Q = Q, OF assms(1) this k] one_phase(2) [OF assms(1) this k] ran_upto_from [OF assms(4)] assms(4) show ?thesis by simp
qed

lemma cr_plan_sb: "Sb (snd (cr_plan h r req w)) = Sb w" "Launched (snd (cr_plan h r req w)) = Launched w"
  using cr_plan_keeps [OF surjective_pairing, of h r req w] by simp_all

lemma cr_runRun_ran:
  fixes h :: "'w host"
  assumes "cr_Run h r req w = (res, w')" and "Sb w = Nsjail s" and "Mode req \<notin> {modeTest, modeTrace}"
  shows "ran_upto s [compile_posture r req, run_posture r req] w w' \<and>
    (Status res = StatusCompileError \<longrightarrow> length (Launched w') \<le> Suc (length (Launched w)))"
proof -
  obtain od w1 where m: "MkdirTemp h ''dalivim-build-*'' w = (od, w1)" by fastforce
  note w1 = MkdirTemp_keeps [OF m]
  obtain p w2 where p: "cr_plan h r req w1 = (p, w2)" by fastforce
  note w2 = cr_plan_keeps [OF p]
  obtain start w3 where st: "clock h w2 = (start, w3)" by fastforce
  have w3: "Sb w3 = Sb w" "Launched w3 = Launched w" using clock_keeps [of h w2] st w1 w2 by simp_all
  show ?thesis
  proof (cases od)
    case None
    with assms m w1 show ?thesis by (auto simp: cr_Run_def)
  next
    case (Some d)
    show ?thesis
    proof (cases p)
      case (Inl x)
      with assms Some m p w1 w2 show ?thesis by (auto simp: cr_Run_def)
    next
      case (Inr plan)
      obtain f w4 where f: "cr_compile h r req d plan w3 = (f, w4)" by fastforce
      obtain stop w5 where t: "clock h w4 = (stop, w5)" by fastforce
      have w5: "Sb w5 = Sb w4" "Launched w5 = Launched w4" using clock_keeps [of h w4] t by simp_all
      obtain r1 w6 where x: "cr_execute h r req d plan w5 = (r1, w6)" by fastforce
      have r1: "Status r1 \<noteq> StatusCompileError" using steps_not_ce(1) [of h r req d plan w5] x by simp
      have ok: "\<exists>v2 :: 'w world. Sb v2 = Sb w4 \<and> Launched v2 = Launched w4 \<and>
           (\<forall>s'. Sb v2 = Nsjail s' \<longrightarrow> ran_upto s' [run_posture r req] v2 (RemoveAll w6))"
        using w5 cr_steps_ran(1) [of w5 _ r req h d plan] x by (intro exI [of _ w5]) simp
      show ?thesis
        by (rule build_then [OF f assms(2) w3])
          (use assms(1,3) m p Some Inr st f t x r1 w5 ok in \<open>auto simp: cr_Run_def Let_def\<close>)
    qed
  qed
qed

text \<open>A trace run from the end of its build on.\<close>

lemma trace_after_build:
  fixes h :: "'w host"
  assumes f: "cr_compile h r req d plan w3 = (f, w4)" and "Sb w = Nsjail s" and w3: "Sb w3 = Sb w" "Launched w3 = Launched w"
    and w5: "Sb w5 = Sb w4" "Launched w5 = Launched w4"
    and e: "(res, w') = (case f of
        Some res0 \<Rightarrow> (res0\<lparr>CompileMs := ms\<rparr>, RemoveAll w5)
      | None \<Rightarrow> (case WriteFile h [trHarnessName tc] (trHarness tc) w5 of
           None \<Rightarrow> (internal_result ''could not write trace driver'', RemoveAll w5)
         | Some w6 \<Rightarrow> (case cr_executeTrace h r req d tc w6 of
              (res1, w7) \<Rightarrow> (res1\<lparr>CompileMs := ms\<rparr>, RemoveAll w7))))"
  shows "ran_upto s [compile_posture r req, trace_posture r req] w w' \<and>
    (Status res = StatusCompileError \<longrightarrow> length (Launched w') \<le> Suc (length (Launched w)))"
proof (rule build_then [OF f assms(2) w3])
  assume "f \<noteq> None"
  with e w5 show "Sb w' = Sb w4 \<and> Launched w' = Launched w4" by auto
next
  assume "f = None"
  show "Status res \<noteq> StatusCompileError \<and> (\<exists>v2 :: 'w world. Sb v2 = Sb w4 \<and> Launched v2 = Launched w4 \<and>
     (\<forall>s'. Sb v2 = Nsjail s' \<longrightarrow> ran_upto s' [trace_posture r req] v2 w'))"
  proof (cases "WriteFile h [trHarnessName tc] (trHarness tc) w5")
    case None
    with e \<open>f = None\<close> w5 show ?thesis by (auto intro!: exI [of _ w5])
  next
    case (Some w6)
    note w6 = WriteFile_keeps [OF Some]
    from e \<open>f = None\<close> Some have "w' = RemoveAll (snd (cr_executeTrace h r req d tc w6))"
      "Status res = Status (fst (cr_executeTrace h r req d tc w6))" by (simp_all add: split_beta)
    with w5 w6 show ?thesis using cr_steps_ran(3) [of w6 _ r req h d tc] by (intro conjI exI [of _ w6]) simp_all
  qed
qed

lemma cr_runTrace_ran:
  fixes h :: "'w host"
  assumes "cr_runTrace h r req w = (res, w')" and "Sb w = Nsjail s"
  shows "ran_upto s [compile_posture r req, trace_posture r req] w w' \<and>
    (Status res = StatusCompileError \<longrightarrow> length (Launched w') \<le> Suc (length (Launched w)))"
proof (cases "\<exists>tc. traceCommands (embedded h) (cName (crSpec r)) = Some tc \<and> isCompiledTrace tc")
  case False
  with assms show ?thesis by (auto simp: cr_runTrace_def split: option.splits)
next
  case True
  then obtain tc where tc: "traceCommands (embedded h) (cName (crSpec r)) = Some tc" "isCompiledTrace tc" by blast
  obtain od w1 where m: "MkdirTemp h ''dalivim-trace-*'' w = (od, w1)" by fastforce
  note w1 = MkdirTemp_keeps [OF m]
  obtain p w2 where p: "cr_plan h r req w1 = (p, w2)" by fastforce
  note w2 = cr_plan_keeps [OF p]
  obtain start w3 where st: "clock h w2 = (start, w3)" by fastforce
  have w3: "Sb w3 = Sb w" "Launched w3 = Launched w" using clock_keeps [of h w2] st w1 w2 by simp_all
  consider "od = None" | d x where "od = Some d" "p = Inl x" | d plan where "od = Some d" "p = Inr plan"
    by (cases od; cases p) auto
  then show ?thesis
  proof cases
    case (3 d plan0)
    let ?plan = "plan0\<lparr>bpCompileArgv := bpCompileArgv plan0 @ trCompileExtra tc\<rparr>"
    obtain f w4 where f: "cr_compile h r req d ?plan w3 = (f, w4)" by fastforce
    obtain stop w5 where t: "clock h w4 = (stop, w5)" by fastforce
    have w5: "Sb w5 = Sb w4" "Launched w5 = Launched w4" using clock_keeps [of h w4] t by simp_all
    show ?thesis
      by (rule trace_after_build [OF f assms(2) w3 w5, of res w' "ms_since start stop" tc])
        (use assms(1) tc m 3 p st f t in \<open>simp add: cr_runTrace_def Let_def\<close>)
  qed (use assms m p w1 w2 tc in \<open>auto simp: cr_runTrace_def\<close>)
qed

lemma cr_Run_ran:
  assumes "cr_Run h r req w = (res, w')" and "Sb w = Nsjail s"
  shows "ran_upto s (cr_phases r req) w w' \<and>
    (Status res = StatusCompileError \<longrightarrow> length (Launched w') \<le> Suc (length (Launched w)))"
proof -
  consider (test) "Mode req = modeTest" | (trace) "Mode req = modeTrace" "Mode req \<noteq> modeTest"
    | (run) "Mode req \<notin> {modeTest, modeTrace}" by blast
  then show ?thesis
  proof cases
    case test
    with assms have t: "cr_runTest h r req w = (res, w')" by (simp add: cr_Run_def)
    from cr_runTest_ran [OF t assms(2)] have "ran_upto s [test_posture r req] w w'" .
    moreover from this have "length (Launched w') \<le> Suc (length (Launched w))" by (elim ran_uptoD) simp
    ultimately show ?thesis using test by (simp add: cr_phases_def)
  next
    case trace
    with assms cr_runTrace_ran show ?thesis by (simp add: cr_Run_def cr_phases_def)
  next
    case run
    with assms cr_runRun_ran show ?thesis by (simp add: cr_phases_def)
  qed
qed

text \<open>C4: The phases of a compiled request. On the nsjail backend a request launches a first part of its mode's
  phases and nothing else: the toolchain jail in test mode, the compile jail and then the tracer's
  jail in trace mode, the compile jail and then the run jail otherwise; each under its own posture. And
  nothing is launched after a compilation that was reported as failed.\<close>
theorem compiled_phases:
  assumes "cr_Run h r req w = (res, w')" and "Sb w = Nsjail s"
  shows "ran_upto s (cr_phases r req) w w' \<and>
    (Status res = StatusCompileError \<longrightarrow> length (Launched w') \<le> Suc (length (Launched w)))"
  using cr_Run_ran [OF assms] .

definition demo_c :: compiledRuntime where
  "demo_c =
     \<lparr>crSpec = cSpec, crCompilerBin = ''/usr/bin/gcc'', crRunBin = [], crArtifact = ''bin'',
      crVersion = ''12.2.0'', crOutputLimit = 65536, crMaxProcesses = 64, crMaxFileSizeMB = 16,
      crCompileMemoryMB = 512, crMaxArtifactBytes = 1048576, crRunSeccomp = SeccompStaticEnforce,
      crMaxReportBytes = 65536, crTracerBin = [], crMaxTraceSteps = 0, crMaxTraceReportBytes = 0\<rparr>"

definition c_request :: RunRequest where
  "c_request = zero_request\<lparr>Language := ''c'', SourceCode := ''int main(){}'', TimeoutMs := 3000,
     MemoryMB := 128, CompileTimeoutMs := 10000\<rparr>"

text \<open>A host whose children leave an artifact behind.\<close>

definition building_host :: "int host" where
  "building_host = demo_host\<lparr>spawn := (\<lambda>c t w. (demo_child, t([''bin''] \<mapsto> Reg 1000 ''ELF''), w + 5000000))\<rparr>"

lemmas demo_c_defs =
  demo_c_def c_request_def building_host_def demo_world_def plain_jail_def demo_host_def demo_child_def demo_os_def

lemma demo_c_built:
  "length (Launched (snd (cr_Run building_host demo_c c_request demo_world))) = 2 \<and>
   Status (fst (cr_Run building_host demo_c c_request demo_world)) = StatusSuccess"
  by (simp add: cr_Run_def cr_plan_def cr_compile_def cr_execute_def demo_c_defs cSpec_def zero_cspec_def zero_request_def
      MkdirTemp_def WriteFile_def write_file_def fresh_dir_def Command_def single_plan_def comps_of_def
      nsjail_Command_def clock_def cmd_Run_def Let_def run_status_def start_io_def new_buffer_def os_Stat_def
      lb_write_def effectiveOutputLimit_def onFlood_def acct_Close_def fits64_def)

theorem compiled_phases_witness:
  "\<exists>spec1 spec2 c1 c2. Launched (snd (cr_Run building_host demo_c c_request demo_world)) = [c1, c2] \<and>
     jailed_for plain_jail spec1 c1 \<and> Writable spec1 \<and> jailed_for plain_jail spec2 c2 \<and> \<not> Writable spec2"
proof -
  obtain res w' where r: "cr_Run building_host demo_c c_request demo_world = (res, w')" by fastforce
  have s: "Sb demo_world = Nsjail plain_jail" "Launched demo_world = []" by (simp_all add: demo_world_def)
  have p: "cr_phases demo_c c_request = [compile_posture demo_c c_request, run_posture demo_c c_request]"
    by (simp add: cr_phases_def c_request_def zero_request_def)
  from compiled_phases [OF r s(1)] have "ran_upto plain_jail (cr_phases demo_c c_request) demo_world w'" by blast
  then obtain cmds where c: "Launched w' = cmds"
    "\<forall>i<length cmds. \<exists>spec. jailed_for plain_jail spec (cmds ! i) \<and> (cr_phases demo_c c_request ! i) spec"
    using s(2) by (elim ran_uptoD) simp
  from demo_c_built r c(1) obtain c1 c2 where "cmds = [c1, c2]" by (auto simp: length_Suc_conv numeral_2_eq_2)
  with c(2) [rule_format, of 0] c(2) [rule_format, of 1] p r c(1) show ?thesis
    by (auto simp: compile_posture_def run_posture_def)
qed

subsection \<open>The jails of a batch\<close>

lemma run_posture_Stdin: "run_posture r (req\<lparr>Stdin := x\<rparr>) = run_posture r req"
  by (rule ext) (simp add: run_posture_def)

lemma cr_RunBatch_ran:
  assumes "cr_RunBatch h r req n w = (b, w')" and "Sb w = Nsjail s"
  shows "\<exists>k\<le>length (Results b). ran_upto s (compile_posture r req # replicate k (run_posture r req)) w w'"
  using assms(1)
proof (cases rule: cr_RunBatch_cases)
  case unprepared
  with assms(2) show ?thesis by auto
next
  case (uncompiled d plan v res v1 ms)
  have "Sb v = Nsjail s" using uncompiled(2) assms(2) by simp
  from cr_compile_ran(1) [OF uncompiled(3) this] uncompiled(1,4,5,6) show ?thesis
    by (simp add: ran_upto_def ran_def)
next
  case (ran d plan v v1 ms epoch v2 rs ab v3)
  have "Sb v = Nsjail s" using ran(2) assms(2) by simp
  from cr_compile_ran(2) [OF ran(3) this] have c: "ran s [compile_posture r req] w v2"
    using ran(1,4,5) by (simp add: ran_def)
  then obtain s2 where s2: "Sb v2 = Nsjail s2" by (auto simp: ran_def)
  have "ran_upto s' [run_posture r req] u (snd (cr_execute h r (req\<lparr>Stdin := x\<rparr>) d plan u))"
    if "Sb u = Nsjail s'" for x u s'
    using cr_steps_ran(1) [OF that, of r "req\<lparr>Stdin := x\<rparr>" h d plan] by (simp add: run_posture_Stdin)
  from batchLoop_ran [OF this ran(6) s2] obtain k where k: "k \<le> length rs" "ran s2 (replicate k (run_posture r req)) v2 v3"
    by blast
  have "ran s ([compile_posture r req] @ replicate k (run_posture r req)) w v3"
    by (rule ran_trans [OF c]) (use k(2) s2 in simp)
  then have "ran s (compile_posture r req # replicate k (run_posture r req)) w w'"
    using ran(7,8) by (simp add: ran_def)
  with k(1) ran(9) show ?thesis by (auto intro!: exI [of _ k] ran_uptoI [where Rs = "[]"])
qed


definition c_batch :: RunRequest where
  "c_batch = c_request\<lparr>Stdins := [''1'', ''2'']\<rparr>"

lemma demo_c_batch:
  "\<exists>c1 c2 c3. Launched (snd (cr_RunBatch building_host demo_c c_batch 0 demo_world)) = [c1, c2, c3]"
  by (simp add: cr_RunBatch_def cr_plan_def cr_compile_def cr_execute_def demo_c_defs c_batch_def cSpec_def zero_cspec_def zero_request_def
      MkdirTemp_def WriteFile_def write_file_def fresh_dir_def Command_def single_plan_def comps_of_def gone_def over_budget_def
      nsjail_Command_def clock_def cmd_Run_def Let_def os_Stat_def acct_Close_def fits64_def)


subsection \<open>The launcher takes the place of the first flag\<close>

lemma newCompiled_runBin:
  "crRunBin (fst (newCompiled h spec cfg w)) = (if cRunBin spec \<noteq> [] then resolveBin h (cRunBin spec) else [])"
  "crSpec (fst (newCompiled h spec cfg w)) = spec"
  "crArtifact (fst (newCompiled h spec cfg w)) = (if cArtifact spec = [] then defaultArtifact else cArtifact spec)"
  by (simp_all add: newCompiled_def Let_def split_beta)

lemma resolveBin_nonempty:
  assumes "[] \<notin> set candidates" and "candidates \<noteq> []" and "\<forall>b. look_path h b \<noteq> Some []"
  shows "resolveBin h candidates \<noteq> []"
proof -
  have "[] \<notin> set (List.map_filter (look_path h) candidates)"
    using assms(3) by (auto simp: map_filter_def)
  with assms(1,2) show ?thesis
    by (auto simp: resolveBin_def split: list.splits)
qed

text \<open>Substituting the run template's tokens.\<close>

abbreviation run_pairs :: "bytes \<Rightarrow> bytes \<Rightarrow> bytes \<Rightarrow> (bytes \<times> bytes) list" where
  "run_pairs out dir mem \<equiv> [(''{out}'', out), (''{dir}'', dir), (''{mem}'', mem)]"

lemma run_token_plain: "CHR ''{'' \<notin> set t \<Longrightarrow> replacer (run_pairs a b c) t = t"
  by (rule replacer_no_placeholder) simp_all

lemma run_token_prefix:
  "CHR ''{'' \<notin> set p \<Longrightarrow> replacer (run_pairs a b c) (p @ q) = p @ replacer (run_pairs a b c) q"
  by (induction p) simp_all

lemma run_tokens:
  "replacer (run_pairs a b c) ''{out}'' = a" "replacer (run_pairs a b c) ''{dir}'' = b"
  "replacer (run_pairs a b c) ''{mem}'' = c" "replacer (run_pairs a b c) ''{mem}m'' = c @ ''m''"
  by simp_all

lemma run_token_heap:
  "replacer (run_pairs a b c) ''--max-old-space-size={mem}'' = ''--max-old-space-size='' @ c"
  "replacer (run_pairs a b c) ''-Xmx{mem}m'' = ''-Xmx'' @ c @ ''m''"
  using run_token_prefix [of "''--max-old-space-size=''" a b c "''{mem}''"]
    run_token_prefix [of "''-Xmx''" a b c "''{mem}m''"] run_tokens(3,4) [of a b c] by simp_all

text \<open>C39: A defect: the launcher of a virtual machine overwrites the first flag of the language's run template
  instead of preceding it. A TypeScript program is run without the \<open>--disable-proto=throw\<close> of its template,
  a Java program without \<open>-XX:+UseSerialGC\<close>; and the C# template loses its \<open>exec\<close> word.\<close>
theorem launcher_drops_first_flag:
  assumes "\<forall>b. look_path h b \<noteq> Some []"
    and "r = fst (newCompiled h spec cfg w)"
  shows "(spec = typescriptSpec \<longrightarrow> cRun spec ! 0 = ''--disable-proto=throw'' \<and>
      run_argv r req (single_plan r) =
        [resolveBin h [''node'', ''nodejs''], ''--max-old-space-size='' @ itoa (MemoryMB req), JailPath ''main.js'']) \<and>
    (spec = javaSpec \<longrightarrow> cRun spec ! 0 = ''-XX:+UseSerialGC'' \<and>
      run_argv r req (single_plan r) =
        [resolveBin h [''java''], ''-XX:-UsePerfData'', ''-XX:ActiveProcessorCount=1'',
         ''-Xmx'' @ itoa (MemoryMB req) @ ''m'', ''-cp'', JailMount, ''Main'']) \<and>
    (spec = csharpSpec \<longrightarrow> cRun spec ! 0 = ''exec'' \<and>
      run_argv r req (single_plan r) = [resolveBin h [''dotnet''], JailPath ''Main.dll''])"
proof -
  have ne: "resolveBin h [''node'', ''nodejs''] \<noteq> []" "resolveBin h [''java''] \<noteq> []" "resolveBin h [''dotnet''] \<noteq> []"
    by (rule resolveBin_nonempty; use assms(1) in simp)+
  show ?thesis
    unfolding assms(2) run_argv_def single_plan_def newCompiled_runBin Let_def
    by (intro conjI impI)
      (simp_all add: ne typescriptSpec_def javaSpec_def csharpSpec_def zero_cspec_def java_flags_def subst_def
        run_tokens run_token_heap run_token_plain del: replacer.simps)
qed

definition demo_config :: CompiledConfig where
  "demo_config =
     \<lparr>ccOutputLimit = 65536, ccMaxProcesses = 64, ccMaxFileSizeMB = 16, ccCompileMemoryMB = 512,
      ccMaxArtifactBytes = 1048576, ccRunSeccomp = SeccompStaticEnforce, ccMaxReportBytes = 65536\<rparr>"

theorem launcher_drops_first_flag_witness:
  "''--disable-proto=throw'' \<in> set (cRun typescriptSpec) \<and>
   run_argv (fst (newCompiled demo_host typescriptSpec demo_config 0)) (zero_request\<lparr>MemoryMB := 128\<rparr>)
      (single_plan (fst (newCompiled demo_host typescriptSpec demo_config 0))) =
     [''/usr/bin/node'', ''--max-old-space-size=128'', ''/sandbox/main.js'']"
proof -
  have "\<forall>b. look_path demo_host b \<noteq> Some []" by (simp add: demo_host_def)
  moreover have "resolveBin demo_host [''node'', ''nodejs''] = ''/usr/bin/node''"
    by (simp add: resolveBin_def demo_host_def map_filter_def)
  moreover have "itoa 128 = ''128''" by code_simp
  ultimately show ?thesis
    using launcher_drops_first_flag [of demo_host _ typescriptSpec demo_config 0 "zero_request\<lparr>MemoryMB := 128\<rparr>"]
    by (simp add: JailPath_def JailMount_def typescriptSpec_def)
qed

subsection \<open>The pinned environment\<close>

definition env_key :: "bytes \<Rightarrow> bytes" where
  "env_key e = takeWhile (\<lambda>c. c \<noteq> CHR ''='') e"

definition env_pinned :: "bytes list \<Rightarrow> bool" where
  "env_pinned env \<longleftrightarrow> take 3 env = determinism_pin \<and> distinct (map env_key env) \<and> list_all (\<lambda>e. CHR ''='' \<in> set e) env"

text \<open>The environment of every registered language's run is the same everywhere: it begins with the pinned
  locale and time zone, sets no variable twice, so that no later entry undoes the pin, and consists of
  assignments only. And the names of the languages are distinct, interpreted and compiled together.\<close>
theorem registry_pinned:
  "list_all (\<lambda>spec. env_pinned (lEnv spec)) interpreted_specs \<and>
   list_all (\<lambda>spec. env_pinned (cRunEnv spec)) compiled_specs \<and>
   distinct (map lName interpreted_specs @ map cName compiled_specs)"
  by code_simp

end
