(* ===== verification/Service.thy ===== *)
theory Service
  imports Interpreted Compiled FilePolicy "HOL-Library.Mapping"
begin

text \<open>
  \<^verbatim>\<open>internal/executor/executor.go\<close>: the language-agnostic core. A request is admitted or rejected,
  its submission normalized, its limits clamped to the operator's ceilings, and only then handed to
  the runtime registered for its language, whose result gets its provenance here.
\<close>

record Limits =
  DefaultTimeout :: int
  MaxTimeoutMs :: int
  DefaultMemory :: int
  MaxMemoryMB :: int
  MaxOutputBytes :: int
  DefaultTestTimeout :: int
  MaxTestTimeoutMs :: int
  DefaultCompileTimeout :: int
  MaxCompileTimeoutMs :: int
  FileLimits :: FileCaps
  MaxBatchTotalMs :: int

record Floors =
  FloorTimeoutMs :: int
  FloorMemoryMB :: int

text \<open>
  \<open>Runtime\<close> is a closed family here: the two concrete types of the package. Both implement
  \<open>limitFloorer\<close> and \<open>batchRunner\<close>, so the two type assertions of the service always succeed.
\<close>

datatype runtime = RInterpreted interpretedRuntime | RCompiled compiledRuntime

fun rt_Language :: "runtime \<Rightarrow> bytes" where
  "rt_Language (RInterpreted r) = lName (irSpec r)"
| "rt_Language (RCompiled r) = cName (crSpec r)"

fun rt_Version :: "runtime \<Rightarrow> bytes" where
  "rt_Version (RInterpreted r) = irVersion r"
| "rt_Version (RCompiled r) = crVersion r"

fun rt_LimitFloors :: "runtime \<Rightarrow> Floors" where
  "rt_LimitFloors (RInterpreted r) =
     \<lparr>FloorTimeoutMs = lMinTimeoutMs (irSpec r), FloorMemoryMB = lMinMemoryMB (irSpec r)\<rparr>"
| "rt_LimitFloors (RCompiled r) =
     \<lparr>FloorTimeoutMs = cMinTimeoutMs (crSpec r), FloorMemoryMB = cMinMemoryMB (crSpec r)\<rparr>"

fun rt_Run :: "'w host \<Rightarrow> runtime \<Rightarrow> RunRequest \<Rightarrow> 'w world \<Rightarrow> RunResult \<times> 'w world" where
  "rt_Run h (RInterpreted r) req w = ir_Run h r req w"
| "rt_Run h (RCompiled r) req w = cr_Run h r req w"

fun rt_RunBatch :: "'w host \<Rightarrow> runtime \<Rightarrow> RunRequest \<Rightarrow> int \<Rightarrow> 'w world \<Rightarrow> BatchResult \<times> 'w world" where
  "rt_RunBatch h (RInterpreted r) req n w = ir_RunBatch h r req n w"
| "rt_RunBatch h (RCompiled r) req n w = cr_RunBatch h r req n w"

interpretation rt: runtime_contract "rt_Run h rt" "rt_RunBatch h rt" for h :: "'w host" and rt
  using interpreted.run_closed interpreted.batch_form compiled.run_closed compiled.batch_form
  by (cases rt; unfold_locales; simp)

record svc =
  svRuntimes :: "(bytes, runtime) mapping"
  svLimits :: Limits

definition NewService :: "Limits \<Rightarrow> runtime list \<Rightarrow> svc" where
  "NewService limits rts =
     \<lparr>svRuntimes = foldl (\<lambda>m rt. Mapping.update (rt_Language rt) rt m) Mapping.empty rts, svLimits = limits\<rparr>"

subsection \<open>Limits\<close>

definition clamp :: "int \<Rightarrow> int \<Rightarrow> int \<Rightarrow> int" where
  "clamp v def mx =
     (let v1 = (if v \<le> 0 then def else v) in if mx > 0 \<and> v1 > mx then mx else v1)"

definition raiseToFloor :: "int \<Rightarrow> int \<Rightarrow> int \<Rightarrow> int" where
  "raiseToFloor v fl mx =
     (let v1 = (if fl > 0 \<and> v < fl then fl else v) in if mx > 0 \<and> v1 > mx then mx else v1)"

definition long_mode :: "bytes \<Rightarrow> bool" where
  "long_mode mode \<longleftrightarrow> mode = modeTest \<or> mode = modeTrace"

definition def_timeout :: "Limits \<Rightarrow> bytes \<Rightarrow> int" where
  "def_timeout l mode =
     (if long_mode mode \<and> DefaultTestTimeout l > 0 then DefaultTestTimeout l else DefaultTimeout l)"

definition max_timeout :: "Limits \<Rightarrow> bytes \<Rightarrow> int" where
  "max_timeout l mode =
     (if long_mode mode \<and> MaxTestTimeoutMs l > 0 then MaxTestTimeoutMs l else MaxTimeoutMs l)"

definition clampLimits :: "Limits \<Rightarrow> RunRequest \<Rightarrow> runtime \<Rightarrow> RunRequest" where
  "clampLimits l req rt =
     (let mx = max_timeout l (Mode req);
          f = rt_LimitFloors rt;
          timeout = clamp (TimeoutMs req) (def_timeout l (Mode req)) mx;
          memory = clamp (MemoryMB req) (DefaultMemory l) (MaxMemoryMB l);
          output = (if MaxOutputBytes l > 0
                    then clamp (OutputLimitBytes req) (MaxOutputBytes l) (MaxOutputBytes l)
                    else OutputLimitBytes req);
          compile = clamp (CompileTimeoutMs req) (DefaultCompileTimeout l) (MaxCompileTimeoutMs l)
      in req\<lparr>TimeoutMs := raiseToFloor timeout (FloorTimeoutMs f) mx,
             MemoryMB := raiseToFloor memory (FloorMemoryMB f) (MaxMemoryMB l),
             OutputLimitBytes := output, CompileTimeoutMs := compile\<rparr>)"

subsection \<open>Admission\<close>

definition validateMode :: "RunRequest \<Rightarrow> run_error + unit" where
  "validateMode req =
     (if Mode req = [] \<or> Mode req = modeRun then Inr ()
      else if Mode req = modeTest then
        (if supportsTestMode (Language req) then Inr () else invalid ''unsupported_test_mode'')
      else if Mode req = modeTrace then
        (if supportsTraceMode (Language req) then Inr () else invalid ''unsupported_trace_mode'')
      else invalid ''unsupported_mode'')"

definition normalize :: "Limits \<Rightarrow> RunRequest \<Rightarrow> run_error + RunRequest" where
  "normalize l req =
     (let hasSource = SourceCode req \<noteq> []; hasFiles = Files req \<noteq> [] in
      if hasSource \<and> hasFiles then invalid ''both_source_and_files''
      else if \<not> hasSource \<and> \<not> hasFiles then invalid ''no_program''
      else if hasSource then Inr req
      else
        (case policyForMode (Language req) (Mode req) (FileLimits l) of
           None \<Rightarrow> invalid ''unsupported_language''
         | Some policy \<Rightarrow>
             if Mode req = modeTest then
               rbind (validateTestFiles req policy) (\<lambda>files. Inr (req\<lparr>Files := files, Entrypoint := []\<rparr>))
             else
               rbind (validateFiles req policy) (\<lambda>(files, entry). Inr (req\<lparr>Files := files, Entrypoint := entry\<rparr>))))"

text \<open>The part of \<open>Run\<close> and \<open>RunBatch\<close> before anything is executed: the runtime and the clamped request.\<close>

definition admit_run :: "svc \<Rightarrow> RunRequest \<Rightarrow> run_error + (runtime \<times> RunRequest)" where
  "admit_run s req =
     (case Mapping.lookup (svRuntimes s) (Language req) of
        None \<Rightarrow> Inl ErrUnsupportedLanguage
      | Some rt \<Rightarrow>
          if Stdins req \<noteq> [] then invalid ''stdins_on_single_run''
          else rbind (validateMode req) (\<lambda>_. rbind (normalize (svLimits s) req) (\<lambda>normalized.
            Inr (rt, clampLimits (svLimits s) normalized rt))))"

definition admit_batch :: "svc \<Rightarrow> RunRequest \<Rightarrow> run_error + (runtime \<times> RunRequest)" where
  "admit_batch s req =
     (case Mapping.lookup (svRuntimes s) (Language req) of
        None \<Rightarrow> Inl ErrUnsupportedLanguage
      | Some rt \<Rightarrow>
          if Stdins req = [] then invalid ''empty_batch''
          else if Stdin req \<noteq> [] then invalid ''both_stdin_and_stdins''
          else if Mode req = modeTest then invalid ''test_mode_batch''
          else if Mode req = modeTrace then invalid ''trace_mode_batch''
          else rbind (validateMode req) (\<lambda>_. rbind (normalize (svLimits s) req) (\<lambda>normalized.
            Inr (rt, clampLimits (svLimits s) normalized rt))))"

subsection \<open>Running\<close>

definition sv_Run :: "'w host \<Rightarrow> svc \<Rightarrow> RunRequest \<Rightarrow> 'w world \<Rightarrow> (run_error + RunResult) \<times> 'w world" where
  "sv_Run h s req w =
     (case admit_run s req of
        Inl e \<Rightarrow> (Inl e, w)
      | Inr (rt, clamped) \<Rightarrow>
          (let (res0, w1) = rt_Run h rt clamped w;
               res1 = res0\<lparr>RuntimeName := rt_Language rt\<rparr>;
               res2 = (if RuntimeVersion res1 = [] then res1\<lparr>RuntimeVersion := rt_Version rt\<rparr> else res1);
               res = (if Language clamped = ''python'' then res2\<lparr>PythonVersion := RuntimeVersion res2\<rparr> else res2)
           in (Inr res, w1)))"

definition sv_RunBatch :: "'w host \<Rightarrow> svc \<Rightarrow> RunRequest \<Rightarrow> 'w world \<Rightarrow> (run_error + BatchResult) \<times> 'w world" where
  "sv_RunBatch h s req w =
     (case admit_batch s req of
        Inl e \<Rightarrow> (Inl e, w)
      | Inr (rt, clamped) \<Rightarrow>
          (let (res0, w1) = rt_RunBatch h rt clamped (MaxBatchTotalMs (svLimits s)) w;
               res1 = res0\<lparr>BatchRuntimeName := rt_Language rt\<rparr>;
               res = (if BatchRuntimeVersion res1 = [] then res1\<lparr>BatchRuntimeVersion := rt_Version rt\<rparr> else res1)
           in (Inr res, w1)))"

subsection \<open>The catalogue\<close>

record LanguageInfo =
  liID :: bytes
  liVersion :: bytes
  liKind :: bytes
  liMultiFile :: bool
  liBatch :: bool
  liTest :: bool
  liTrace :: bool

fun runtimeKind :: "runtime \<Rightarrow> bytes" where
  "runtimeKind (RCompiled _) = ''compiled''"
| "runtimeKind (RInterpreted _) = ''interpreted''"

definition supportsMultiFile :: "bytes \<Rightarrow> bool" where
  "supportsMultiFile lang \<longleftrightarrow> filePolicies lang \<noteq> None"

definition language_info :: "bytes \<Rightarrow> runtime \<Rightarrow> LanguageInfo" where
  "language_info k rt =
     \<lparr>liID = k, liVersion = rt_Version rt, liKind = runtimeKind rt, liMultiFile = supportsMultiFile k,
      liBatch = True, liTest = supportsTestMode k, liTrace = supportsTraceMode k\<rparr>"

definition Catalog :: "svc \<Rightarrow> LanguageInfo list" where
  "Catalog s =
     map (\<lambda>k. language_info k (the (Mapping.lookup (svRuntimes s) k))) (Mapping.ordered_keys (svRuntimes s))"

definition sv_Languages :: "svc \<Rightarrow> bytes set" where
  "sv_Languages s = Mapping.keys (svRuntimes s)"

subsection \<open>Clamping\<close>

text \<open>The operator's configuration is usable: every ceiling and default is positive.\<close>

definition limits_ok :: "Limits \<Rightarrow> bool" where
  "limits_ok l \<longleftrightarrow>
     0 < DefaultTimeout l \<and> 0 < MaxTimeoutMs l \<and> 0 < DefaultMemory l \<and> 0 < MaxMemoryMB l \<and>
     0 < MaxOutputBytes l \<and> 0 < DefaultCompileTimeout l \<and> 0 < MaxCompileTimeoutMs l"

lemma clamp_bounds:
  "0 < d \<Longrightarrow> 0 < m \<Longrightarrow> 0 < clamp v d m \<and> clamp v d m \<le> m"
  "0 < v \<Longrightarrow> v \<le> m \<Longrightarrow> clamp v d m = v"
  by (auto simp: clamp_def Let_def)

lemma raise_bounds:
  "0 < m \<Longrightarrow> 0 < v \<Longrightarrow> 0 < raiseToFloor v f m \<and> raiseToFloor v f m \<le> m \<and> min f m \<le> raiseToFloor v f m"
  "f \<le> v \<Longrightarrow> v \<le> m \<Longrightarrow> raiseToFloor v f m = v"
  "min f m \<le> v \<Longrightarrow> v \<le> m \<Longrightarrow> 0 < m \<Longrightarrow> raiseToFloor v f m = v"
  by (auto simp: raiseToFloor_def Let_def)

lemma timeouts_pos: "limits_ok l \<Longrightarrow> 0 < def_timeout l m \<and> 0 < max_timeout l m"
  by (auto simp: limits_ok_def def_timeout_def max_timeout_def)

lemma clampLimits_simps [simp]:
  "Language (clampLimits l req rt) = Language req" "Mode (clampLimits l req rt) = Mode req"
  "SourceCode (clampLimits l req rt) = SourceCode req" "Files (clampLimits l req rt) = Files req"
  "Entrypoint (clampLimits l req rt) = Entrypoint req" "Stdin (clampLimits l req rt) = Stdin req"
  "Stdins (clampLimits l req rt) = Stdins req" "Encoding (clampLimits l req rt) = Encoding req"
  by (simp_all add: clampLimits_def Let_def)

lemma clampLimits_in_bounds:
  assumes "limits_ok l"
  shows "0 < TimeoutMs (clampLimits l req rt) \<and> TimeoutMs (clampLimits l req rt) \<le> max_timeout l (Mode req)"
    and "min (FloorTimeoutMs (rt_LimitFloors rt)) (max_timeout l (Mode req)) \<le> TimeoutMs (clampLimits l req rt)"
    and "0 < MemoryMB (clampLimits l req rt) \<and> MemoryMB (clampLimits l req rt) \<le> MaxMemoryMB l"
    and "min (FloorMemoryMB (rt_LimitFloors rt)) (MaxMemoryMB l) \<le> MemoryMB (clampLimits l req rt)"
    and "0 < OutputLimitBytes (clampLimits l req rt) \<and> OutputLimitBytes (clampLimits l req rt) \<le> MaxOutputBytes l"
    and "0 < CompileTimeoutMs (clampLimits l req rt) \<and> CompileTimeoutMs (clampLimits l req rt) \<le> MaxCompileTimeoutMs l"
  using assms clamp_bounds(1) raise_bounds(1) timeouts_pos [OF assms, of "Mode req"]
  by (simp_all add: clampLimits_def Let_def limits_ok_def)


definition demo_limits :: Limits where
  "demo_limits =
     \<lparr>DefaultTimeout = 3000, MaxTimeoutMs = 10000, DefaultMemory = 128, MaxMemoryMB = 512,
      MaxOutputBytes = 65536, DefaultTestTimeout = 15000, MaxTestTimeoutMs = 30000,
      DefaultCompileTimeout = 10000, MaxCompileTimeoutMs = 20000,
      FileLimits = demo_caps, MaxBatchTotalMs = 60000\<rparr>"

definition demo_java :: runtime where
  "demo_java = RCompiled (demo_c\<lparr>crSpec := javaSpec, crRunBin := ''/usr/bin/java''\<rparr>)"


subsection \<open>What is admitted\<close>

definition entry_of :: "FilePolicy \<Rightarrow> bytes \<Rightarrow> bytes" where
  "entry_of p e = (if e = [] then DefaultEntry p else e)"

definition entry_ok :: "FilePolicy \<Rightarrow> RunFile list \<Rightarrow> bytes \<Rightarrow> bool" where
  "entry_ok p fs e \<longleftrightarrow>
     (if EntryIsClass p then \<forall>w\<in>set (split_on CHR ''.'' e). java_ident w
      else e \<in> Path ` set fs \<and> path_ok p e)"

definition mode_ok :: "RunRequest \<Rightarrow> bool" where
  "mode_ok req \<longleftrightarrow>
     Mode req \<in> {[], modeRun} \<or> Mode req = modeTest \<and> supportsTestMode (Language req) \<or>
     Mode req = modeTrace \<and> supportsTraceMode (Language req)"

definition submission_ok :: "Limits \<Rightarrow> RunRequest \<Rightarrow> bool" where
  "submission_ok l req \<longleftrightarrow>
     SourceCode req \<noteq> [] \<and> Files req = [] \<or>
     SourceCode req = [] \<and>
       (\<exists>p. policyForMode (Language req) (Mode req) (FileLimits l) = Some p \<and> files_ok p (Files req) \<and>
          (Mode req = modeTest \<or> entry_ok p (Files req) (entry_of p (Entrypoint req))))"

definition run_admissible :: "svc \<Rightarrow> RunRequest \<Rightarrow> bool" where
  "run_admissible s req \<longleftrightarrow>
     Language req \<in> Mapping.keys (svRuntimes s) \<and> Stdins req = [] \<and> mode_ok req \<and> submission_ok (svLimits s) req"

definition batch_admissible :: "svc \<Rightarrow> RunRequest \<Rightarrow> bool" where
  "batch_admissible s req \<longleftrightarrow>
     Language req \<in> Mapping.keys (svRuntimes s) \<and> Stdins req \<noteq> [] \<and> Stdin req = [] \<and>
     Mode req \<in> {[], modeRun} \<and> submission_ok (svLimits s) req"

lemma files_ok_ne: "files_ok p fs \<Longrightarrow> fs \<noteq> []"
  by (simp add: files_ok_def)

lemma resolveEntrypoint_iff:
  "resolveEntrypoint e0 (Path ` set fs) p = Inr e \<longleftrightarrow> e = entry_of p e0 \<and> entry_ok p fs e"
proof (cases "EntryIsClass p")
  case True
  then show ?thesis
    by (auto simp: resolveEntrypoint_def entry_of_def [symmetric] entry_ok_def Let_def javaClassRe_iff)
next
  case False
  then have r: "resolveEntrypoint e0 (Path ` set fs) p =
      (case validatePath (entry_of p e0) p of
         Inl _ \<Rightarrow> invalid ''invalid_entrypoint''
       | Inr clean \<Rightarrow> (if clean \<notin> Path ` set fs then invalid ''missing_entrypoint'' else Inr clean))"
    by (simp add: resolveEntrypoint_def entry_of_def [symmetric] Let_def)
  show ?thesis
  proof (cases "validatePath (entry_of p e0) p")
    case (Inl x)
    then have "\<not> path_ok p (entry_of p e0)" using validatePath_iff by (metis sum.distinct(1))
    with False Inl r show ?thesis by (auto simp: entry_ok_def)
  next
    case (Inr x)
    then have "x = entry_of p e0" "path_ok p (entry_of p e0)" using validatePath_iff by blast+
    with False Inr r show ?thesis
      by (cases "entry_of p e0 \<in> Path ` set fs") (simp_all add: entry_ok_def, blast+)
  qed
qed

lemma validateFiles_iff:
  "validateFiles req p = Inr (out, e) \<longleftrightarrow>
     files_ok p (Files req) \<and> out = sort_key Path (Files req) \<and> e = entry_of p (Entrypoint req) \<and>
     entry_ok p (Files req) e"
  by (auto simp: validateFiles_def validatePaths_iff resolveEntrypoint_iff)

lemma validateTestFiles_iff:
  "validateTestFiles req p = Inr out \<longleftrightarrow> files_ok p (Files req) \<and> out = sort_key Path (Files req)"
  by (auto simp: validateTestFiles_def validatePaths_iff)

lemma validateMode_iff: "validateMode req = Inr u \<longleftrightarrow> mode_ok req"
  by (auto simp: validateMode_def mode_ok_def)

text \<open>What a normalized request is.\<close>

lemma normalize_iff:
  "normalize l req = Inr r \<longleftrightarrow>
     submission_ok l req \<and>
     (if SourceCode req \<noteq> [] then r = req
      else (\<exists>p. policyForMode (Language req) (Mode req) (FileLimits l) = Some p \<and>
              r = req\<lparr>Files := sort_key Path (Files req),
                      Entrypoint := (if Mode req = modeTest then [] else entry_of p (Entrypoint req))\<rparr>))"
proof (cases "SourceCode req \<noteq> [] \<or> Files req = []")
  case True
  then show ?thesis by (auto simp: normalize_def submission_ok_def Let_def dest: files_ok_ne)
next
  case False
  then show ?thesis
    by (cases "policyForMode (Language req) (Mode req) (FileLimits l)")
      (auto simp: normalize_def submission_ok_def Let_def validateFiles_iff validateTestFiles_iff)
qed

lemma normalize_ok: "(\<exists>r. normalize l req = Inr r) \<longleftrightarrow> submission_ok l req"
proof -
  have "\<exists>p. policyForMode (Language req) (Mode req) (FileLimits l) = Some p"
    if "submission_ok l req" "SourceCode req = []"
    using that by (auto simp: submission_ok_def)
  then show ?thesis unfolding normalize_iff by (cases "SourceCode req = []") (auto simp del: split_paired_Ex)
qed

lemma admit_run_iff:
  "admit_run s req = Inr (rt, c) \<longleftrightarrow>
     Mapping.lookup (svRuntimes s) (Language req) = Some rt \<and> Stdins req = [] \<and> mode_ok req \<and>
     (\<exists>r. normalize (svLimits s) req = Inr r \<and> c = clampLimits (svLimits s) r rt)"
  by (auto simp: admit_run_def validateMode_iff split: option.splits)

lemma admit_batch_iff:
  "admit_batch s req = Inr (rt, c) \<longleftrightarrow>
     Mapping.lookup (svRuntimes s) (Language req) = Some rt \<and> Stdins req \<noteq> [] \<and> Stdin req = [] \<and>
     Mode req \<in> {[], modeRun} \<and> (\<exists>r. normalize (svLimits s) req = Inr r \<and> c = clampLimits (svLimits s) r rt)"
  by (auto simp: admit_batch_def validateMode_iff mode_ok_def split: option.splits if_splits)

lemma isl_iff: "isl x \<longleftrightarrow> (\<nexists>y. x = Inr y)"
  by (cases x) auto

lemma admit_run_ok: "isl (admit_run s req) \<longleftrightarrow> \<not> run_admissible s req"
  unfolding isl_iff split_paired_Ex admit_run_iff run_admissible_def normalize_ok [symmetric] keys_dom_lookup
  by auto

lemma admit_batch_ok: "isl (admit_batch s req) \<longleftrightarrow> \<not> batch_admissible s req"
  unfolding isl_iff split_paired_Ex admit_batch_iff batch_admissible_def normalize_ok [symmetric] keys_dom_lookup
  by auto

lemma sv_Run_admit: "isl (fst (sv_Run h s req w)) = isl (admit_run s req)"
  "isl (admit_run s req) \<Longrightarrow> snd (sv_Run h s req w) = w"
  by (auto simp: sv_Run_def split_beta Let_def split: sum.splits)

lemma sv_RunBatch_admit: "isl (fst (sv_RunBatch h s req w)) = isl (admit_batch s req)"
  "isl (admit_batch s req) \<Longrightarrow> snd (sv_RunBatch h s req w) = w"
  by (auto simp: sv_RunBatch_def split_beta Let_def split: sum.splits)

text \<open>C12: Admission is exactly the submission contract, and a rejected request has no effect. A single run is
  admitted exactly when its language is registered, it carries no list of inputs, its mode is one of the
  closed set and supported by the language, and it has either a source text or a list of files that the
  language's policy for that mode accepts, with an acceptable entrypoint; a batch exactly when
  moreover it has inputs, no single input and run mode. A rejection launches nothing and changes nothing.\<close>
theorem service_admission:
  "(isl (fst (sv_Run h s req w)) \<longleftrightarrow> \<not> run_admissible s req) \<and>
   (isl (fst (sv_RunBatch h s req w)) \<longleftrightarrow> \<not> batch_admissible s req) \<and>
   (run_admissible s req \<or> snd (sv_Run h s req w) = w) \<and>
   (batch_admissible s req \<or> snd (sv_RunBatch h s req w) = w)"
  using sv_Run_admit sv_RunBatch_admit admit_run_ok admit_batch_ok by metis

subsection \<open>Provenance\<close>

text \<open>The registry built at the composition root names every runtime by its own language.\<close>

lemma foldl_registry:
  "Mapping.lookup (foldl (\<lambda>m rt. Mapping.update (rt_Language rt) rt m) m rts) k = Some rt \<Longrightarrow>
     rt \<in> set rts \<and> rt_Language rt = k \<or> Mapping.lookup m k = Some rt"
proof (induction rts arbitrary: m)
  case (Cons x xs)
  then show ?case by (cases "k = rt_Language x") fastforce+
qed simp

lemma NewService_lookup:
  "Mapping.lookup (svRuntimes (NewService l rts)) k = Some rt \<Longrightarrow> rt \<in> set rts \<and> rt_Language rt = k"
  using foldl_registry [of Mapping.empty] by (fastforce simp: NewService_def)

lemma NewService_keys: "Mapping.keys (svRuntimes (NewService l rts)) = rt_Language ` set rts"
proof -
  have "Mapping.keys (foldl (\<lambda>m rt. Mapping.update (rt_Language rt) rt m) m rts) =
      rt_Language ` set rts \<union> Mapping.keys m" for m
    by (induction rts arbitrary: m) auto
  then show ?thesis by (simp add: NewService_def)
qed

lemma sv_Run_Inr:
  assumes "sv_Run h s req w = (Inr res, w')"
  obtains rt r c res0 where "Mapping.lookup (svRuntimes s) (Language req) = Some rt"
    and "normalize (svLimits s) req = Inr r" "c = clampLimits (svLimits s) r rt" "mode_ok req"
    and "rt_Run h rt c w = (res0, w')" "Status res = Status res0" "RuntimeName res = rt_Language rt"
    and "RuntimeVersion res = rt_Version rt"
    and "PythonVersion res = (if Language req = ''python'' then rt_Version rt else [])"
    and "Language c = Language req" "Mode c = Mode req"
proof -
  from assms obtain rt c where a: "admit_run s req = Inr (rt, c)"
    by (auto simp: sv_Run_def split: sum.splits)
  then obtain r where r: "Mapping.lookup (svRuntimes s) (Language req) = Some rt" "mode_ok req"
    "normalize (svLimits s) req = Inr r" "c = clampLimits (svLimits s) r rt" by (auto simp: admit_run_iff)
  have lm: "Language c = Language req" "Mode c = Mode req"
    using r(3,4) by (auto simp: normalize_iff split: if_splits)
  obtain res0 w1 where x: "rt_Run h rt c w = (res0, w1)" by fastforce
  have "closed_result res0" using rt.run_closed [of h rt c w] x by simp
  then have "RuntimeVersion res0 = []" "PythonVersion res0 = []" by (simp_all add: closed_result_def)
  with assms a x lm show thesis
    by (intro that [OF r(1,3,4,2), of res0]) (auto simp: sv_Run_def Let_def split: if_splits)
qed

lemma sv_Run_provenance:
  assumes "sv_Run h (NewService l rts) req w = (Inr res, w')"
  shows "Status res \<in> all_statuses \<and> RuntimeName res = Language req \<and>
    (\<exists>rt\<in>set rts. rt_Language rt = Language req \<and> RuntimeVersion res = rt_Version rt) \<and>
    PythonVersion res = (if Language req = ''python'' then RuntimeVersion res else [])"
proof -
  let ?s = "NewService l rts"
  from assms obtain rt c res0 where 1: "Mapping.lookup (svRuntimes ?s) (Language req) = Some rt"
    "rt_Run h rt c w = (res0, w')" "Status res = Status res0" "RuntimeName res = rt_Language rt"
    "RuntimeVersion res = rt_Version rt"
    "PythonVersion res = (if Language req = ''python'' then rt_Version rt else [])" by (rule sv_Run_Inr)
  have "rt_Language rt = Language req" "rt \<in> set rts" using NewService_lookup [OF 1(1)] by simp_all
  moreover have "Status res0 \<in> all_statuses"
    using rt.run_closed [of h rt c w] 1(2) by (simp add: closed_result_def)
  ultimately show ?thesis using 1 by auto
qed

text \<open>What a caller is told. Every run that is not rejected ends in one of the eight published statuses and
  carries the provenance of the runtime registered for the requested language, whatever the runtime
  itself returned; the deprecated Python alias repeats the version for Python and is empty otherwise.\<close>
theorem service_provenance:
  assumes "sv_Run h (NewService l rts) req w = (Inr res, w')"
  shows "Status res \<in> all_statuses \<and> RuntimeName res = Language req \<and>
    (\<exists>rt\<in>set rts. rt_Language rt = Language req \<and> RuntimeVersion res = rt_Version rt) \<and>
    PythonVersion res = (if Language req = ''python'' then RuntimeVersion res else [])"
  by (rule sv_Run_provenance [OF assms])

definition demo_service :: svc where
  "demo_service = NewService demo_limits [RInterpreted demo_python, RCompiled demo_c]"

lemma demo_service_lookup:
  "Mapping.lookup (svRuntimes demo_service) ''python'' = Some (RInterpreted demo_python)"
  "Mapping.lookup (svRuntimes demo_service) ''c'' = Some (RCompiled demo_c)"
  "svLimits demo_service = demo_limits"
  by (simp_all add: demo_service_def NewService_def demo_python_def pythonSpec_def demo_c_def cSpec_def zero_cspec_def
      lookup_update_neq)

lemma demo_service_runs: "\<exists>res w'. sv_Run demo_host demo_service demo_request demo_world = (Inr res, w')"
proof -
  have "run_admissible demo_service demo_request"
    using demo_service_lookup(1)
    by (simp add: run_admissible_def keys_dom_lookup domIff demo_request_def zero_request_def mode_ok_def submission_ok_def)
  then have "\<not> isl (fst (sv_Run demo_host demo_service demo_request demo_world))"
    by (simp add: sv_Run_admit admit_run_ok)
  then show ?thesis by (metis isl_iff prod.collapse)
qed

theorem service_provenance_witness:
  "\<exists>res. fst (sv_Run demo_host demo_service demo_request demo_world) = Inr res \<and> RuntimeName res = ''python'' \<and>
     RuntimeVersion res = ''3.12.3'' \<and> PythonVersion res = ''3.12.3''"
proof -
  from demo_service_runs obtain res w' where r: "sv_Run demo_host demo_service demo_request demo_world = (Inr res, w')"
    by blast
  have "Language demo_request = ''python''" by (simp add: demo_request_def)
  with service_provenance [OF r [unfolded demo_service_def]] r show ?thesis
    by (auto simp: demo_python_def pythonSpec_def demo_c_def cSpec_def zero_cspec_def)
qed

subsection \<open>Batches\<close>

lemma sv_RunBatch_form:
  assumes "sv_RunBatch h (NewService l rts) req w = (Inr b, w')"
  shows "Stdins req \<noteq> [] \<and> BatchRuntimeName b = Language req \<and>
    length (Results b) \<le> length (Stdins req) \<and> list_all (\<lambda>res. Status res \<in> all_statuses) (Results b) \<and>
    (if BatchStatus b = BatchStatusOK then Aborted b \<longleftrightarrow> length (Results b) < length (Stdins req)
     else BatchStatus b \<in> {StatusCompileError, StatusInternalError} \<and> Results b = [] \<and> \<not> Aborted b)"
proof -
  let ?s = "NewService l rts"
  from assms obtain rt c where a: "admit_batch ?s req = Inr (rt, c)"
    by (auto simp: sv_RunBatch_def split: sum.splits)
  then have 1: "Mapping.lookup (svRuntimes ?s) (Language req) = Some rt" "Stdins req \<noteq> []" "Stdins c = Stdins req"
    by (auto simp: admit_batch_iff normalize_iff split: if_splits)
  obtain b0 w1 where x: "rt_RunBatch h rt c (MaxBatchTotalMs (svLimits ?s)) w = (b0, w1)" by fastforce
  have "rt_Language rt = Language req" using NewService_lookup [OF 1(1)] by simp
  moreover have "batch_formed c b0" using rt.batch_form [of c h rt "MaxBatchTotalMs (svLimits ?s)" w] x by simp
  moreover have "BatchRuntimeName b = rt_Language rt" "Results b = Results b0" "Aborted b = Aborted b0"
    "BatchStatus b = BatchStatus b0"
    using assms a x by (auto simp: sv_RunBatch_def Let_def split: if_splits)
  ultimately show ?thesis using 1
    by (auto simp: batch_formed_def closed_result_def list_all_iff split: if_splits)
qed


definition batch_request :: RunRequest where
  "batch_request = demo_request\<lparr>Stdins := [''1'', ''2'']\<rparr>"


subsection \<open>Containment\<close>

fun compile_memory :: "runtime \<Rightarrow> int" where
  "compile_memory (RCompiled r) = crCompileMemoryMB r"
| "compile_memory (RInterpreted r) = 0"

text \<open>What the operator's limits allow one jail: a run's budgets, or a compilation's.\<close>

definition within_limits :: "Limits \<Rightarrow> runtime \<Rightarrow> RunRequest \<Rightarrow> Spec \<Rightarrow> bool" where
  "within_limits l rt req spec \<longleftrightarrow>
     0 < SpecTimeoutMs spec \<and>
     (SpecTimeoutMs spec \<le> max_timeout l (Mode req) \<and> 0 < SpecMemoryMB spec \<and> SpecMemoryMB spec \<le> MaxMemoryMB l \<or>
      SpecTimeoutMs spec \<le> MaxCompileTimeoutMs l \<and> SpecMemoryMB spec = compile_memory rt \<and> Writable spec) \<and>
     (TracerProcfs spec \<longrightarrow> Mode req = modeTrace)"

lemma postures_within:
  assumes "limits_ok l" and "c = clampLimits l r0 rt" and "Mode c = Mode req"
  shows "rt = RInterpreted r \<Longrightarrow> interpreted_posture r c spec \<Longrightarrow> within_limits l rt req spec"
    and "rt = RCompiled r' \<Longrightarrow> Q \<in> set (cr_phases r' c) \<Longrightarrow> Q spec \<Longrightarrow> within_limits l rt req spec"
proof -
  have b: "0 < TimeoutMs c \<and> TimeoutMs c \<le> max_timeout l (Mode req)" "0 < MemoryMB c \<and> MemoryMB c \<le> MaxMemoryMB l"
    "0 < CompileTimeoutMs c \<and> CompileTimeoutMs c \<le> MaxCompileTimeoutMs l"
    using clampLimits_in_bounds [OF assms(1), where req = r0 and rt = rt] assms(2,3) by auto
  show "rt = RInterpreted r \<Longrightarrow> interpreted_posture r c spec \<Longrightarrow> within_limits l rt req spec"
    using b by (simp add: interpreted_posture_def within_limits_def)
  show "rt = RCompiled r' \<Longrightarrow> Q \<in> set (cr_phases r' c) \<Longrightarrow> Q spec \<Longrightarrow> within_limits l rt req spec"
    using b assms(3)
    by (auto simp: cr_phases_def within_limits_def compile_posture_def run_posture_def test_posture_def
        trace_posture_def split: if_splits)
qed

lemma sv_Run_contained:
  assumes "sv_Run h s req w = (Inr res, w')" and "Sb w = Nsjail j" and "limits_ok (svLimits s)"
  shows "\<exists>rt cmds. Mapping.lookup (svRuntimes s) (Language req) = Some rt \<and>
    Launched w' = Launched w @ cmds \<and> length cmds \<le> 2 \<and>
    (\<forall>cmd\<in>set cmds. \<exists>spec. jailed_for j spec cmd \<and> within_limits (svLimits s) rt req spec)"
proof -
  from assms(1) obtain rt r c res0 where 1: "Mapping.lookup (svRuntimes s) (Language req) = Some rt"
    "c = clampLimits (svLimits s) r rt" "rt_Run h rt c w = (res0, w')" "Mode c = Mode req" by (rule sv_Run_Inr)
  note p = postures_within [OF assms(3) 1(2,4)]
  have "\<exists>cmds. Launched w' = Launched w @ cmds \<and> length cmds \<le> 2 \<and>
    (\<forall>cmd\<in>set cmds. \<exists>spec. jailed_for j spec cmd \<and> within_limits (svLimits s) rt req spec)"
  proof (cases rt)
    case (RInterpreted ir)
    with 1(3) have "ir_Run h ir c w = (res0, w')" by simp
    from ran_upto_all [OF ir_Run_ran [OF this assms(2)], of "within_limits (svLimits s) rt req"] p(1) [OF RInterpreted]
    show ?thesis by fastforce
  next
    case (RCompiled cr)
    with 1(3) have "cr_Run h cr c w = (res0, w')" by simp
    from cr_Run_ran [OF this assms(2)] have "ran_upto j (cr_phases cr c) w w'" by blast
    from ran_upto_all [OF this, of "within_limits (svLimits s) rt req"] p(2) [OF RCompiled]
    have "\<exists>cmds. Launched w' = Launched w @ cmds \<and> length cmds \<le> length (cr_phases cr c) \<and>
      (\<forall>cmd\<in>set cmds. \<exists>spec. jailed_for j spec cmd \<and> within_limits (svLimits s) rt req spec)" by blast
    moreover have "length (cr_phases cr c) \<le> 2" by (simp add: cr_phases_def)
    ultimately show ?thesis using le_trans by blast
  qed
  with 1(1) show ?thesis by blast
qed

lemma sv_RunBatch_contained:
  assumes "sv_RunBatch h s req w = (Inr b, w')" and "Sb w = Nsjail j" and "limits_ok (svLimits s)"
  shows "\<exists>rt cmds. Mapping.lookup (svRuntimes s) (Language req) = Some rt \<and>
    Launched w' = Launched w @ cmds \<and> length cmds \<le> Suc (length (Results b)) \<and>
    (\<forall>cmd\<in>set cmds. \<exists>spec. jailed_for j spec cmd \<and> within_limits (svLimits s) rt req spec)"
proof -
  from assms(1) obtain rt c where a: "admit_batch s req = Inr (rt, c)"
    by (auto simp: sv_RunBatch_def split: sum.splits)
  then obtain r where 1: "Mapping.lookup (svRuntimes s) (Language req) = Some rt" "c = clampLimits (svLimits s) r rt"
    "Mode c = Mode req" "Mode req \<in> {[], modeRun}" by (auto simp: admit_batch_iff normalize_iff split: if_splits)
  obtain b0 w1 where x: "rt_RunBatch h rt c (MaxBatchTotalMs (svLimits s)) w = (b0, w1)" by fastforce
  have b: "Results b = Results b0" "w' = w1"
    using assms(1) a x by (auto simp: sv_RunBatch_def Let_def split: if_splits)
  have m: "Mode c \<notin> {modeTest, modeTrace}" using 1(3,4) by (auto simp: modeRun_def modeTest_def modeTrace_def)
  note p = postures_within [OF assms(3) 1(2,3)]
  have "\<exists>cmds. Launched w' = Launched w @ cmds \<and> length cmds \<le> Suc (length (Results b)) \<and>
    (\<forall>cmd\<in>set cmds. \<exists>spec. jailed_for j spec cmd \<and> within_limits (svLimits s) rt req spec)"
  proof (cases rt)
    case (RInterpreted ir)
    with x have "ir_RunBatch h ir c (MaxBatchTotalMs (svLimits s)) w = (b0, w1)" by simp
    from ir_RunBatch_ran [OF this assms(2) m] obtain k where k: "k \<le> length (Results b0)"
      "ran_upto j (replicate k (interpreted_posture ir c)) w w1" by blast
    have "\<exists>cmds. Launched w1 = Launched w @ cmds \<and> length cmds \<le> k \<and>
      (\<forall>cmd\<in>set cmds. \<exists>spec. jailed_for j spec cmd \<and> within_limits (svLimits s) rt req spec)"
      using ran_upto_all [OF k(2), of "within_limits (svLimits s) rt req"] p(1) [OF RInterpreted] by simp
    with k(1) b show ?thesis by (metis le_SucI le_trans)
  next
    case (RCompiled cr)
    with x have "cr_RunBatch h cr c (MaxBatchTotalMs (svLimits s)) w = (b0, w1)" by simp
    from cr_RunBatch_ran [OF this assms(2)] obtain k where k: "k \<le> length (Results b0)"
      "ran_upto j (compile_posture cr c # replicate k (run_posture cr c)) w w1" by blast
    have ph: "set (compile_posture cr c # replicate k (run_posture cr c)) \<subseteq> set (cr_phases cr c)"
      using m by (auto simp: cr_phases_def)
    have "\<exists>cmds. Launched w1 = Launched w @ cmds \<and> length cmds \<le> Suc k \<and>
      (\<forall>cmd\<in>set cmds. \<exists>spec. jailed_for j spec cmd \<and> within_limits (svLimits s) rt req spec)"
      using ran_upto_all [OF k(2), of "within_limits (svLimits s) rt req"] p(2) [OF RCompiled] ph by fastforce
    with k(1) b show ?thesis by (metis Suc_le_mono le_trans)
  qed
  with 1(1) show ?thesis by blast
qed

text \<open>At most \<open>n\<close> processes were launched, each in a jail made for it and within the operator's limits.\<close>

definition contained_launches :: "svc \<Rightarrow> nsjailSandbox \<Rightarrow> RunRequest \<Rightarrow> nat \<Rightarrow> 'w world \<Rightarrow> 'w world \<Rightarrow> bool" where
  "contained_launches s j req n w w' \<longleftrightarrow>
     (\<exists>rt cmds. Mapping.lookup (svRuntimes s) (Language req) = Some rt \<and>
        Launched w' = Launched w @ cmds \<and> length cmds \<le> n \<and>
        (\<forall>cmd\<in>set cmds. \<exists>spec. jailed_for j spec cmd \<and> within_limits (svLimits s) rt req spec))"


lemma demo_service_launched: "Launched (snd (sv_Run demo_host demo_service demo_request demo_world)) \<noteq> []"
proof -
  have "admit_run demo_service demo_request = Inr (RInterpreted demo_python, clampLimits demo_limits demo_request (RInterpreted demo_python))"
    by (simp add: admit_run_iff normalize_iff submission_ok_def demo_service_lookup mode_ok_def,
      simp add: demo_request_def zero_request_def demo_service_lookup)
  moreover have "clampLimits demo_limits demo_request (RInterpreted demo_python) =
      demo_request\<lparr>OutputLimitBytes := 65536, CompileTimeoutMs := 10000\<rparr>"
    by (simp add: clampLimits_def clamp_def raiseToFloor_def max_timeout_def def_timeout_def long_mode_def Let_def
        demo_limits_def demo_python_def pythonSpec_def zero_request_def demo_request_def)
  ultimately show ?thesis
    by (simp add: sv_Run_def ir_Run_def ir_prepare_def ir_execute_def demo_run_defs pythonSpec_def zero_request_def
      MkdirTemp_def WriteFile_def write_file_def fresh_dir_def Command_def
      nsjail_Command_def clock_def cmd_Run_def Let_def acct_Close_def)
qed


subsection \<open>The catalogue\<close>

text \<open>The discovery catalogue is exactly the registry. It lists the languages of the registered runtimes, each
  once and in order; a language is listed as taking a list of files exactly when it has a file policy in run
  mode, as taking tests or traces exactly when a request in that mode passes the mode check; and its
  version and kind are those of its runtime.\<close>
theorem catalog_exact:
  "map liID (Catalog (NewService l rts)) = sorted_list_of_set (rt_Language ` set rts) \<and>
   list_all (\<lambda>i. (liMultiFile i \<longleftrightarrow> policyForMode (liID i) modeRun (FileLimits l) \<noteq> None) \<and>
      (liTest i \<longleftrightarrow> mode_ok (zero_request\<lparr>Language := liID i, Mode := modeTest\<rparr>)) \<and>
      (liTrace i \<longleftrightarrow> mode_ok (zero_request\<lparr>Language := liID i, Mode := modeTrace\<rparr>)) \<and> liBatch i \<and>
      (\<exists>rt\<in>set rts. rt_Language rt = liID i \<and> liVersion i = rt_Version rt \<and> liKind i = runtimeKind rt))
     (Catalog (NewService l rts))"
proof -
  have fin: "finite (Mapping.keys (svRuntimes (NewService l rts)))" by (simp add: NewService_keys)
  have k: "set (Mapping.ordered_keys (svRuntimes (NewService l rts))) = rt_Language ` set rts"
    using fin by (simp add: NewService_keys)
  have rt: "the (Mapping.lookup (svRuntimes (NewService l rts)) k) \<in> set rts \<and>
      rt_Language (the (Mapping.lookup (svRuntimes (NewService l rts)) k)) = k" if "k \<in> rt_Language ` set rts" for k
  proof -
    from that have "k \<in> Mapping.keys (svRuntimes (NewService l rts))" by (simp add: NewService_keys)
    then obtain rt where "Mapping.lookup (svRuntimes (NewService l rts)) k = Some rt" by (auto simp: keys_dom_lookup)
    with NewService_lookup [OF this] show ?thesis by simp
  qed
  have "map liID (Catalog (NewService l rts)) = Mapping.ordered_keys (svRuntimes (NewService l rts))"
    by (simp add: Catalog_def language_info_def comp_def)
  also have "\<dots> = sorted_list_of_set (rt_Language ` set rts)"
    using fin by (simp add: ordered_keys_def NewService_keys)
  finally show ?thesis
    using k rt by (auto simp: Catalog_def language_info_def list_all_iff supportsMultiFile_def policyForMode_def mode_ok_def)
qed

lemma sort_key_Nil: "sort_key f xs = [] \<longleftrightarrow> xs = []"
  by (metis length_0_conv length_sort)

definition demo_rust :: compiledRuntime where
  "demo_rust = demo_c\<lparr>crSpec := rustSpec, crCompilerBin := ''/usr/bin/rustc''\<rparr>"

definition rust_request :: RunRequest where
  "rust_request = zero_request\<lparr>Language := ''rust'', Files := [\<lparr>Path = ''main.rs'', Content = ''fn main() {}''\<rparr>]\<rparr>"

definition rust_service :: svc where
  "rust_service = NewService demo_limits [RCompiled demo_rust]"

lemma rust_request_ok: "run_admissible rust_service rust_request"
proof -
  have p: "path_ok (with_caps demo_caps (the (filePolicies ''rust''))) ''main.rs''"
    by (simp add: path_ok_def Let_def comp_ok_def demo_policy_defs path_Ext_def in_class_def
      head_ranges_def comp_ranges_def alnum_ranges_def ascii_lower_def)
  have "files_ok (with_caps demo_caps (the (filePolicies ''rust''))) [\<lparr>Path = ''main.rs'', Content = ''fn main() {}''\<rparr>]"
    using p by (simp add: files_ok_def, simp add: demo_policy_defs compile_unit_def path_Ext_def ascii_lower_def)
  moreover have "entry_of (with_caps demo_caps (the (filePolicies ''rust''))) [] = ''main.rs''"
    by (simp add: entry_of_def demo_policy_defs)
  moreover have "\<not> EntryIsClass (with_caps demo_caps (the (filePolicies ''rust'')))" by (simp add: demo_policy_defs)
  moreover have "policyForMode ''rust'' [] demo_caps = Some (with_caps demo_caps (the (filePolicies ''rust'')))"
    by (simp add: policyForMode_def filePolicies_def)
  ultimately show ?thesis using p
    by (simp add: run_admissible_def rust_service_def NewService_keys, simp add: rust_request_def zero_request_def
        mode_ok_def submission_ok_def NewService_def demo_limits_def entry_ok_def demo_rust_def rustSpec_def zero_cspec_def)
qed

text \<open>C40: A defect: a multi-file Rust submission. Rust has a file policy, so the catalogue offers multi-file Rust
  and such a submission is admitted; but the Rust runtime has no multi-file build, so every one of them
  ends as a failure of the service's own, with nothing ever launched.\<close>
theorem rust_multifile_fails:
  assumes "Mapping.lookup (svRuntimes s) ''rust'' = Some (RCompiled r)" and "crSpec r = rustSpec"
    and "Language req = ''rust''" and "Files req \<noteq> []" and "run_admissible s req"
  shows "supportsMultiFile ''rust'' \<and>
    (\<exists>res w'. sv_Run h s req w = (Inr res, w') \<and> Status res = StatusInternalError \<and> Launched w' = Launched w)"
proof -
  have "\<not> isl (fst (sv_Run h s req w))" using assms(5) by (simp add: sv_Run_admit admit_run_ok)
  then obtain res w' where x: "sv_Run h s req w = (Inr res, w')" by (metis isl_iff prod.collapse)
  then obtain rt c res0 r0 where 1: "Mapping.lookup (svRuntimes s) (Language req) = Some rt"
    "rt_Run h rt c w = (res0, w')" "Status res = Status res0" "Mode c = Mode req"
    "normalize (svLimits s) req = Inr r0" "c = clampLimits (svLimits s) r0 rt" by (rule sv_Run_Inr)
  have m: "Mode req \<notin> {modeTest, modeTrace}"
    using assms(3,5) by (auto simp: run_admissible_def mode_ok_def supportsTestMode_def supportsTraceMode_def
        testCommands_def compiledTestCommands_def traceCommands_def modeRun_def modeTest_def modeTrace_def)
  have f: "Files c \<noteq> []"
    using 1(5,6) assms(4) by (auto simp: normalize_iff submission_ok_def sort_key_Nil split: if_splits)
  have p: "cr_plan h r c v = (Inl ''language does not support multi-file submissions'', v)" for v
    using f by (simp add: cr_plan_def assms(2) rustSpec_def zero_cspec_def)
  have "rt = RCompiled r" using 1(1) assms(1,3) by simp
  with 1(2) have "cr_Run h r c w = (res0, w')" by simp
  then have "Status res0 = StatusInternalError \<and> Launched w' = Launched w"
    using m 1(4) MkdirTemp_keeps [of h "''dalivim-build-*''" w]
    by (auto simp: cr_Run_def p split: prod.splits option.splits)
  moreover have "supportsMultiFile ''rust''" by (simp add: supportsMultiFile_def filePolicies_def)
  ultimately show ?thesis using x 1(3) by (intro conjI exI [of _ res] exI [of _ w']) simp_all
qed

theorem rust_multifile_fails_witness:
  "\<exists>res w'. sv_Run demo_host rust_service rust_request demo_world = (Inr res, w') \<and>
     Status res = StatusInternalError \<and> Launched w' = []"
proof -
  have "Mapping.lookup (svRuntimes rust_service) ''rust'' = Some (RCompiled demo_rust)" "crSpec demo_rust = rustSpec"
    "Language rust_request = ''rust''" "Files rust_request \<noteq> []"
    by (simp_all add: rust_service_def NewService_def demo_rust_def rustSpec_def zero_cspec_def rust_request_def)
  from rust_multifile_fails [OF this rust_request_ok, of demo_host demo_world] show ?thesis
    by (simp add: demo_world_def)
qed

end
