(* ===== verification/Metrics.thy ===== *)
theory Metrics
  imports RunnerApi GoStrconv "HOL-Library.Word" "HOL-Library.Mapping" "HOL-Library.Product_Lexorder"
begin

text \<open>
  \<^verbatim>\<open>internal/metrics/metrics.go\<close>: the counters, the concurrency gauge and the duration histograms. Every
  operation holds the registry's mutex for its whole body, so a history is a sequence of operations. The
  counters are Go's \<open>int64\<close>, kept at their width. A duration is kept in milliseconds and compared with
  the bucket bounds in milliseconds: the source divides by 1000 into a \<open>float64\<close>, which is monotone and
  exact on the bounds, so the bucket is the same; of the floating-point running sum the terms are
  kept, in the order in which they were added.
\<close>

type_synonym counter = "64 word"

record histogram =
  buckets :: "int list"
  counts :: "counter list"
  summands :: "int list"

definition runBuckets :: "int list" where
  "runBuckets = [50, 100, 250, 500, 1000, 2500, 5000, 10000]"

definition compileBuckets :: "int list" where
  "compileBuckets = [100, 500, 1000, 2500, 5000, 10000, 20000]"

definition newHistogram :: "int list \<Rightarrow> histogram" where
  "newHistogram bs = \<lparr>buckets = bs, counts = replicate (Suc (length bs)) 0, summands = []\<rparr>"

text \<open>\<^verbatim>\<open>sort.SearchFloat64s\<close>: the first index whose bound is not below the value, or the length.\<close>

fun search_bound :: "int list \<Rightarrow> int \<Rightarrow> nat" where
  "search_bound [] v = 0"
| "search_bound (b # bs) v = (if b \<ge> v then 0 else Suc (search_bound bs v))"

definition observe :: "histogram \<Rightarrow> int \<Rightarrow> histogram" where
  "observe h v =
     (let i = search_bound (buckets h) v
      in h\<lparr>summands := summands h @ [v], counts := (counts h)[i := counts h ! i + 1]\<rparr>)"

record Metrics =
  runsTotal :: "(bytes \<times> bytes, counter) mapping"
  oomTotal :: "(bytes, counter) mapping"
  timeoutTotal :: "(bytes, counter) mapping"
  outputLimit :: counter
  overloadTotal :: counter
  inflight :: counter
  runDur :: "(bytes, histogram) mapping"
  compileDur :: "(bytes, histogram) mapping"

definition newMetrics :: Metrics where
  "newMetrics =
     \<lparr>runsTotal = Mapping.empty, oomTotal = Mapping.empty, timeoutTotal = Mapping.empty, outputLimit = 0,
      overloadTotal = 0, inflight = 0, runDur = Mapping.empty, compileDur = Mapping.empty\<rparr>"

text \<open>The statement \<open>m[k]++\<close> on a Go map of counters: an absent key reads as zero.\<close>

definition bump :: "'k \<Rightarrow> ('k, counter) mapping \<Rightarrow> ('k, counter) mapping" where
  "bump k m = Mapping.update k (Mapping.lookup_default 0 m k + 1) m"

definition hist :: "(bytes, histogram) mapping \<Rightarrow> bytes \<Rightarrow> int list \<Rightarrow> histogram" where
  "hist hs language bs = Mapping.lookup_default (newHistogram bs) hs language"

definition ObserveRun :: "bytes \<Rightarrow> bytes \<Rightarrow> int \<Rightarrow> int \<Rightarrow> Metrics \<Rightarrow> Metrics" where
  "ObserveRun language status durationMs compileMs m =
     (let m1 = m\<lparr>runsTotal := bump (language, status) (runsTotal m),
                 runDur := Mapping.update language (observe (hist (runDur m) language runBuckets) durationMs) (runDur m)\<rparr>;
          m2 = (if compileMs > 0
                then m1\<lparr>compileDur := Mapping.update language
                        (observe (hist (compileDur m1) language compileBuckets) compileMs) (compileDur m1)\<rparr>
                else m1)
      in if status = ''memory_exceeded'' then m2\<lparr>oomTotal := bump language (oomTotal m2)\<rparr>
         else if status = ''timeout'' then m2\<lparr>timeoutTotal := bump language (timeoutTotal m2)\<rparr>
         else if status = ''output_limit_exceeded'' then m2\<lparr>outputLimit := outputLimit m2 + 1\<rparr>
         else m2)"

definition Overload :: "Metrics \<Rightarrow> Metrics" where
  "Overload m = m\<lparr>overloadTotal := overloadTotal m + 1\<rparr>"

definition addInflight :: "counter \<Rightarrow> Metrics \<Rightarrow> Metrics" where
  "addInflight d m = m\<lparr>inflight := inflight m + d\<rparr>"

definition IncInflight :: "Metrics \<Rightarrow> Metrics" where "IncInflight = addInflight 1"
definition DecInflight :: "Metrics \<Rightarrow> Metrics" where "DecInflight = addInflight (- 1)"

subsection \<open>Histories\<close>

text \<open>A history is the sequence of the operations that took the mutex.\<close>

datatype metric_op = Observe bytes bytes int int | Shed | Enter | Leave

fun apply_op :: "metric_op \<Rightarrow> Metrics \<Rightarrow> Metrics" where
  "apply_op (Observe l s d c) m = ObserveRun l s d c m"
| "apply_op Shed m = Overload m"
| "apply_op Enter m = IncInflight m"
| "apply_op Leave m = DecInflight m"

definition after :: "metric_op list \<Rightarrow> Metrics" where
  "after ops = fold apply_op ops newMetrics"

lemma after_Nil [simp]: "after [] = newMetrics"
  by (simp add: after_def)

lemma after_snoc [simp]: "after (ops @ [x]) = apply_op x (after ops)"
  by (simp add: after_def)

fun is_obs :: "bytes \<Rightarrow> metric_op \<Rightarrow> bool" where
  "is_obs l (Observe l' s d c) = (l = l')"
| "is_obs l _ = False"

fun is_run :: "bytes \<Rightarrow> bytes \<Rightarrow> metric_op \<Rightarrow> bool" where
  "is_run l s (Observe l' s' d c) = (l = l' \<and> s = s')"
| "is_run l s _ = False"

fun is_flood :: "metric_op \<Rightarrow> bool" where
  "is_flood (Observe l s d c) = (s = ''output_limit_exceeded'')"
| "is_flood _ = False"

fun is_compiled :: "bytes \<Rightarrow> metric_op \<Rightarrow> bool" where
  "is_compiled l (Observe l' s d c) = (l = l' \<and> c > 0)"
| "is_compiled l _ = False"

fun in_bucket :: "bytes \<Rightarrow> int \<Rightarrow> metric_op \<Rightarrow> bool" where
  "in_bucket l ub (Observe l' s d c) = (l = l' \<and> d \<le> ub)"
| "in_bucket l ub _ = False"

definition how_many :: "('a \<Rightarrow> bool) \<Rightarrow> 'a list \<Rightarrow> counter" where
  "how_many P xs = of_nat (length (filter P xs))"

lemma how_many_simps [simp]:
  "how_many P [] = 0" "how_many P (xs @ [x]) = how_many P xs + (if P x then 1 else 0)"
  by (simp_all add: how_many_def)

text \<open>The cumulative counts a histogram is rendered with: all observations up to a bound.\<close>

definition cumulative :: "histogram \<Rightarrow> nat \<Rightarrow> counter" where
  "cumulative h i = sum_list (take (Suc i) (counts h))"

definition hist_ok :: "int list \<Rightarrow> histogram \<Rightarrow> bool" where
  "hist_ok bs h \<longleftrightarrow> buckets h = bs \<and> length (counts h) = Suc (length bs)"

lemma search_bound_le: "search_bound bs v \<le> length bs"
  by (induction bs) auto

lemma sum_list_bump:
  "i < length xs \<Longrightarrow> sum_list (take n (xs[i := xs ! i + 1])) = sum_list (take n xs) + (if i < n then 1 else (0::counter))"
proof (induction xs arbitrary: i n)
  case (Cons x xs)
  then show ?case by (cases i; cases n) (auto simp: algebra_simps)
qed simp

lemma search_bound_nth: "sorted bs \<Longrightarrow> i < length bs \<Longrightarrow> search_bound bs v \<le> i \<longleftrightarrow> v \<le> bs ! i"
proof (induction bs arbitrary: i)
  case (Cons b bs)
  show ?case
  proof (cases i)
    case (Suc k)
    with Cons.prems have "b \<le> bs ! k" "k < length bs" by simp_all
    then have "v \<le> b \<Longrightarrow> v \<le> bs ! k" by linarith
    with Cons.IH [of k] Cons.prems(1) \<open>k < length bs\<close> Suc show ?thesis by auto
  qed simp
qed simp

lemma observe_ok: "hist_ok bs h \<Longrightarrow> hist_ok bs (observe h v)"
  by (simp add: hist_ok_def observe_def Let_def)

lemma observe_cumulative:
  assumes "hist_ok bs h" and "sorted bs"
  shows "i < length bs \<Longrightarrow> cumulative (observe h v) i = cumulative h i + (if v \<le> bs ! i then 1 else 0)"
    and "cumulative (observe h v) (length bs) = cumulative h (length bs) + 1"
proof -
  have b: "search_bound bs v < length (counts h)"
    using assms(1) search_bound_le [of bs v] by (simp add: hist_ok_def)
  have c: "cumulative (observe h v) n = cumulative h n + (if search_bound bs v \<le> n then 1 else 0)" for n
    using sum_list_bump [OF b, of "Suc n"] assms(1)
    by (simp add: hist_ok_def observe_def cumulative_def Let_def less_Suc_eq_le)
  show "i < length bs \<Longrightarrow> cumulative (observe h v) i = cumulative h i + (if v \<le> bs ! i then 1 else 0)"
    using c search_bound_nth [OF assms(2), of i v] by simp
  show "cumulative (observe h v) (length bs) = cumulative h (length bs) + 1"
    using c search_bound_le [of bs v] by simp
qed

subsection \<open>Conservation\<close>

lemma count_bump [simp]:
  "Mapping.lookup_default 0 (bump k m) k' = Mapping.lookup_default 0 m k' + (if k' = k then 1 else 0)"
  "Mapping.keys (bump k m) = insert k (Mapping.keys m)"
  by (auto simp: bump_def lookup_default_update')

lemma ObserveRun_simps [simp]:
  "runsTotal (ObserveRun l s d c m) = bump (l, s) (runsTotal m)"
  "oomTotal (ObserveRun l s d c m) = (if s = ''memory_exceeded'' then bump l (oomTotal m) else oomTotal m)"
  "timeoutTotal (ObserveRun l s d c m) = (if s = ''timeout'' then bump l (timeoutTotal m) else timeoutTotal m)"
  "outputLimit (ObserveRun l s d c m) = outputLimit m + (if s = ''output_limit_exceeded'' then 1 else 0)"
  "overloadTotal (ObserveRun l s d c m) = overloadTotal m" "inflight (ObserveRun l s d c m) = inflight m"
  "runDur (ObserveRun l s d c m) = Mapping.update l (observe (hist (runDur m) l runBuckets) d) (runDur m)"
  "compileDur (ObserveRun l s d c m) =
     (if c > 0 then Mapping.update l (observe (hist (compileDur m) l compileBuckets) c) (compileDur m) else compileDur m)"
  by (simp_all add: ObserveRun_def Let_def)

lemma op_simps [simp]:
  "Overload m = m\<lparr>overloadTotal := overloadTotal m + 1\<rparr>" "IncInflight m = m\<lparr>inflight := inflight m + 1\<rparr>"
  "DecInflight m = m\<lparr>inflight := inflight m - 1\<rparr>"
  by (simp_all add: Overload_def IncInflight_def DecInflight_def addInflight_def)

lemma newMetrics_simps [simp]:
  "runsTotal newMetrics = Mapping.empty" "oomTotal newMetrics = Mapping.empty" "timeoutTotal newMetrics = Mapping.empty"
  "outputLimit newMetrics = 0" "overloadTotal newMetrics = 0" "inflight newMetrics = 0"
  "runDur newMetrics = Mapping.empty" "compileDur newMetrics = Mapping.empty"
  by (simp_all add: newMetrics_def)

lemma fresh_hist: "hist_ok bs (newHistogram bs)" "cumulative (newHistogram bs) i = 0"
  by (simp_all add: hist_ok_def newHistogram_def cumulative_def sum_list_replicate)

lemma hist_upd [simp]:
  "hist (Mapping.update l h hs) k bs = (if k = l then h else hist hs k bs)" "hist Mapping.empty k bs = newHistogram bs"
  by (simp_all add: hist_def lookup_default_update' lookup_default_empty)

lemma bucket_lists: "sorted runBuckets" "sorted compileBuckets"
  by (simp_all add: runBuckets_def compileBuckets_def)

lemma after_counters:
  "Mapping.lookup_default 0 (runsTotal (after ops)) (l, s) = how_many (is_run l s) ops"
  "Mapping.lookup_default 0 (oomTotal (after ops)) l = how_many (is_run l ''memory_exceeded'') ops"
  "Mapping.lookup_default 0 (timeoutTotal (after ops)) l = how_many (is_run l ''timeout'') ops"
  "outputLimit (after ops) = how_many is_flood ops"
  "overloadTotal (after ops) = how_many (\<lambda>x. x = Shed) ops"
  "inflight (after ops) = how_many (\<lambda>x. x = Enter) ops - how_many (\<lambda>x. x = Leave) ops"
proof (induction ops rule: rev_induct)
  case (snoc x xs)
  { case 1 show ?case using snoc(1) by (cases x) auto }
  { case 2 show ?case using snoc(2) by (cases x) auto }
  { case 3 show ?case using snoc(3) by (cases x) auto }
  { case 4 show ?case using snoc(4) by (cases x) auto }
  { case 5 show ?case using snoc(5) by (cases x) auto }
  { case 6 show ?case using snoc(6) by (cases x) auto }
qed (simp_all add: lookup_default_empty)

lemma after_run_hist:
  "hist_ok runBuckets (hist (runDur (after ops)) l runBuckets) \<and>
   cumulative (hist (runDur (after ops)) l runBuckets) (length runBuckets) = how_many (is_obs l) ops \<and>
   (\<forall>i<length runBuckets. cumulative (hist (runDur (after ops)) l runBuckets) i =
      how_many (in_bucket l (runBuckets ! i)) ops)"
proof (induction ops rule: rev_induct)
  case Nil
  show ?case by (simp add: fresh_hist)
next
  case (snoc x xs)
  let ?h = "hist (runDur (after xs)) l runBuckets"
  show ?case
  proof (cases x)
    case (Observe l' s d c)
    show ?thesis
    proof (cases "l = l'")
      case True
      have h: "hist (runDur (after (xs @ [x]))) l runBuckets = observe ?h d"
        using Observe True by simp
      with snoc observe_ok [of runBuckets ?h d] observe_cumulative [where bs = runBuckets and h = ?h and v = d] bucket_lists Observe True
      show ?thesis unfolding h by simp
    next
      case False
      then have h: "hist (runDur (after (xs @ [x]))) l runBuckets = ?h" using Observe by simp
      show ?thesis unfolding h using snoc Observe False by auto
    qed
  qed (use snoc in simp_all)
qed

lemma after_compile_hist:
  "hist_ok compileBuckets (hist (compileDur (after ops)) l compileBuckets) \<and>
   cumulative (hist (compileDur (after ops)) l compileBuckets) (length compileBuckets) = how_many (is_compiled l) ops"
proof (induction ops rule: rev_induct)
  case Nil
  show ?case by (simp add: fresh_hist)
next
  case (snoc x xs)
  let ?h = "hist (compileDur (after xs)) l compileBuckets"
  show ?case
  proof (cases x)
    case (Observe l' s d c)
    show ?thesis
    proof (cases "l = l' \<and> c > 0")
      case True
      then have h: "hist (compileDur (after (xs @ [x]))) l compileBuckets = observe ?h c"
        using Observe by simp
      with snoc observe_ok [of compileBuckets ?h c] observe_cumulative [where bs = compileBuckets and h = ?h and v = c] bucket_lists Observe True
      show ?thesis unfolding h by simp
    next
      case False
      then have h: "hist (compileDur (after (xs @ [x]))) l compileBuckets = ?h" using Observe by auto
      show ?thesis unfolding h using snoc Observe False by auto
    qed
  qed (use snoc in simp_all)
qed

text \<open>The metrics add up. After any sequence of operations, each \<open>{language, status}\<close> counter is the number of runs so
  observed; the memory and timeout counters repeat theirs; the duration histogram of a language counts each
  of its runs once, its cumulative count at a bound being the number of runs that took no longer; the compile
  histogram counts the runs that compiled; and the gauge is the number of entries less the number of exits.
  (All at 64 bits, so modulo the width of the counters.)\<close>
theorem metrics_conserved:
  "(let runs = Mapping.lookup_default 0 (runsTotal (after ops)) in
     runs (l, s) = how_many (is_run l s) ops \<and>
     Mapping.lookup_default 0 (oomTotal (after ops)) l = runs (l, ''memory_exceeded'') \<and>
     Mapping.lookup_default 0 (timeoutTotal (after ops)) l = runs (l, ''timeout'')) \<and>
   outputLimit (after ops) = how_many is_flood ops \<and>
   overloadTotal (after ops) = how_many (\<lambda>x. x = Shed) ops \<and>
   inflight (after ops) = how_many (\<lambda>x. x = Enter) ops - how_many (\<lambda>x. x = Leave) ops \<and>
   cumulative (hist (runDur (after ops)) l runBuckets) (length runBuckets) = how_many (is_obs l) ops \<and>
   list_all (\<lambda>i. cumulative (hist (runDur (after ops)) l runBuckets) i = how_many (in_bucket l (runBuckets ! i)) ops)
     [0..<length runBuckets] \<and>
   cumulative (hist (compileDur (after ops)) l compileBuckets) (length compileBuckets) = how_many (is_compiled l) ops"
  using after_run_hist [of ops l] after_compile_hist [of ops l]
  by (simp add: after_counters list_all_iff Let_def)

end
