(* ===== verification/Exposition.thy ===== *)
theory Exposition
  imports Metrics
begin

text \<open>
  The text exposition of \<^verbatim>\<open>internal/metrics/metrics.go\<close>: \<open>Render\<close> and its writers, and a reader of that format as
  a scraper has one. A bucket bound is a constant of the source, in milliseconds here, and its shortest decimal in
  seconds is computed; the text of a histogram's sum, a \<open>float64\<close> accumulated in the order of the observations, is a
  parameter applied to those observations.
\<close>


definition FormatInt :: "counter \<Rightarrow> bytes" where
  "FormatInt c = itoa (sint c)"

text \<open>\<open>FormatFloat(ms / 1000, 'g', -1, 64)\<close> for a non-negative number of milliseconds below 10 to the 24.\<close>

definition FormatSeconds :: "int \<Rightarrow> bytes" where
  "FormatSeconds ms =
     (let d = nat (ms mod 1000);
          frac = [digit_char (d div 100), digit_char (d div 10 mod 10), digit_char (d mod 10)]
      in itoa (ms div 1000) @
         (if d = 0 then [] else CHR ''.'' # rev (dropWhile (\<lambda>c. c = CHR ''0'') (rev frac))))"

subsection \<open>The writers\<close>

text \<open>The keys of a map are gathered in Go's random order and sorted, pairs by their first component first.\<close>

definition sortedKeys :: "(bytes, 'v) mapping \<Rightarrow> bytes list" where
  "sortedKeys m = Mapping.ordered_keys m"

definition sortedPairKeys :: "(bytes \<times> bytes, counter) mapping \<Rightarrow> (bytes \<times> bytes) list" where
  "sortedPairKeys m = Mapping.ordered_keys m"

text \<open>Each writer is the text it appends to the builder.\<close>

definition writeCounterHead :: "bytes \<Rightarrow> bytes \<Rightarrow> bytes" where
  "writeCounterHead name help = ''# HELP '' @ name @ '' '' @ help @ nl @ ''# TYPE '' @ name @ '' counter'' @ nl"

definition writeLangCounter :: "bytes \<Rightarrow> bytes \<Rightarrow> (bytes, counter) mapping \<Rightarrow> bytes" where
  "writeLangCounter name help m =
     writeCounterHead name help @
     concat (map (\<lambda>lang. name @ ''{language='' @ go_quote lang @ ''} '' @
                    FormatInt (Mapping.lookup_default 0 m lang) @ nl) (sortedKeys m))"

text \<open>The loop over the buckets of one histogram, with its running count.\<close>

fun bucket_lines :: "bytes \<Rightarrow> bytes \<Rightarrow> counter list \<Rightarrow> nat \<Rightarrow> counter \<Rightarrow> int list \<Rightarrow> bytes \<times> counter" where
  "bucket_lines name lbl cs i cum [] = ([], cum)"
| "bucket_lines name lbl cs i cum (ub # ubs) =
     (let cum' = cum + cs ! i;
          (rest, last) = bucket_lines name lbl cs (Suc i) cum' ubs
      in (name @ ''_bucket{'' @ lbl @ '',le='' @ go_quote (FormatSeconds ub) @ ''} '' @ FormatInt cum' @ nl @ rest, last))"

definition histogram_text :: "(int list \<Rightarrow> bytes) \<Rightarrow> bytes \<Rightarrow> bytes \<Rightarrow> histogram \<Rightarrow> bytes" where
  "histogram_text fmt name lang h =
     (let lbl = ''language='' @ go_quote lang;
          (bs, cum) = bucket_lines name lbl (counts h) 0 0 (buckets h);
          cum' = cum + counts h ! length (buckets h)
      in bs @ name @ ''_bucket{'' @ lbl @ '',le='' @ dq @ ''+Inf'' @ dq @ ''} '' @ FormatInt cum' @ nl @
         name @ ''_sum{'' @ lbl @ ''} '' @ fmt (summands h) @ nl @
         name @ ''_count{'' @ lbl @ ''} '' @ FormatInt cum' @ nl)"

definition writeHistograms :: "(int list \<Rightarrow> bytes) \<Rightarrow> bytes \<Rightarrow> bytes \<Rightarrow> (bytes, histogram) mapping \<Rightarrow> bytes" where
  "writeHistograms fmt name help hs =
     ''# HELP '' @ name @ '' '' @ help @ nl @ ''# TYPE '' @ name @ '' histogram'' @ nl @
     concat (map (\<lambda>lang. histogram_text fmt name lang (the (Mapping.lookup hs lang))) (sortedKeys hs))"

definition Render :: "(int list \<Rightarrow> bytes) \<Rightarrow> Metrics \<Rightarrow> bytes" where
  "Render fmt m =
     writeCounterHead ''runner_runs_total'' ''Total runs by language and terminal status.'' @
     concat (map (\<lambda>k. ''runner_runs_total{language='' @ go_quote (fst k) @ '',status='' @ go_quote (snd k) @ ''} '' @
                    FormatInt (Mapping.lookup_default 0 (runsTotal m) k) @ nl) (sortedPairKeys (runsTotal m))) @
     writeLangCounter ''runner_oom_total'' ''Runs ended by memory_exceeded, by language.'' (oomTotal m) @
     writeLangCounter ''runner_timeout_total'' ''Runs ended by timeout, by language.'' (timeoutTotal m) @
     writeCounterHead ''runner_output_limit_exceeded_total'' ''Runs killed for flooding output (G1.4).'' @
     ''runner_output_limit_exceeded_total '' @ FormatInt (outputLimit m) @ nl @
     writeCounterHead ''runner_overload_total'' ''Requests shed with 503 by the concurrency limiter.'' @
     ''runner_overload_total '' @ FormatInt (overloadTotal m) @ nl @
     ''# HELP runner_inflight Runs currently executing.'' @ nl @ ''# TYPE runner_inflight gauge'' @ nl @
     ''runner_inflight '' @ FormatInt (inflight m) @ nl @
     writeHistograms fmt ''runner_run_duration_seconds'' ''Run wall time in seconds, by language.'' (runDur m) @
     writeHistograms fmt ''runner_compile_duration_seconds'' ''Compile phase time in seconds, by language.'' (compileDur m)"

subsection \<open>A scraper\<close>

text \<open>
  A series is a name with labelled values. The reader takes a line apart from left to right; a label value with an
  escape in it is refused rather than decoded.
\<close>

type_synonym series = "bytes \<times> (bytes \<times> bytes) list"

lemma label_shrinks: "after_v \<noteq> [] \<Longrightarrow> after_v = tl (dropWhile P (drop 2 (dropWhile Q s))) \<Longrightarrow> length (tl after_v) < length s"
proof -
  assume m: "after_v \<noteq> []" "after_v = tl (dropWhile P (drop 2 (dropWhile Q s)))"
  have "length after_v \<le> length (drop 2 (dropWhile Q s))" using m(2) length_dropWhile_le [of P "drop 2 (dropWhile Q s)"] by simp
  also have "\<dots> \<le> length s" using length_dropWhile_le [of Q s] by simp
  finally show ?thesis using m(1) by (cases after_v) auto
qed

function parse_labels :: "bytes \<Rightarrow> ((bytes \<times> bytes) list \<times> bytes) option" where
  "parse_labels s =
     (let a = takeWhile (\<lambda>c. c \<noteq> CHR ''='') s;
          r = drop 2 (dropWhile (\<lambda>c. c \<noteq> CHR ''='') s);
          v = takeWhile (\<lambda>c. c \<noteq> CHR 0x22) r;
          after_v = tl (dropWhile (\<lambda>c. c \<noteq> CHR 0x22) r)
      in if after_v = [] \<or> CHR 0x5C \<in> set v then None
         else if hd after_v = CHR ''}'' then Some ([(a, v)], tl after_v)
         else map_option (\<lambda>(ls, rest). ((a, v) # ls, rest)) (parse_labels (tl after_v)))"
  by pat_completeness auto
termination by (relation "measure length") (rule wf_measure, metis in_measure label_shrinks)

declare parse_labels.simps [simp del]

definition parse_sample :: "bytes \<Rightarrow> (series \<times> bytes) option" where
  "parse_sample s =
     (let n = takeWhile (\<lambda>c. c \<noteq> CHR ''{'' \<and> c \<noteq> CHR '' '') s; r = drop (length n) s
      in if r = [] then None
         else if hd r = CHR '' '' then Some ((n, []), tl r)
         else (case parse_labels (tl r) of
                 None \<Rightarrow> None
               | Some (ls, rest) \<Rightarrow> if rest \<noteq> [] \<and> hd rest = CHR '' '' then Some ((n, ls), tl rest) else None))"

fun parse_lines :: "bytes list \<Rightarrow> (series \<times> bytes) list option" where
  "parse_lines [] = Some []"
| "parse_lines (l # ls) =
     (if l = [] \<or> hd l = CHR ''#'' then parse_lines ls
      else (case parse_sample l of None \<Rightarrow> None | Some x \<Rightarrow> map_option (\<lambda>xs. x # xs) (parse_lines ls)))"

definition scrape :: "bytes \<Rightarrow> (series \<times> bytes) list option" where
  "scrape s = parse_lines (split_on (CHR 0x0A) s)"

subsection \<open>Printing and reading back\<close>

definition print_series :: "series \<Rightarrow> bytes" where
  "print_series sr =
     fst sr @ (if snd sr = [] then []
               else ''{'' @ join_with '','' (map (\<lambda>(a, v). a @ ''='' @ go_quote v) (snd sr)) @ ''}'')"

definition name_ok :: "bytes \<Rightarrow> bool" where
  "name_ok n \<longleftrightarrow> n \<noteq> [] \<and> set n \<inter> {CHR ''{'', CHR '' '', CHR ''#'', CHR 0x0A} = {}"

definition label_ok :: "bytes \<times> bytes \<Rightarrow> bool" where
  "label_ok x \<longleftrightarrow> set (fst x) \<inter> {CHR ''='', CHR 0x0A} = {} \<and> list_all plain_char (snd x)"

definition sample_ok :: "series \<times> bytes \<Rightarrow> bool" where
  "sample_ok x \<longleftrightarrow> name_ok (fst (fst x)) \<and> list_all label_ok (snd (fst x)) \<and> CHR 0x0A \<notin> set (snd x)"

lemma plain_free: "list_all plain_char v \<Longrightarrow> CHR 0x22 \<notin> set v \<and> CHR 0x5C \<notin> set v \<and> CHR 0x0A \<notin> set v"
  by (induction v) (auto simp: plain_char_def)

lemma go_quote_ok: "list_all plain_char v \<Longrightarrow> go_quote v = CHR 0x22 # v @ [CHR 0x22]"
  using go_quote_plain [of v] by (simp add: list_all_iff)

lemma takeWhile_stop: "\<forall>x\<in>set xs. P x \<Longrightarrow> \<not> P y \<Longrightarrow> takeWhile P (xs @ y # ys) = xs"
  by (induction xs) auto

lemma dropWhile_stop: "\<forall>x\<in>set xs. P x \<Longrightarrow> \<not> P y \<Longrightarrow> dropWhile P (xs @ y # ys) = y # ys"
  by (induction xs) auto

lemma parse_label_step:
  assumes "label_ok (a, v)"
  shows "parse_labels (a @ CHR ''='' # CHR 0x22 # v @ CHR 0x22 # c # t) =
     (if c = CHR ''}'' then Some ([(a, v)], t) else map_option (\<lambda>(ls, rest). ((a, v) # ls, rest)) (parse_labels t))"
proof -
  have f: "\<forall>x\<in>set a. x \<noteq> CHR ''=''" "\<forall>x\<in>set v. x \<noteq> CHR 0x22" "CHR 0x5C \<notin> set v"
    using assms plain_free [of v] by (auto simp: label_ok_def)
  show ?thesis
    by (subst parse_labels.simps) (simp add: f takeWhile_stop dropWhile_stop Let_def)
qed

lemma parse_labels_print:
  assumes "ls \<noteq> []" and "list_all label_ok ls"
  shows "parse_labels (join_with '','' (map (\<lambda>(a, v). a @ ''='' @ go_quote v) ls) @ CHR ''}'' # t) = Some (ls, t)"
  using assms
proof (induction ls)
  case (Cons x ls)
  obtain a v where x: "x = (a, v)" by fastforce
  with Cons.prems have ok: "label_ok (a, v)" and q: "go_quote v = CHR 0x22 # v @ [CHR 0x22]"
    by (auto simp: label_ok_def go_quote_ok)
  show ?case
  proof (cases ls)
    case Nil
    with x q parse_label_step [OF ok, of "CHR ''}''" t] show ?thesis by simp
  next
    case (Cons y ys)
    then have "join_with '','' (map (\<lambda>(a, v). a @ ''='' @ go_quote v) (x # ls)) =
        a @ CHR ''='' # CHR 0x22 # v @ CHR 0x22 # CHR '','' # join_with '','' (map (\<lambda>(a, v). a @ ''='' @ go_quote v) ls)"
      using x q by simp
    with Cons.IH Cons.prems Cons x show ?thesis by (simp add: parse_label_step [OF ok])
  qed
qed simp

lemma parse_sample_print:
  assumes "name_ok (fst sr)" and "list_all label_ok (snd sr)"
  shows "parse_sample (print_series sr @ CHR '' '' # v) = Some (sr, v)"
proof -
  obtain n ls where sr: "sr = (n, ls)" by fastforce
  have n: "\<forall>x\<in>set n. x \<noteq> CHR ''{'' \<and> x \<noteq> CHR '' ''" using assms(1) sr by (auto simp: name_ok_def)
  show ?thesis
  proof (cases ls)
    case Nil
    have "takeWhile (\<lambda>c. c \<noteq> CHR ''{'' \<and> c \<noteq> CHR '' '') (n @ CHR '' '' # v) = n" by (rule takeWhile_stop) (use n in simp_all)
    with Nil sr show ?thesis by (simp add: parse_sample_def print_series_def)
  next
    case (Cons x xs)
    let ?t = "join_with '','' (map (\<lambda>(a, v). a @ ''='' @ go_quote v) ls) @ CHR ''}'' # CHR '' '' # v"
    have "takeWhile (\<lambda>c. c \<noteq> CHR ''{'' \<and> c \<noteq> CHR '' '') (n @ CHR ''{'' # ?t) = n" by (rule takeWhile_stop) (use n in simp_all)
    moreover have "parse_labels ?t = Some (ls, CHR '' '' # v)" by (rule parse_labels_print) (use assms(2) sr Cons in simp_all)
    ultimately show ?thesis using Cons sr by (simp add: parse_sample_def print_series_def)
  qed
qed

text \<open>A text is a sequence of comments and samples, one a line.\<close>

datatype item = Note bytes | Sample series bytes

fun print_item :: "item \<Rightarrow> bytes" where
  "print_item (Note t) = CHR ''#'' # t"
| "print_item (Sample sr v) = print_series sr @ CHR '' '' # v"

fun item_ok :: "item \<Rightarrow> bool" where
  "item_ok (Note t) \<longleftrightarrow> CHR 0x0A \<notin> set t"
| "item_ok (Sample sr v) \<longleftrightarrow> sample_ok (sr, v)"

fun sample_of :: "item \<Rightarrow> (series \<times> bytes) option" where
  "sample_of (Note t) = None"
| "sample_of (Sample sr v) = Some (sr, v)"

definition print_items :: "item list \<Rightarrow> bytes" where
  "print_items is = concat (map (\<lambda>i. print_item i @ nl) is)"

lemma print_items_simps [simp]:
  "print_items [] = []" "print_items (i # is) = print_item i @ nl @ print_items is"
  "print_items (is @ js) = print_items is @ print_items js"
  by (simp_all add: print_items_def)

lemma print_series_line: "sample_ok (sr, v) \<Longrightarrow> CHR 0x0A \<notin> set (print_series sr)"
proof -
  assume ok: "sample_ok (sr, v)"
  have "CHR 0x0A \<notin> set (join_with '','' (map (\<lambda>(a, v). a @ ''='' @ go_quote v) ls))" if "list_all label_ok ls" for ls
    using that
  proof (induction ls)
    case (Cons x xs)
    obtain a v where x: "x = (a, v)" by fastforce
    with Cons.prems have "CHR 0x0A \<notin> set (a @ ''='' @ go_quote v)"
      using plain_free [of v] by (auto simp: label_ok_def go_quote_ok)
    with Cons x show ?case by (cases xs) auto
  qed simp
  with ok show ?thesis by (auto simp: sample_ok_def name_ok_def print_series_def)
qed

lemma parse_lines_item:
  assumes "item_ok i"
  shows "parse_lines (print_item i # ls) =
     (case sample_of i of None \<Rightarrow> parse_lines ls | Some x \<Rightarrow> map_option (\<lambda>xs. x # xs) (parse_lines ls))"
proof (cases i)
  case (Sample sr v)
  with assms have ok: "name_ok (fst sr)" "list_all label_ok (snd sr)" by (auto simp: sample_ok_def)
  then obtain c cs where "print_series sr = c # cs" "c \<noteq> CHR ''#''"
    by (cases "fst sr") (auto simp: name_ok_def print_series_def)
  with parse_sample_print [OF ok] Sample show ?thesis by simp
qed simp

lemma scrape_items: "list_all item_ok is \<Longrightarrow> scrape (print_items is) = Some (List.map_filter sample_of is)"
proof (induction "is")
  case Nil
  show ?case by (simp add: scrape_def)
next
  case (Cons i "is")
  then have "CHR 0x0A \<notin> set (print_item i)"
    using print_series_line by (cases i) (auto simp: sample_ok_def)
  then have "split_on (CHR 0x0A) (print_items (i # is)) = print_item i # split_on (CHR 0x0A) (print_items is)"
    by (simp add: nl_def split_on_append)
  with Cons parse_lines_item [of i] show ?case
    by (auto simp: scrape_def split: option.splits)
qed

subsection \<open>What Render prints\<close>

definition head_items :: "bytes \<Rightarrow> bytes \<Rightarrow> bytes \<Rightarrow> item list" where
  "head_items name help typ = [Note ('' HELP '' @ name @ '' '' @ help), Note ('' TYPE '' @ name @ '' '' @ typ)]"

definition run_samples :: "Metrics \<Rightarrow> (series \<times> bytes) list" where
  "run_samples m =
     map (\<lambda>k. ((''runner_runs_total'', [(''language'', fst k), (''status'', snd k)]),
               FormatInt (Mapping.lookup_default 0 (runsTotal m) k))) (Mapping.ordered_keys (runsTotal m))"

definition lang_samples :: "bytes \<Rightarrow> (bytes, counter) mapping \<Rightarrow> (series \<times> bytes) list" where
  "lang_samples name m =
     map (\<lambda>l. ((name, [(''language'', l)]), FormatInt (Mapping.lookup_default 0 m l))) (Mapping.ordered_keys m)"

definition bucket_samples :: "bytes \<Rightarrow> bytes \<Rightarrow> histogram \<Rightarrow> (series \<times> bytes) list" where
  "bucket_samples name l h =
     map (\<lambda>i. ((name @ ''_bucket'', [(''language'', l), (''le'', FormatSeconds (buckets h ! i))]), FormatInt (cumulative h i)))
       [0..<length (buckets h)]"

definition hist_samples :: "(int list \<Rightarrow> bytes) \<Rightarrow> bytes \<Rightarrow> bytes \<Rightarrow> histogram \<Rightarrow> (series \<times> bytes) list" where
  "hist_samples fmt name l h =
     (let c = FormatInt (cumulative h (length (buckets h)))
      in bucket_samples name l h @
         [((name @ ''_bucket'', [(''language'', l), (''le'', ''+Inf'')]), c),
          ((name @ ''_sum'', [(''language'', l)]), fmt (summands h)),
          ((name @ ''_count'', [(''language'', l)]), c)])"

definition histogram_samples :: "(int list \<Rightarrow> bytes) \<Rightarrow> bytes \<Rightarrow> (bytes, histogram) mapping \<Rightarrow> (series \<times> bytes) list" where
  "histogram_samples fmt name hs =
     concat (map (\<lambda>l. hist_samples fmt name l (the (Mapping.lookup hs l))) (Mapping.ordered_keys hs))"

definition plain_sample :: "bytes \<Rightarrow> counter \<Rightarrow> (series \<times> bytes) list" where
  "plain_sample name c = [((name, []), FormatInt c)]"

definition samples :: "(int list \<Rightarrow> bytes) \<Rightarrow> Metrics \<Rightarrow> (series \<times> bytes) list" where
  "samples fmt m =
     run_samples m @ lang_samples ''runner_oom_total'' (oomTotal m) @ lang_samples ''runner_timeout_total'' (timeoutTotal m) @
     plain_sample ''runner_output_limit_exceeded_total'' (outputLimit m) @
     plain_sample ''runner_overload_total'' (overloadTotal m) @ plain_sample ''runner_inflight'' (inflight m) @
     histogram_samples fmt ''runner_run_duration_seconds'' (runDur m) @
     histogram_samples fmt ''runner_compile_duration_seconds'' (compileDur m)"

abbreviation item_of :: "series \<times> bytes \<Rightarrow> item" where
  "item_of x \<equiv> Sample (fst x) (snd x)"

definition items :: "(int list \<Rightarrow> bytes) \<Rightarrow> Metrics \<Rightarrow> item list" where
  "items fmt m =
     head_items ''runner_runs_total'' ''Total runs by language and terminal status.'' ''counter'' @ map item_of (run_samples m) @
     head_items ''runner_oom_total'' ''Runs ended by memory_exceeded, by language.'' ''counter'' @
     map item_of (lang_samples ''runner_oom_total'' (oomTotal m)) @
     head_items ''runner_timeout_total'' ''Runs ended by timeout, by language.'' ''counter'' @
     map item_of (lang_samples ''runner_timeout_total'' (timeoutTotal m)) @
     head_items ''runner_output_limit_exceeded_total'' ''Runs killed for flooding output (G1.4).'' ''counter'' @
     map item_of (plain_sample ''runner_output_limit_exceeded_total'' (outputLimit m)) @
     head_items ''runner_overload_total'' ''Requests shed with 503 by the concurrency limiter.'' ''counter'' @
     map item_of (plain_sample ''runner_overload_total'' (overloadTotal m)) @
     head_items ''runner_inflight'' ''Runs currently executing.'' ''gauge'' @
     map item_of (plain_sample ''runner_inflight'' (inflight m)) @
     head_items ''runner_run_duration_seconds'' ''Run wall time in seconds, by language.'' ''histogram'' @
     map item_of (histogram_samples fmt ''runner_run_duration_seconds'' (runDur m)) @
     head_items ''runner_compile_duration_seconds'' ''Compile phase time in seconds, by language.'' ''histogram'' @
     map item_of (histogram_samples fmt ''runner_compile_duration_seconds'' (compileDur m))"

lemma bucket_lines_print:
  "bucket_lines name (''language='' @ go_quote l) (counts h) i (sum_list (take i (counts h))) ubs =
     (print_items (map (\<lambda>j. Sample (name @ ''_bucket'', [(''language'', l), (''le'', FormatSeconds (ubs ! (j - i)))])
                               (FormatInt (cumulative h j))) [i..<i + length ubs]),
      sum_list (take (i + length ubs) (counts h)))"
  if "i + length ubs \<le> length (counts h)"
  using that
proof (induction ubs arbitrary: i)
  case (Cons ub ubs)
  then have i: "i < length (counts h)" by simp
  have c: "sum_list (take i (counts h)) + counts h ! i = sum_list (take (Suc i) (counts h))"
    by (simp add: take_Suc_conv_app_nth [OF i])
  have js: "map (\<lambda>j. Sample (name @ ''_bucket'', [(''language'', l), (''le'', FormatSeconds ((ub # ubs) ! (j - i)))])
        (FormatInt (cumulative h j))) [Suc i..<Suc (i + length ubs)] =
      map (\<lambda>j. Sample (name @ ''_bucket'', [(''language'', l), (''le'', FormatSeconds (ubs ! (j - Suc i)))])
        (FormatInt (cumulative h j))) [Suc i..<Suc (i + length ubs)]"
    by (intro map_cong) (auto simp: nth_Cons')
  have u: "[i..<i + length (ub # ubs)] = i # [Suc i..<Suc (i + length ubs)]" by (simp add: upt_rec)
  have f: "Sample (name @ ''_bucket'', [(''language'', l), (''le'', FormatSeconds ((ub # ubs) ! (i - i)))]) (FormatInt (cumulative h i)) =
      Sample (name @ ''_bucket'', [(''language'', l), (''le'', FormatSeconds ub)]) (FormatInt (cumulative h i))" by simp
  from Cons.IH [of "Suc i"] Cons.prems show ?case
    unfolding u list.map js f bucket_lines.simps c
    by (simp add: Let_def cumulative_def print_series_def nl_def del: upt_Suc)
qed simp

lemma histogram_text_print:
  assumes "hist_ok bs h"
  shows "histogram_text fmt name l h = print_items (map item_of (hist_samples fmt name l h))"
proof -
  have n: "length (counts h) = Suc (length (buckets h))" using assms by (simp add: hist_ok_def)
  have c: "sum_list (take (length (buckets h)) (counts h)) + counts h ! length (buckets h) =
      cumulative h (length (buckets h))"
    unfolding cumulative_def by (subst take_Suc_conv_app_nth) (simp_all add: n)
  have q: "go_quote ''+Inf'' = CHR 0x22 # ''+Inf'' @ [CHR 0x22]" by (rule go_quote_ok) (simp add: plain_char_def)
  have b: "bucket_lines name (''language='' @ go_quote l) (counts h) 0 0 (buckets h) =
      (print_items (map item_of (bucket_samples name l h)), sum_list (take (length (buckets h)) (counts h)))"
    using bucket_lines_print [of 0 "buckets h" h name l] n by (simp add: bucket_samples_def comp_def)
  show ?thesis
    unfolding histogram_text_def hist_samples_def Let_def b prod.case c
    by (simp add: print_series_def q nl_def dq_def)
qed

text \<open>The registries that the operations produce.\<close>

definition registry_ok :: "Metrics \<Rightarrow> bool" where
  "registry_ok m \<longleftrightarrow>
     (\<forall>l h. Mapping.lookup (runDur m) l = Some h \<longrightarrow> hist_ok runBuckets h) \<and>
     (\<forall>l h. Mapping.lookup (compileDur m) l = Some h \<longrightarrow> hist_ok compileBuckets h) \<and>
     finite (Mapping.keys (runsTotal m)) \<and> finite (Mapping.keys (oomTotal m)) \<and> finite (Mapping.keys (timeoutTotal m)) \<and>
     finite (Mapping.keys (runDur m)) \<and> finite (Mapping.keys (compileDur m))"

lemma map_filter_items [simp]: "List.map_filter sample_of (map item_of xs) = xs"
  by (induction xs) simp_all

lemma map_filter_append [simp]: "List.map_filter f (xs @ ys) = List.map_filter f xs @ List.map_filter f ys"
  by (induction xs) (simp_all split: option.splits)

lemma map_filter_heads [simp]: "List.map_filter sample_of (head_items name help typ) = []"
  by (simp add: head_items_def)

lemma items_samples: "List.map_filter sample_of (items fmt m) = samples fmt m"
  by (simp add: items_def samples_def)

lemma print_items_concat: "print_items (concat iss) = concat (map print_items iss)"
  by (induction iss) simp_all

lemma writeCounterHead_print: "writeCounterHead name help = print_items (head_items name help ''counter'')"
  by (simp add: writeCounterHead_def head_items_def)

lemma writeLangCounter_print:
  "writeLangCounter name help m = print_items (head_items name help ''counter'' @ map item_of (lang_samples name m))"
  by (simp add: writeLangCounter_def sortedKeys_def writeCounterHead_print lang_samples_def print_items_def print_series_def comp_def)

lemma writeHistograms_print:
  assumes "\<forall>l h. Mapping.lookup hs l = Some h \<longrightarrow> hist_ok bs h" and "finite (Mapping.keys hs)"
  shows "writeHistograms fmt name help hs =
    print_items (head_items name help ''histogram'' @ map item_of (histogram_samples fmt name hs))"
proof -
  have "histogram_text fmt name l (the (Mapping.lookup hs l)) =
      print_items (map item_of (hist_samples fmt name l (the (Mapping.lookup hs l))))"
    if "l \<in> set (Mapping.ordered_keys hs)" for l
  proof -
    from that assms obtain h where "Mapping.lookup hs l = Some h" by (auto simp: keys_dom_lookup)
    with assms(1) histogram_text_print [of bs h] show ?thesis by simp
  qed
  then have "concat (map (\<lambda>l. histogram_text fmt name l (the (Mapping.lookup hs l))) (Mapping.ordered_keys hs)) =
      print_items (map item_of (histogram_samples fmt name hs))"
    unfolding histogram_samples_def map_concat print_items_concat map_map
    by (intro arg_cong [where f = concat] map_cong) simp_all
  then show ?thesis by (simp add: writeHistograms_def sortedKeys_def head_items_def)
qed

lemma Render_print:
  assumes "registry_ok m"
  shows "Render fmt m = print_items (items fmt m)"
proof -
  have h: "writeHistograms fmt n t (runDur m) =
      print_items (head_items n t ''histogram'') @ print_items (map item_of (histogram_samples fmt n (runDur m)))"
    "writeHistograms fmt n t (compileDur m) =
      print_items (head_items n t ''histogram'') @ print_items (map item_of (histogram_samples fmt n (compileDur m)))" for n t
    using assms writeHistograms_print [of "runDur m" runBuckets] writeHistograms_print [of "compileDur m" compileBuckets]
    by (simp_all add: registry_ok_def)
  have r: "concat (map (\<lambda>k. ''runner_runs_total{language='' @ go_quote (fst k) @ '',status='' @ go_quote (snd k) @ ''} '' @
      FormatInt (Mapping.lookup_default 0 (runsTotal m) k) @ nl) (Mapping.ordered_keys (runsTotal m))) =
      print_items (map item_of (run_samples m))"
    by (simp add: run_samples_def print_items_def print_series_def comp_def)
  have p: "n @ CHR '' '' # FormatInt c @ nl = print_items (map item_of (plain_sample n c))" for n c
    by (simp add: plain_sample_def print_series_def)
  have g: "''# HELP runner_inflight Runs currently executing.'' @ nl @ ''# TYPE runner_inflight gauge'' @ nl @ x =
      print_items (head_items ''runner_inflight'' ''Runs currently executing.'' ''gauge'') @ x" for x
    by (simp add: head_items_def)
  show ?thesis
    unfolding Render_def sortedPairKeys_def items_def print_items_simps h r g writeLangCounter_print writeCounterHead_print
    by (simp add: p [symmetric] del: print_items_simps(1,2))
qed

subsection \<open>Reading a value\<close>

lemma map_of_image: "inj f \<Longrightarrow> map_of (map (\<lambda>k. (f k, g k)) ks) (f k) = (if k \<in> set ks then Some (g k) else None)"
  by (induction ks) (auto dest: injD)

lemma map_of_absent: "\<forall>x\<in>set xs. fst (fst x) \<noteq> fst sr \<Longrightarrow> map_of xs sr = None"
  by (induction xs) auto

lemma map_of_block:
  assumes "\<And>k x. x \<in> set (f k) \<Longrightarrow> hd (snd (fst x)) = (a, k)" and "hd (snd sr) = (a, l)" and "distinct ks"
  shows "map_of (concat (map f ks)) sr = (if l \<in> set ks then map_of (f l) sr else None)"
proof -
  have other: "map_of (f k) sr = None" if "k \<noteq> l" for k
    using assms(1) [of _ k] assms(2) that by (force simp: map_of_eq_None_iff)
  from assms(3) show ?thesis
  proof (induction ks)
    case (Cons k ks)
    then show ?case by (cases "k = l") (auto simp: other map_add_def split: option.splits)
  qed simp
qed

lemma run_samples_read:
  "finite (Mapping.keys (runsTotal m)) \<Longrightarrow>
   map_of (run_samples m) (''runner_runs_total'', [(''language'', l), (''status'', s)]) =
     (if (l, s) \<in> Mapping.keys (runsTotal m) then Some (FormatInt (Mapping.lookup_default 0 (runsTotal m) (l, s))) else None)"
  using map_of_image [where f = "\<lambda>k. (''runner_runs_total'', [(''language'', fst k), (''status'', snd k)])"
      and k = "(l, s)" and g = "\<lambda>k. FormatInt (Mapping.lookup_default 0 (runsTotal m) k)" and ks = "Mapping.ordered_keys (runsTotal m)"]
  by (simp add: run_samples_def inj_def)

lemma lang_samples_read:
  "finite (Mapping.keys m) \<Longrightarrow>
   map_of (lang_samples name m) (name, [(''language'', l)]) =
     (if l \<in> Mapping.keys m then Some (FormatInt (Mapping.lookup_default 0 m l)) else None)"
  using map_of_image [where f = "\<lambda>k. (name, [(''language'', k)])" and k = l
      and g = "\<lambda>k. FormatInt (Mapping.lookup_default 0 m k)" and ks = "Mapping.ordered_keys m"]
  by (simp add: lang_samples_def inj_def)

lemma bucket_texts:
  "map FormatSeconds runBuckets = [''0.05'', ''0.1'', ''0.25'', ''0.5'', ''1'', ''2.5'', ''5'', ''10'']"
  "map FormatSeconds compileBuckets = [''0.1'', ''0.5'', ''1'', ''2.5'', ''5'', ''10'', ''20'']"
  by code_simp+

lemma hist_samples_read:
  assumes "buckets h = bs" and "distinct (map FormatSeconds bs)" and "''+Inf'' \<notin> set (map FormatSeconds bs)"
  shows "i < length bs \<Longrightarrow>
      map_of (hist_samples fmt name l h) (name @ ''_bucket'', [(''language'', l), (''le'', FormatSeconds (bs ! i))]) =
        Some (FormatInt (cumulative h i))"
    and "map_of (hist_samples fmt name l h) (name @ ''_bucket'', [(''language'', l), (''le'', ''+Inf'')]) =
      Some (FormatInt (cumulative h (length bs)))"
    and "map_of (hist_samples fmt name l h) (name @ ''_sum'', [(''language'', l)]) = Some (fmt (summands h))"
    and "map_of (hist_samples fmt name l h) (name @ ''_count'', [(''language'', l)]) =
      Some (FormatInt (cumulative h (length bs)))"
proof -
  let ?f = "\<lambda>i. (name @ ''_bucket'', [(''language'', l), (''le'', FormatSeconds (bs ! i))])"
  have b: "bucket_samples name l h = map (\<lambda>i. (?f i, FormatInt (cumulative h i))) [0..<length bs]"
    by (simp add: bucket_samples_def assms(1))
  have ne: "\<forall>i<length bs. FormatSeconds (bs ! i) \<noteq> ''+Inf''" using assms(3) by (metis imageI list.set_map nth_mem)
  have inj: "inj_on ?f (set [0..<length bs])"
    using assms(2) by (auto simp: inj_on_def distinct_conv_nth) blast
  show "map_of (hist_samples fmt name l h) (?f i) = Some (FormatInt (cumulative h i))" if i: "i < length bs"
  proof -
    have "distinct (map fst (bucket_samples name l h))" using inj by (simp add: b distinct_map comp_def)
    moreover have "(?f i, FormatInt (cumulative h i)) \<in> set (bucket_samples name l h)" using i by (auto simp: b)
    ultimately have "map_of (bucket_samples name l h) (?f i) = Some (FormatInt (cumulative h i))" by simp
    with ne i show ?thesis by (simp add: hist_samples_def Let_def map_add_def)
  qed
  have "map_of (bucket_samples name l h) (name @ ''_bucket'', [(''language'', l), (''le'', ''+Inf'')]) = None"
    using ne by (auto simp: b map_of_eq_None_iff)
  then show "map_of (hist_samples fmt name l h) (name @ ''_bucket'', [(''language'', l), (''le'', ''+Inf'')]) =
      Some (FormatInt (cumulative h (length bs)))"
    by (simp add: hist_samples_def Let_def map_add_def assms(1))
  have "map_of (bucket_samples name l h) (name @ t, ls) = None" if "t \<noteq> ''_bucket''" for t ls
    by (rule map_of_absent) (use that in \<open>auto simp: b\<close>)
  then show "map_of (hist_samples fmt name l h) (name @ ''_sum'', [(''language'', l)]) = Some (fmt (summands h))"
    "map_of (hist_samples fmt name l h) (name @ ''_count'', [(''language'', l)]) = Some (FormatInt (cumulative h (length bs)))"
    by (simp_all add: hist_samples_def Let_def map_add_def assms(1))
qed

lemma histogram_samples_read:
  assumes "finite (Mapping.keys hs)" and "fst sr \<in> {name @ ''_bucket'', name @ ''_sum'', name @ ''_count''}"
    and "hd (snd sr) = (''language'', l)"
  shows "map_of (histogram_samples fmt name hs) sr =
    (if l \<in> Mapping.keys hs then map_of (hist_samples fmt name l (the (Mapping.lookup hs l))) sr else None)"
  unfolding histogram_samples_def
  by (subst map_of_block [where a = "''language''" and l = l])
    (use assms in \<open>auto simp: hist_samples_def bucket_samples_def Let_def\<close>)

text \<open>The names in each part, which keep the parts apart.\<close>

lemma sample_names:
  "x \<in> set (run_samples m) \<Longrightarrow> fst (fst x) = ''runner_runs_total''"
  "x \<in> set (lang_samples name c) \<Longrightarrow> fst (fst x) = name"
  "x \<in> set (plain_sample name v) \<Longrightarrow> fst (fst x) = name"
  "x \<in> set (histogram_samples fmt name hs) \<Longrightarrow> fst (fst x) \<in> {name @ ''_bucket'', name @ ''_sum'', name @ ''_count''}"
  by (auto simp: run_samples_def lang_samples_def plain_sample_def histogram_samples_def hist_samples_def
      bucket_samples_def Let_def)

lemma block_absent:
  "n \<noteq> ''runner_runs_total'' \<Longrightarrow> map_of (run_samples m) (n, ls) = None"
  "n \<noteq> name \<Longrightarrow> map_of (lang_samples name c) (n, ls) = None"
  "n \<noteq> name \<Longrightarrow> map_of (plain_sample name v) (n, ls) = None"
  "n \<notin> {name @ ''_bucket'', name @ ''_sum'', name @ ''_count''} \<Longrightarrow> map_of (histogram_samples fmt name hs) (n, ls) = None"
  by (rule map_of_absent; use sample_names in fastforce)+

lemma plain_sample_read [simp]: "map_of (plain_sample name c) (name, []) = Some (FormatInt c)"
  by (simp add: plain_sample_def)

lemma samples_read:
  "map_of (samples fmt m) (''runner_runs_total'', ls) = map_of (run_samples m) (''runner_runs_total'', ls)"
  "map_of (samples fmt m) (''runner_oom_total'', ls) = map_of (lang_samples ''runner_oom_total'' (oomTotal m)) (''runner_oom_total'', ls)"
  "map_of (samples fmt m) (''runner_timeout_total'', ls) =
     map_of (lang_samples ''runner_timeout_total'' (timeoutTotal m)) (''runner_timeout_total'', ls)"
  "map_of (samples fmt m) (''runner_output_limit_exceeded_total'', []) = Some (FormatInt (outputLimit m))"
  "map_of (samples fmt m) (''runner_overload_total'', []) = Some (FormatInt (overloadTotal m))"
  "map_of (samples fmt m) (''runner_inflight'', []) = Some (FormatInt (inflight m))"
  by (simp_all add: samples_def map_add_def block_absent cong: option.case_cong split: option.split)

lemma samples_read_hist:
  assumes "n \<in> {''_bucket'', ''_sum'', ''_count''}"
  shows "map_of (samples fmt m) (''runner_run_duration_seconds'' @ n, ls) =
      map_of (histogram_samples fmt ''runner_run_duration_seconds'' (runDur m)) (''runner_run_duration_seconds'' @ n, ls)"
    and "map_of (samples fmt m) (''runner_compile_duration_seconds'' @ n, ls) =
      map_of (histogram_samples fmt ''runner_compile_duration_seconds'' (compileDur m)) (''runner_compile_duration_seconds'' @ n, ls)"
  using assms by (auto simp: samples_def map_add_def block_absent cong: option.case_cong split: option.split)

subsection \<open>After any history\<close>

lemma after_keys:
  "(l, s) \<in> Mapping.keys (runsTotal (after ops)) \<longleftrightarrow> list_ex (is_run l s) ops"
  "l \<in> Mapping.keys (oomTotal (after ops)) \<longleftrightarrow> list_ex (is_run l ''memory_exceeded'') ops"
  "l \<in> Mapping.keys (timeoutTotal (after ops)) \<longleftrightarrow> list_ex (is_run l ''timeout'') ops"
  "l \<in> Mapping.keys (runDur (after ops)) \<longleftrightarrow> list_ex (is_obs l) ops"
  "l \<in> Mapping.keys (compileDur (after ops)) \<longleftrightarrow> list_ex (is_compiled l) ops"
proof (induction ops rule: rev_induct)
  case (snoc x xs)
  { case 1 show ?case using snoc(1) by (cases x) auto }
  { case 2 show ?case using snoc(2) by (cases x) auto }
  { case 3 show ?case using snoc(3) by (cases x) auto }
  { case 4 show ?case using snoc(4) by (cases x) auto }
  { case 5 show ?case using snoc(5) by (cases x) auto }
qed simp_all

lemma after_finite:
  "finite (Mapping.keys (runsTotal (after ops)))" "finite (Mapping.keys (oomTotal (after ops)))"
  "finite (Mapping.keys (timeoutTotal (after ops)))" "finite (Mapping.keys (runDur (after ops)))"
  "finite (Mapping.keys (compileDur (after ops)))"
proof (induction ops rule: rev_induct)
  case (snoc x xs)
  { case 1 show ?case using snoc(1) by (cases x) auto }
  { case 2 show ?case using snoc(2) by (cases x) auto }
  { case 3 show ?case using snoc(3) by (cases x) auto }
  { case 4 show ?case using snoc(4) by (cases x) auto }
  { case 5 show ?case using snoc(5) by (cases x) auto }
qed simp_all

lemma after_hists:
  "Mapping.lookup (runDur (after ops)) l = Some h \<Longrightarrow> h = hist (runDur (after ops)) l runBuckets \<and> hist_ok runBuckets h"
  "Mapping.lookup (compileDur (after ops)) l = Some h \<Longrightarrow>
     h = hist (compileDur (after ops)) l compileBuckets \<and> hist_ok compileBuckets h"
  using after_run_hist [of ops l] after_compile_hist [of ops l] by (simp_all add: hist_def lookup_default_def)

lemma after_ok: "registry_ok (after ops)"
  using after_hists after_finite by (auto simp: registry_ok_def)

lemma itoa_plain: "c \<in> set (itoa n) \<Longrightarrow> plain_char c"
  by (auto simp: itoa_def plain_char_def less_eq_char_def split: if_splits dest!: digits_in_chars)

lemma itoa_line: "CHR 0x0A \<notin> set (FormatInt c)"
  using itoa_plain by (fastforce simp: FormatInt_def plain_char_def)

text \<open>Labels of plain ASCII, and a sum without a line break.\<close>

fun plain_op :: "metric_op \<Rightarrow> bool" where
  "plain_op (Observe l s d c) \<longleftrightarrow> list_all plain_char l \<and> list_all plain_char s"
| "plain_op _ \<longleftrightarrow> True"

lemma plain_keys:
  assumes "list_all plain_op ops"
  shows "(l, s) \<in> Mapping.keys (runsTotal (after ops)) \<Longrightarrow> list_all plain_char l \<and> list_all plain_char s"
    and "l \<in> Mapping.keys (oomTotal (after ops)) \<union> Mapping.keys (timeoutTotal (after ops)) \<union>
      Mapping.keys (runDur (after ops)) \<union> Mapping.keys (compileDur (after ops)) \<Longrightarrow> list_all plain_char l"
proof -
  have p: "list_all plain_char l" if "is_obs l x" "x \<in> set ops" for x l
    using assms that by (cases x) (auto simp: list_all_iff)
  have q: "is_run l s x \<Longrightarrow> is_obs l x" "is_compiled l x \<Longrightarrow> is_obs l x" for x l s by (cases x; simp)+
  show "list_all plain_char l \<and> list_all plain_char s" if "(l, s) \<in> Mapping.keys (runsTotal (after ops))"
  proof -
    from that obtain x where "x \<in> set ops" "is_run l s x" by (auto simp: after_keys list_ex_iff)
    with assms show ?thesis by (cases x) (auto simp: list_all_iff)
  qed
  show "list_all plain_char l" if "l \<in> Mapping.keys (oomTotal (after ops)) \<union> Mapping.keys (timeoutTotal (after ops)) \<union>
      Mapping.keys (runDur (after ops)) \<union> Mapping.keys (compileDur (after ops))"
    using that p q unfolding after_keys list_ex_iff Un_iff by blast
qed



lemma bucket_texts_ok:
  assumes "bs \<in> {runBuckets, compileBuckets}"
  shows "distinct (map FormatSeconds bs)" "''+Inf'' \<notin> set (map FormatSeconds bs)"
    "i < length bs \<Longrightarrow> list_all plain_char (FormatSeconds (bs ! i))"
proof -
  have "list_all (list_all plain_char) (map FormatSeconds bs)"
    using assms by (auto simp: bucket_texts plain_char_def simp del: list.map)
  then show "i < length bs \<Longrightarrow> list_all plain_char (FormatSeconds (bs ! i))" by (simp add: list_all_length)
  show "distinct (map FormatSeconds bs)" "''+Inf'' \<notin> set (map FormatSeconds bs)"
    using assms by (elim insertE emptyE; simp only: bucket_texts; simp)+
qed

lemma hist_samples_ok:
  assumes "list_all plain_char l" and "hist_ok bs h" and "bs \<in> {runBuckets, compileBuckets}"
    and "name \<in> {''runner_run_duration_seconds'', ''runner_compile_duration_seconds''}"
    and "\<forall>xs. CHR 0x0A \<notin> set (fmt xs)" and "x \<in> set (hist_samples fmt name l h)"
  shows "sample_ok x"
proof -
  have n: "name_ok (name @ t)" if "t \<in> {''_bucket'', ''_sum'', ''_count''}" for t
    using assms(4) that by (auto simp: name_ok_def)
  have "buckets h = bs" using assms(2) by (simp add: hist_ok_def)
  with assms(1,5,6) n bucket_texts_ok(3) [OF assms(3)] itoa_line show ?thesis
    by (auto simp: hist_samples_def bucket_samples_def Let_def sample_ok_def label_ok_def plain_char_def [of "CHR ''+''"]
        plain_char_def [of "CHR ''I''"] plain_char_def [of "CHR ''n''"] plain_char_def [of "CHR ''f''"])
qed

lemma histogram_samples_member:
  assumes "finite (Mapping.keys hs)" and "x \<in> set (histogram_samples fmt name hs)"
  obtains l h where "Mapping.lookup hs l = Some h" "x \<in> set (hist_samples fmt name l h)"
proof -
  from assms obtain l where l: "l \<in> Mapping.keys hs" "x \<in> set (hist_samples fmt name l (the (Mapping.lookup hs l)))"
    by (auto simp: histogram_samples_def)
  then obtain h where "Mapping.lookup hs l = Some h" by (auto simp: keys_dom_lookup)
  with l that show thesis by auto
qed

lemma histogram_samples_ok:
  assumes "\<And>l h. Mapping.lookup hs l = Some h \<Longrightarrow> list_all plain_char l \<and> hist_ok bs h" and "finite (Mapping.keys hs)"
    and "bs \<in> {runBuckets, compileBuckets}"
    and "name \<in> {''runner_run_duration_seconds'', ''runner_compile_duration_seconds''}"
    and "\<forall>xs. CHR 0x0A \<notin> set (fmt xs)" and "x \<in> set (histogram_samples fmt name hs)"
  shows "sample_ok x"
proof -
  from histogram_samples_member [OF assms(2,6)] obtain l h
    where "Mapping.lookup hs l = Some h" "x \<in> set (hist_samples fmt name l h)" .
  with assms(1) hist_samples_ok assms(3-5) show ?thesis by metis
qed

lemma samples_ok:
  assumes "list_all plain_op ops" and "\<forall>xs. CHR 0x0A \<notin> set (fmt xs)"
  shows "\<forall>x\<in>set (samples fmt (after ops)). sample_ok x"
proof
  fix x assume "x \<in> set (samples fmt (after ops))"
  then consider "x \<in> set (run_samples (after ops))" | "x \<in> set (lang_samples ''runner_oom_total'' (oomTotal (after ops)))"
    | "x \<in> set (lang_samples ''runner_timeout_total'' (timeoutTotal (after ops)))"
    | n c where "n \<in> {''runner_output_limit_exceeded_total'', ''runner_overload_total'', ''runner_inflight''}" "x \<in> set (plain_sample n c)"
    | "x \<in> set (histogram_samples fmt ''runner_run_duration_seconds'' (runDur (after ops)))"
    | "x \<in> set (histogram_samples fmt ''runner_compile_duration_seconds'' (compileDur (after ops)))"
    by (auto simp: samples_def)
  then show "sample_ok x"
  proof cases
    case 5
    show ?thesis
      by (rule histogram_samples_ok [OF _ after_finite(4) _ _ assms(2) 5, of runBuckets])
        (use plain_keys(2) [OF assms(1)] after_hists in \<open>auto simp: keys_dom_lookup\<close>)
  next
    case 6
    show ?thesis
      by (rule histogram_samples_ok [OF _ after_finite(5) _ _ assms(2) 6, of compileBuckets])
        (use plain_keys(2) [OF assms(1)] after_hists in \<open>auto simp: keys_dom_lookup\<close>)
  qed (use plain_keys [OF assms(1)] after_finite itoa_line in
      \<open>auto simp: run_samples_def lang_samples_def plain_sample_def sample_ok_def label_ok_def name_ok_def\<close>)
qed

lemma items_ok:
  assumes "list_all plain_op ops" and "\<forall>xs. CHR 0x0A \<notin> set (fmt xs)"
  shows "list_all item_ok (items fmt (after ops))"
proof -
  have "item_ok (item_of x)" if "x \<in> set (samples fmt (after ops))" for x using samples_ok [OF assms] that by simp
  then show ?thesis unfolding list_all_iff items_def samples_def by (auto simp: head_items_def)
qed

lemma scrape_Render:
  "list_all plain_op ops \<Longrightarrow> \<forall>xs. CHR 0x0A \<notin> set (fmt xs) \<Longrightarrow>
     scrape (Render fmt (after ops)) = Some (samples fmt (after ops))"
  by (simp add: Render_print [OF after_ok] scrape_items items_ok items_samples)

lemma distinct_blocks:
  assumes "distinct ks" and "\<forall>k\<in>set ks. distinct (map fst (f k))"
    and key: "\<And>k x. x \<in> set (f k) \<Longrightarrow> hd (snd (fst x)) = (a, k)"
  shows "distinct (map fst (concat (map f ks)))"
  using assms(1,2)
proof (induction ks)
  case (Cons k ks)
  have "fst x \<noteq> fst y" if "x \<in> set (f k)" "y \<in> set (f j)" "j \<in> set ks" for x y j
    using key [OF that(1)] key [OF that(2)] that(3) Cons.prems(1) by auto
  with Cons show ?case by fastforce
qed simp

lemma hist_samples_distinct:
  assumes "buckets h = bs" and "bs \<in> {runBuckets, compileBuckets}"
  shows "distinct (map fst (hist_samples fmt name l h))"
proof -
  note t = bucket_texts_ok(1,2) [OF assms(2)]
  have i: "i < length bs \<Longrightarrow> ''+Inf'' \<noteq> FormatSeconds (bs ! i)" for i using t(2) by (metis imageI list.set_map nth_mem)
  have "inj_on (\<lambda>i. FormatSeconds (bs ! i)) (set [0..<length bs])"
    using t(1) by (auto simp: inj_on_def distinct_conv_nth) blast
  then have "distinct (map fst (bucket_samples name l h))"
    by (auto simp: bucket_samples_def assms(1) distinct_map comp_def inj_on_def)
  then show ?thesis using i by (auto simp: hist_samples_def Let_def bucket_samples_def assms(1)) blast
qed

lemma histogram_samples_distinct:
  assumes "\<And>l h. Mapping.lookup hs l = Some h \<Longrightarrow> hist_ok bs h" and "finite (Mapping.keys hs)"
    and "bs \<in> {runBuckets, compileBuckets}"
  shows "distinct (map fst (histogram_samples fmt name hs))"
  unfolding histogram_samples_def
proof (rule distinct_blocks [where a = "''language''"])
  show "\<forall>l\<in>set (Mapping.ordered_keys hs). distinct (map fst (hist_samples fmt name l (the (Mapping.lookup hs l))))"
  proof
    fix l assume "l \<in> set (Mapping.ordered_keys hs)"
    then obtain h where "Mapping.lookup hs l = Some h" using assms(2) by (auto simp: keys_dom_lookup)
    with assms(1) [OF this] hist_samples_distinct [OF _ assms(3)] show "distinct (map fst (hist_samples fmt name l (the (Mapping.lookup hs l))))"
      by (simp add: hist_ok_def)
  qed
qed (auto simp: hist_samples_def bucket_samples_def Let_def)

lemma samples_distinct: "distinct (map fst (samples fmt (after ops)))"
proof -
  have apart: "fst x \<noteq> fst y" if "fst (fst x) \<noteq> fst (fst y)" for x y :: "series \<times> bytes" using that by auto
  have "distinct (map fst (histogram_samples fmt n (runDur (after ops))))"
    "distinct (map fst (histogram_samples fmt n (compileDur (after ops))))" for n
    using after_hists after_finite
    by (blast intro: histogram_samples_distinct [of _ runBuckets] histogram_samples_distinct [of _ compileBuckets])+
  moreover have "distinct (map fst (run_samples m))" "distinct (map fst (lang_samples n c))" "distinct (map fst (plain_sample n v))" for m n c v
    by (auto simp: run_samples_def lang_samples_def plain_sample_def distinct_map comp_def inj_on_def)
  ultimately show ?thesis
    unfolding samples_def map_append distinct_append
    by (auto dest!: sample_names)
qed

fun run_times :: "bytes \<Rightarrow> metric_op list \<Rightarrow> int list" where
  "run_times l [] = []"
| "run_times l (Observe l' s d c # ops) = (if l = l' then d # run_times l ops else run_times l ops)"
| "run_times l (_ # ops) = run_times l ops"

lemma run_times_append: "run_times l (xs @ ys) = run_times l xs @ run_times l ys"
  by (induction l xs rule: run_times.induct) auto

lemma after_summands: "summands (hist (runDur (after ops)) l runBuckets) = run_times l ops"
proof (induction ops rule: rev_induct)
  case (snoc x xs)
  then show ?case by (cases x) (auto simp: run_times_append observe_def Let_def)
qed (simp add: newHistogram_def)

definition shown :: "bool \<Rightarrow> counter \<Rightarrow> bytes option" where
  "shown b c = (if b then Some (FormatInt c) else None)"

lemma read_run_duration:
  assumes "n \<in> {''_bucket'', ''_sum'', ''_count''}"
  shows "map_of (samples fmt (after ops)) (''runner_run_duration_seconds'' @ n, (''language'', l) # ls) =
    (if list_ex (is_obs l) ops
     then map_of (hist_samples fmt ''runner_run_duration_seconds'' l (hist (runDur (after ops)) l runBuckets))
       (''runner_run_duration_seconds'' @ n, (''language'', l) # ls)
     else None)"
proof -
  have "the (Mapping.lookup (runDur (after ops)) l) = hist (runDur (after ops)) l runBuckets"
    if "l \<in> Mapping.keys (runDur (after ops))"
    using that after_hists(1) by (auto simp: keys_dom_lookup)
  with assms after_finite(4) [of ops] show ?thesis
    unfolding samples_read_hist(1) [OF assms]
    by (subst histogram_samples_read [where l = l]) (auto simp: after_keys)
qed

lemma read_compile_duration:
  assumes "n \<in> {''_bucket'', ''_sum'', ''_count''}"
  shows "map_of (samples fmt (after ops)) (''runner_compile_duration_seconds'' @ n, (''language'', l) # ls) =
    (if list_ex (is_compiled l) ops
     then map_of (hist_samples fmt ''runner_compile_duration_seconds'' l (hist (compileDur (after ops)) l compileBuckets))
       (''runner_compile_duration_seconds'' @ n, (''language'', l) # ls)
     else None)"
proof -
  have "the (Mapping.lookup (compileDur (after ops)) l) = hist (compileDur (after ops)) l compileBuckets"
    if "l \<in> Mapping.keys (compileDur (after ops))"
    using that after_hists(2) by (auto simp: keys_dom_lookup)
  with assms after_finite(5) [of ops] show ?thesis
    unfolding samples_read_hist(2) [OF assms]
    by (subst histogram_samples_read [where l = l]) (auto simp: after_keys)
qed

text \<open>C27: What a scraper reads is what happened. After any sequence of runs, sheds and gauge movements whose labels are
  plain ASCII, the text of \<open>Render\<close> parses line by line, no series occurs twice, and each series that is read has the
  value of the history: a \<open>{language, status}\<close> counter and the memory and timeout counters are there exactly if such
  a run was observed and show how many; the buckets of the duration histogram are the cumulative numbers of
  runs that took no longer, its last bucket and its count are all of them and its sum is that of their times; the gauge is
  entries less exits.\<close>
theorem scrape_faithful:
  assumes "list_all plain_op ops" and "\<forall>xs. CHR 0x0A \<notin> set (fmt xs)"
  shows "\<exists>rs. scrape (Render fmt (after ops)) = Some rs \<and> distinct (map fst rs) \<and>
    map_of rs (''runner_runs_total'', [(''language'', l), (''status'', s)]) =
      shown (list_ex (is_run l s) ops) (how_many (is_run l s) ops) \<and>
    map_of rs (''runner_oom_total'', [(''language'', l)]) =
      shown (list_ex (is_run l ''memory_exceeded'') ops) (how_many (is_run l ''memory_exceeded'') ops) \<and>
    map_of rs (''runner_timeout_total'', [(''language'', l)]) =
      shown (list_ex (is_run l ''timeout'') ops) (how_many (is_run l ''timeout'') ops) \<and>
    map_of rs (''runner_output_limit_exceeded_total'', []) = Some (FormatInt (how_many is_flood ops)) \<and>
    map_of rs (''runner_overload_total'', []) = Some (FormatInt (how_many (\<lambda>x. x = Shed) ops)) \<and>
    map_of rs (''runner_inflight'', []) =
      Some (FormatInt (how_many (\<lambda>x. x = Enter) ops - how_many (\<lambda>x. x = Leave) ops)) \<and>
    list_all (\<lambda>i. map_of rs (''runner_run_duration_seconds_bucket'',
        [(''language'', l), (''le'', FormatSeconds (runBuckets ! i))]) =
      shown (list_ex (is_obs l) ops) (how_many (in_bucket l (runBuckets ! i)) ops)) [0..<length runBuckets] \<and>
    map_of rs (''runner_run_duration_seconds_bucket'', [(''language'', l), (''le'', ''+Inf'')]) =
      shown (list_ex (is_obs l) ops) (how_many (is_obs l) ops) \<and>
    map_of rs (''runner_run_duration_seconds_count'', [(''language'', l)]) =
      shown (list_ex (is_obs l) ops) (how_many (is_obs l) ops) \<and>
    map_of rs (''runner_run_duration_seconds_sum'', [(''language'', l)]) =
      (if list_ex (is_obs l) ops then Some (fmt (run_times l ops)) else None) \<and>
    map_of rs (''runner_compile_duration_seconds_count'', [(''language'', l)]) =
      shown (list_ex (is_compiled l) ops) (how_many (is_compiled l) ops)"
proof -
  let ?h = "hist (runDur (after ops)) l runBuckets" and ?c = "hist (compileDur (after ops)) l compileBuckets"
  have b: "runBuckets \<in> {runBuckets, compileBuckets}" "compileBuckets \<in> {runBuckets, compileBuckets}" by simp_all
  have h: "buckets ?h = runBuckets" "buckets ?c = compileBuckets"
    using after_run_hist [of ops l] after_compile_hist [of ops l] by (simp_all add: hist_ok_def)
  note d = hist_samples_read [OF h(1) bucket_texts_ok(1,2) [OF b(1)], where fmt = fmt and l = l and name = "''runner_run_duration_seconds''"]
    and e = hist_samples_read [OF h(2) bucket_texts_ok(1,2) [OF b(2)], where fmt = fmt and l = l and name = "''runner_compile_duration_seconds''"]
  let ?S = "samples fmt (after ops)"
  have bucket: "map_of ?S (''runner_run_duration_seconds_bucket'', [(''language'', l), (''le'', FormatSeconds (runBuckets ! i))]) =
      shown (list_ex (is_obs l) ops) (cumulative ?h i)" if "i < length runBuckets" for i
    using read_run_duration [of "''_bucket''" fmt ops l "[(''le'', FormatSeconds (runBuckets ! i))]"] d(1) [OF that]
    by (simp add: shown_def)
  have top: "map_of ?S (''runner_run_duration_seconds_bucket'', [(''language'', l), (''le'', ''+Inf'')]) =
      shown (list_ex (is_obs l) ops) (cumulative ?h (length runBuckets))"
    using read_run_duration [of "''_bucket''" fmt ops l "[(''le'', ''+Inf'')]"] d(2) by (simp add: shown_def)
  have sums: "map_of ?S (''runner_run_duration_seconds_sum'', [(''language'', l)]) =
      (if list_ex (is_obs l) ops then Some (fmt (run_times l ops)) else None)"
    using read_run_duration [of "''_sum''" fmt ops l "[]"] d(3) by (simp add: after_summands)
  have cnt: "map_of ?S (''runner_run_duration_seconds_count'', [(''language'', l)]) =
      shown (list_ex (is_obs l) ops) (cumulative ?h (length runBuckets))"
    using read_run_duration [of "''_count''" fmt ops l "[]"] d(4) by (simp add: shown_def)
  have ccnt: "map_of ?S (''runner_compile_duration_seconds_count'', [(''language'', l)]) =
      shown (list_ex (is_compiled l) ops) (cumulative ?c (length compileBuckets))"
    using read_compile_duration [of "''_count''" fmt ops l "[]"] e(4) by (simp add: shown_def)
  show ?thesis
    using after_run_hist [of ops l] after_compile_hist [of ops l]
    by (intro exI [of _ ?S] conjI)
      (simp_all add: scrape_Render [OF assms] samples_distinct samples_read run_samples_read lang_samples_read after_finite
        after_keys after_counters list_all_iff bucket top sums cnt ccnt, simp_all add: shown_def)
qed

text \<open>Two Python runs, one of them out of memory, and one request turned away.\<close>

theorem scrape_faithful_witness:
  "\<exists>rs. scrape (Render (\<lambda>_. ''0.06'') (after [Observe ''python'' ''success'' 20 0, Shed, Observe ''python'' ''memory_exceeded'' 40 0])) = Some rs \<and>
     map_of rs (''runner_oom_total'', [(''language'', ''python'')]) = Some ''1'' \<and>
     map_of rs (''runner_oom_total'', [(''language'', ''c'')]) = None \<and>
     map_of rs (''runner_overload_total'', []) = Some ''1''"
proof -
  let ?ops = "[Observe ''python'' ''success'' 20 0, Shed, Observe ''python'' ''memory_exceeded'' 40 0]"
  have p: "list_all plain_op ?ops" by (simp add: plain_char_def)
  have f: "FormatInt 1 = ''1''" by code_simp
  have c: "how_many (is_run ''python'' ''memory_exceeded'') ?ops = 1" "how_many (\<lambda>x. x = Shed) ?ops = 1"
    by (simp_all add: how_many_def)
  from scrape_faithful [OF p, of "\<lambda>_. ''0.06''" "''python''" "''success''"] scrape_faithful [OF p, of "\<lambda>_. ''0.06''" "''c''" "''success''"]
  show ?thesis unfolding c by (auto simp: shown_def f)
qed

end
