(* ===== verification/Gate.thy ===== *)
theory Gate
  imports Metrics "HOL-Library.Word"
begin

text \<open>
  \<^verbatim>\<open>internal/transport/httpapi/middleware.go\<close> and the gate of \<^verbatim>\<open>server.go\<close>: who may have a program
  executed, and how many at once. Authentication is a function of the request. The concurrency limit is a
  step relation, because its point is the interleaving of requests: each atomic action of a request (taking
  a slot of the buffered channel, counting itself, giving the slot back, uncounting itself) is a step,
  and any number of requests may be between two steps.
\<close>

subsection \<open>Requests and responses\<close>

text \<open>
  What the handlers use of \<open>net/http\<close>: a request is its method, its path, \<open>Header.Get\<close> (the empty string
  for an absent header) and its body; a response is the status code, the headers set before it and a body, which is
  either a text or a value for the JSON encoder.
\<close>

record http_request =
  rqMethod :: bytes
  rqPath :: bytes
  rqHeader :: "bytes \<Rightarrow> bytes"
  rqBody :: bytes

datatype 'b payload = Text bytes | Payload 'b

type_synonym headers = "bytes \<Rightarrow> bytes option"

record 'b response =
  rsCode :: int
  rsHeader :: headers
  rsBody :: "'b payload"

definition http_Error :: "headers \<Rightarrow> bytes \<Rightarrow> int \<Rightarrow> 'b response" where
  "http_Error hs msg code =
     \<lparr>rsCode = code,
      rsHeader = hs(''Content-Type'' \<mapsto> ''text/plain; charset=utf-8'', ''X-Content-Type-Options'' \<mapsto> ''nosniff''),
      rsBody = Text (msg @ [CHR 0x0A])\<rparr>"

lemma http_Error_simps [simp]:
  "rsCode (http_Error hs msg code) = code" "rsBody (http_Error hs msg code) = Text (msg @ [CHR 0x0A])"
  "k \<notin> {''Content-Type'', ''X-Content-Type-Options''} \<Longrightarrow> rsHeader (http_Error hs msg code) k = hs k"
  by (auto simp: http_Error_def)

type_synonym ('b, 's) handle = "http_request \<Rightarrow> 's \<Rightarrow> 'b response \<times> 's"

subsection \<open>Tokens\<close>

text \<open>\<open>subtle.ConstantTimeCompare\<close> is 1 for equal byte strings and 0 otherwise.\<close>

definition ConstantTimeCompare :: "bytes \<Rightarrow> bytes \<Rightarrow> 64 word" where
  "ConstantTimeCompare x y = (if x = y then 1 else 0)"

definition tokens_match :: "bytes list \<Rightarrow> bytes \<Rightarrow> 64 word" where
  "tokens_match tokens got = foldl (\<lambda>ok t. or ok (ConstantTimeCompare got t)) 0 tokens"

definition RequireTokens :: "bytes list \<Rightarrow> ('b, 's) handle \<Rightarrow> ('b, 's) handle" where
  "RequireTokens tokens next_h r s =
     (if tokens \<noteq> [] \<and> tokens_match tokens (rqHeader r ''X-Runner-Token'') \<noteq> 1
      then (http_Error Map.empty ''unauthorized'' 401, s)
      else next_h r s)"

fun union_add :: "bytes list \<Rightarrow> bytes list \<Rightarrow> bytes list" where
  "union_add out [] = out"
| "union_add out (t # ts) = union_add (if t = [] \<or> t \<in> set out then out else out @ [t]) ts"

definition unionTokens :: "bytes \<Rightarrow> bytes list \<Rightarrow> bytes list" where
  "unionTokens single many = union_add [] (single # many)"

lemma tokens_match_iff: "tokens_match tokens got = (if got \<in> set tokens then 1 else 0)"
proof -
  have "foldl (\<lambda>ok t. or ok (ConstantTimeCompare got t)) a tokens = (if a = 1 \<or> got \<in> set tokens then 1 else 0)"
    if "a \<in> {0, 1}" for a
    using that by (induction tokens arbitrary: a) (auto simp: ConstantTimeCompare_def)
  from this [of 0] show ?thesis by (simp add: tokens_match_def)
qed

lemma union_add_set: "set (union_add out ts) = set out \<union> (set ts - {[]})"
  by (induction out ts rule: union_add.induct) (auto split: if_splits)

lemma union_add_distinct: "distinct out \<Longrightarrow> distinct (union_add out ts)"
  by (induction out ts rule: union_add.induct) auto

lemma unionTokens_props:
  "set (unionTokens single many) = insert single (set many) - {[]}" "distinct (unionTokens single many)"
  by (auto simp: unionTokens_def union_add_set union_add_distinct simp del: union_add.simps)

text \<open>Who passes a gate with these tokens.\<close>

definition authorized :: "bytes list \<Rightarrow> bytes \<Rightarrow> bool" where
  "authorized tokens got \<longleftrightarrow> tokens = [] \<or> got \<in> set tokens"

lemma RequireTokens_cases:
  "RequireTokens tokens next_h r s =
     (if authorized tokens (rqHeader r ''X-Runner-Token'') then next_h r s
      else (http_Error Map.empty ''unauthorized'' 401, s))"
  by (auto simp: RequireTokens_def authorized_def tokens_match_iff)

text \<open>The token sets of the two gates: \<open>/run\<close> and, falling back to it, \<open>/metrics\<close>.\<close>

definition metrics_tokens :: "bytes \<Rightarrow> bytes list \<Rightarrow> bytes list \<Rightarrow> bytes list" where
  "metrics_tokens single many service =
     (let ts = unionTokens single many in if length ts = 0 then service else ts)"

text \<open>C30: The token gate. Whatever tokens are configured, a request reaches the handler exactly if it presents
  one of the configured non-empty tokens (the empty header never authorizes), or if none is configured at all; any
  other request is answered 401 and changes nothing. The metrics route is open to everyone only if no
  token of either kind is configured.\<close>
theorem token_gate:
  "(let ts = unionTokens single many; got = rqHeader r ''X-Runner-Token'';
        ms = metrics_tokens msingle mmany ts in
    (RequireTokens ts next_h r s =
       (if insert single (set many) \<subseteq> {[]} \<or> got \<in> insert single (set many) - {[]} then next_h r s
        else (http_Error Map.empty ''unauthorized'' 401, s))) \<and>
    distinct ts \<and>
    (ms = [] \<longleftrightarrow> insert single (insert msingle (set many \<union> set mmany)) \<subseteq> {[]}))"
proof -
  have e: "unionTokens a b = [] \<longleftrightarrow> insert a (set b) \<subseteq> {[]}" for a b
    using unionTokens_props(1) [of a b] by (metis Diff_eq_empty_iff set_empty2)
  show ?thesis
    unfolding Let_def RequireTokens_cases authorized_def metrics_tokens_def
    using unionTokens_props [of single many] e [of single many] e [of msingle mmany] by auto
qed

subsection \<open>Slots\<close>

text \<open>
  \<^verbatim>\<open>make(chan struct{}, max)\<close> used as a counting semaphore: the non-blocking send of the \<open>select\<close> takes a
  slot unless the buffer is full, the receive of the deferred function gives one back.
\<close>

record chan =
  capacity :: nat
  held :: nat

definition make_chan :: "int \<Rightarrow> chan" where
  "make_chan n = \<lparr>capacity = nat n, held = 0\<rparr>"

definition try_send :: "chan \<Rightarrow> chan option" where
  "try_send c = (if held c < capacity c then Some (c\<lparr>held := held c + 1\<rparr>) else None)"

definition receive :: "chan \<Rightarrow> chan" where
  "receive c = c\<lparr>held := held c - 1\<rparr>"

text \<open>What a limiter needs of its semaphore: a bounded number of permits, refused only when all are out.\<close>

locale semaphore =
  fixes acquire :: "'c \<Rightarrow> 'c option" and release :: "'c \<Rightarrow> 'c" and taken :: "'c \<Rightarrow> nat" and limit :: "'c \<Rightarrow> nat"
  assumes acquire_Some: "acquire c = Some c' \<Longrightarrow> taken c' = Suc (taken c) \<and> limit c' = limit c \<and> taken c < limit c"
    and acquire_None: "acquire c = None \<longleftrightarrow> limit c \<le> taken c"
    and release_taken: "0 < taken c \<Longrightarrow> Suc (taken (release c)) = taken c \<and> limit (release c) = limit c"
begin

definition sound :: "nat \<Rightarrow> nat \<Rightarrow> 'c \<Rightarrow> bool" where
  "sound n k c \<longleftrightarrow> limit c = n \<and> taken c = k \<and> k \<le> n"

lemma sound_acquire: "sound n k c \<Longrightarrow> acquire c = Some c' \<Longrightarrow> sound n (Suc k) c'"
  using acquire_Some [of c c'] by (auto simp: sound_def)

lemma sound_release: "sound n (Suc k) c \<Longrightarrow> sound n k (release c)"
  using release_taken [of c] by (auto simp: sound_def)

lemma sound_full: "sound n k c \<Longrightarrow> acquire c = None \<longleftrightarrow> k = n"
  using acquire_None [of c] by (auto simp: sound_def)

lemma sound_free: "sound n k c \<Longrightarrow> k < n \<Longrightarrow> \<exists>c'. acquire c = Some c' \<and> sound n (Suc k) c'"
  using acquire_None [of c] acquire_Some [of c] by (cases "acquire c") (auto simp: sound_def)

end

interpretation slots: semaphore try_send receive held capacity
  by unfold_locales (auto simp: try_send_def receive_def split: if_splits)

lemma sound_make_chan: "slots.sound (nat n) 0 (make_chan n)"
  by (simp add: slots.sound_def make_chan_def)

subsection \<open>The limiter\<close>

text \<open>
  \<open>New\<close> calls \<open>gate\<close> once for \<^verbatim>\<open>POST /run\<close> and once for \<^verbatim>\<open>POST /run/python\<close>, so each route has a limiter,
  and a channel, of its own; the metrics are shared. Where a request stands, between two atomic actions:
  it holds a slot and is not counted yet; it is being served; it has given its slot back and is still counted; it
  found every slot taken; or it is served without a limit.
\<close>

datatype route = RunRoute | PythonRoute

datatype phase = Holding | Serving | Returned | Refused | Unlimited

record gate_state =
  slotsOf :: "route \<Rightarrow> chan"
  gmetrics :: Metrics
  reqs :: "nat \<Rightarrow> (route \<times> phase) option"

datatype gate_event =
  Denied nat route bytes
| Taken nat route bytes
| Full nat route bytes
| Unmetered nat route bytes
| Counted nat
| Given nat
| Uncounted nat
| ShedOff nat
| Done nat

definition gate_init :: "int \<Rightarrow> gate_state" where
  "gate_init mx = \<lparr>slotsOf = (\<lambda>_. make_chan mx), gmetrics = newMetrics, reqs = Map.empty\<rparr>"

inductive gate_step :: "bytes list \<Rightarrow> int \<Rightarrow> gate_state \<Rightarrow> gate_event \<Rightarrow> gate_state \<Rightarrow> bool" for tokens mx where
  deny: "reqs s i = None \<Longrightarrow> \<not> authorized tokens got \<Longrightarrow> gate_step tokens mx s (Denied i r got) s"
| pass: "reqs s i = None \<Longrightarrow> authorized tokens got \<Longrightarrow> mx \<le> 0 \<Longrightarrow>
    gate_step tokens mx s (Unmetered i r got) (s\<lparr>reqs := (reqs s)(i \<mapsto> (r, Unlimited))\<rparr>)"
| take: "reqs s i = None \<Longrightarrow> authorized tokens got \<Longrightarrow> \<not> mx \<le> 0 \<Longrightarrow> try_send (slotsOf s r) = Some c \<Longrightarrow>
    gate_step tokens mx s (Taken i r got)
      (s\<lparr>slotsOf := (slotsOf s)(r := c), reqs := (reqs s)(i \<mapsto> (r, Holding))\<rparr>)"
| full: "reqs s i = None \<Longrightarrow> authorized tokens got \<Longrightarrow> \<not> mx \<le> 0 \<Longrightarrow> try_send (slotsOf s r) = None \<Longrightarrow>
    gate_step tokens mx s (Full i r got) (s\<lparr>reqs := (reqs s)(i \<mapsto> (r, Refused))\<rparr>)"
| count: "reqs s i = Some (r, Holding) \<Longrightarrow>
    gate_step tokens mx s (Counted i)
      (s\<lparr>gmetrics := IncInflight (gmetrics s), reqs := (reqs s)(i \<mapsto> (r, Serving))\<rparr>)"
| give: "reqs s i = Some (r, Serving) \<Longrightarrow>
    gate_step tokens mx s (Given i)
      (s\<lparr>slotsOf := (slotsOf s)(r := receive (slotsOf s r)), reqs := (reqs s)(i \<mapsto> (r, Returned))\<rparr>)"
| uncount: "reqs s i = Some (r, Returned) \<Longrightarrow>
    gate_step tokens mx s (Uncounted i) (s\<lparr>gmetrics := DecInflight (gmetrics s), reqs := (reqs s)(i := None)\<rparr>)"
| shed: "reqs s i = Some (r, Refused) \<Longrightarrow>
    gate_step tokens mx s (ShedOff i) (s\<lparr>gmetrics := Overload (gmetrics s), reqs := (reqs s)(i := None)\<rparr>)"
| finish: "reqs s i = Some (r, Unlimited) \<Longrightarrow> gate_step tokens mx s (Done i) (s\<lparr>reqs := (reqs s)(i := None)\<rparr>)"

inductive_simps gate_step_simps:
  "gate_step tokens mx s (Denied i r got) s'" "gate_step tokens mx s (Taken i r got) s'"
  "gate_step tokens mx s (Full i r got) s'" "gate_step tokens mx s (Unmetered i r got) s'"
  "gate_step tokens mx s (Counted i) s'" "gate_step tokens mx s (Given i) s'"
  "gate_step tokens mx s (Uncounted i) s'" "gate_step tokens mx s (ShedOff i) s'" "gate_step tokens mx s (Done i) s'"

inductive gate_run :: "bytes list \<Rightarrow> int \<Rightarrow> gate_state \<Rightarrow> gate_event list \<Rightarrow> gate_state \<Rightarrow> bool" for tokens mx where
  idle: "gate_run tokens mx s [] s"
| more: "gate_run tokens mx s es s1 \<Longrightarrow> gate_step tokens mx s1 e s2 \<Longrightarrow> gate_run tokens mx s (es @ [e]) s2"

lemma gate_run_Cons: "gate_step tokens mx s e s1 \<Longrightarrow> gate_run tokens mx s1 es s2 \<Longrightarrow> gate_run tokens mx s (e # es) s2"
  by (rotate_tac 1, induction s1 es s2 rule: gate_run.induct)
    (metis append_Nil gate_run.simps, metis append_Cons gate_run.more)

lemma gate_run_trans: "gate_run tokens mx s es s1 \<Longrightarrow> gate_run tokens mx s1 fs s2 \<Longrightarrow> gate_run tokens mx s (es @ fs) s2"
  by (rotate_tac 1, induction s1 fs s2 rule: gate_run.induct)
    (simp, metis append.assoc gate_run.more)

subsection \<open>Accounting\<close>

text \<open>How many entries of a table satisfy a predicate.\<close>

definition tally :: "('v \<Rightarrow> bool) \<Rightarrow> ('k \<Rightarrow> 'v option) \<Rightarrow> nat" where
  "tally P m = card {k. \<exists>v. m k = Some v \<and> P v}"

lemma tally_empty [simp]: "tally P Map.empty = 0"
  by (simp add: tally_def)

lemma tally_finite: "finite (dom m) \<Longrightarrow> finite {k. \<exists>v. m k = Some v \<and> P v}"
  by (rule finite_subset [of _ "dom m"]) auto

lemma tally_new: "finite (dom m) \<Longrightarrow> m i = None \<Longrightarrow> tally P (m(i \<mapsto> x)) = (if P x then Suc (tally P m) else tally P m)"
proof -
  assume f: "finite (dom m)" and n: "m i = None"
  have "{k. \<exists>v. (m(i \<mapsto> x)) k = Some v \<and> P v} =
      (if P x then insert i {k. \<exists>v. m k = Some v \<and> P v} else {k. \<exists>v. m k = Some v \<and> P v})"
    using n by auto
  then show ?thesis using n tally_finite [OF f] by (simp add: tally_def)
qed

lemma tally_del: "finite (dom m) \<Longrightarrow> m i = Some y \<Longrightarrow> tally P m = (if P y then Suc (tally P (m(i := None))) else tally P (m(i := None)))"
proof -
  assume f: "finite (dom m)" and y: "m i = Some y"
  have "(m(i := None))(i \<mapsto> y) = m" using y by auto
  then show ?thesis using tally_new [of "m(i := None)" i P y] f by simp
qed

lemma tally_upd: "finite (dom m) \<Longrightarrow> m i = Some y \<Longrightarrow>
  tally P (m(i \<mapsto> x)) = (if P x then Suc (tally P (m(i := None))) else tally P (m(i := None)))"
  using tally_new [of "m(i := None)" i P x] by simp

text \<open>The requests that hold a slot of a route, and those that the gauge counts.\<close>

definition holds :: "route \<Rightarrow> route \<times> phase \<Rightarrow> bool" where
  "holds r x \<longleftrightarrow> fst x = r \<and> snd x \<in> {Holding, Serving}"

definition counted :: "route \<times> phase \<Rightarrow> bool" where
  "counted x \<longleftrightarrow> snd x \<in> {Serving, Returned}"

definition executing :: "route \<times> phase \<Rightarrow> bool" where
  "executing x \<longleftrightarrow> snd x \<in> {Serving, Unlimited}"

fun is_shed :: "gate_event \<Rightarrow> bool" where
  "is_shed (ShedOff i) = True"
| "is_shed _ = False"

definition gate_inv :: "int \<Rightarrow> gate_event list \<Rightarrow> gate_state \<Rightarrow> bool" where
  "gate_inv mx es s \<longleftrightarrow>
     finite (dom (reqs s)) \<and>
     (\<forall>r. slots.sound (nat mx) (tally (holds r) (reqs s)) (slotsOf s r)) \<and>
     inflight (gmetrics s) = of_nat (tally counted (reqs s)) \<and>
     overloadTotal (gmetrics s) = how_many is_shed es \<and>
     (0 < mx \<longrightarrow> (\<forall>i r. reqs s i \<noteq> Some (r, Unlimited)))"

lemma gate_inv_init: "gate_inv mx [] (gate_init mx)"
  by (simp add: gate_inv_def gate_init_def sound_make_chan)

lemma gate_inv_finite: "gate_inv mx es s \<Longrightarrow> finite (dom (reqs s))"
  by (simp add: gate_inv_def)

lemma gate_inv_take:
  assumes inv: "gate_inv mx es s" and n: "reqs s i = None" and c: "try_send (slotsOf s r) = Some c"
  shows "gate_inv mx (es @ [Taken i r got]) (s\<lparr>slotsOf := (slotsOf s)(r := c), reqs := (reqs s)(i \<mapsto> (r, Holding))\<rparr>)"
proof -
  note f = gate_inv_finite [OF inv]
  have r: "slots.sound (nat mx) (tally (holds q) (reqs s)) (slotsOf s q)" for q
    using inv by (simp add: gate_inv_def)
  from slots.sound_acquire [OF r c] have "slots.sound (nat mx) (Suc (tally (holds r) (reqs s))) c" .
  with inv r show ?thesis
    by (simp add: gate_inv_def tally_new [OF f n], simp add: holds_def counted_def)
qed

lemma gate_inv_give:
  assumes inv: "gate_inv mx es s" and n: "reqs s i = Some (r, Serving)"
  shows "gate_inv mx (es @ [Given i])
    (s\<lparr>slotsOf := (slotsOf s)(r := receive (slotsOf s r)), reqs := (reqs s)(i \<mapsto> (r, Returned))\<rparr>)"
proof -
  note f = gate_inv_finite [OF inv]
  have r: "slots.sound (nat mx) (tally (holds q) (reqs s)) (slotsOf s q)" for q
    using inv by (simp add: gate_inv_def)
  have "tally (holds r) (reqs s) = Suc (tally (holds r) ((reqs s)(i := None)))"
    using tally_del [OF f n, of "holds r"] by (simp add: holds_def)
  with r [of r] have "slots.sound (nat mx) (tally (holds r) ((reqs s)(i := None))) (receive (slotsOf s r))"
    by (simp add: slots.sound_release)
  moreover have "tally (holds q) ((reqs s)(i := None)) = tally (holds q) (reqs s)" if "q \<noteq> r" for q
    using tally_del [OF f n, of "holds q"] that by (simp add: holds_def)
  ultimately show ?thesis using inv n r tally_del [OF f n, of counted]
    by (simp add: gate_inv_def tally_upd [OF f n], simp add: holds_def counted_def)
qed

lemma gate_inv_step:
  assumes "gate_step tokens mx s e s'" and "gate_inv mx es s"
  shows "gate_inv mx (es @ [e]) s'"
  using assms
proof (induction rule: gate_step.induct)
  case (take s i got r c)
  from gate_inv_take [OF take(5,1,4)] show ?case .
next
  case (give s i r)
  from gate_inv_give [OF give(2,1)] show ?case .
next
  case (deny s i got r)
  then show ?case by (simp add: gate_inv_def)
next
  case (pass s i got r)
  then show ?case by (simp add: gate_inv_def tally_new holds_def counted_def)
next
  case (full s i got r)
  then show ?case by (simp add: gate_inv_def tally_new holds_def counted_def)
next
  case (count s i r)
  note f = gate_inv_finite [OF count(2)]
  show ?case using count tally_del [OF f count(1)]
    by (simp add: gate_inv_def tally_upd [OF f count(1)] holds_def counted_def)
next
  case (uncount s i r)
  note f = gate_inv_finite [OF uncount(2)]
  show ?case using uncount tally_del [OF f uncount(1)] by (simp add: gate_inv_def holds_def counted_def)
next
  case (shed s i r)
  note f = gate_inv_finite [OF shed(2)]
  show ?case using shed tally_del [OF f shed(1)] by (simp add: gate_inv_def holds_def counted_def)
next
  case (finish s i r)
  note f = gate_inv_finite [OF finish(2)]
  show ?case using finish tally_del [OF f finish(1)] by (simp add: gate_inv_def holds_def counted_def)
qed

lemma gate_inv_run: "gate_run tokens mx s es s' \<Longrightarrow> s = gate_init mx \<Longrightarrow> gate_inv mx es s'"
  by (induction rule: gate_run.induct) (auto intro: gate_inv_init gate_inv_step)

lemma tally_le: "finite (dom m) \<Longrightarrow> (\<And>x. P x \<Longrightarrow> Q x \<or> R x) \<Longrightarrow> tally P m \<le> tally Q m + tally R m"
proof -
  assume f: "finite (dom m)" and PQ: "\<And>x. P x \<Longrightarrow> Q x \<or> R x"
  have "{k. \<exists>v. m k = Some v \<and> P v} \<subseteq> {k. \<exists>v. m k = Some v \<and> Q v} \<union> {k. \<exists>v. m k = Some v \<and> R v}"
    using PQ by blast
  then have "tally P m \<le> card ({k. \<exists>v. m k = Some v \<and> Q v} \<union> {k. \<exists>v. m k = Some v \<and> R v})"
    unfolding tally_def by (rule card_mono [rotated]) (simp add: tally_finite f)
  also have "\<dots> \<le> tally Q m + tally R m" unfolding tally_def by (rule card_Un_le)
  finally show ?thesis .
qed

lemma executing_bound:
  assumes "gate_inv mx es s" and "0 < mx"
  shows "tally executing (reqs s) \<le> 2 * nat mx"
proof -
  let ?X = "\<lambda>x. snd x = Unlimited"
  have f: "finite (dom (reqs s))" using assms(1) by (simp add: gate_inv_def)
  have "tally executing (reqs s) \<le> tally (\<lambda>x. holds RunRoute x \<or> holds PythonRoute x) (reqs s) + tally ?X (reqs s)"
    by (rule tally_le [OF f]) (auto simp: executing_def holds_def intro: route.exhaust)
  moreover have "tally ?X (reqs s) = 0"
    using assms by (auto simp: tally_def gate_inv_def)
  moreover have "tally (\<lambda>x. holds RunRoute x \<or> holds PythonRoute x) (reqs s) \<le>
      tally (holds RunRoute) (reqs s) + tally (holds PythonRoute) (reqs s)" by (rule tally_le [OF f]) blast
  moreover have "tally (holds r) (reqs s) \<le> nat mx" for r
    using assms(1) by (simp add: gate_inv_def slots.sound_def)
  ultimately show ?thesis using add_mono by (smt (verit) add.right_neutral le_trans mult_2)
qed

fun lets_in :: "gate_event \<Rightarrow> bytes option" where
  "lets_in (Taken i r got) = Some got"
| "lets_in (Full i r got) = Some got"
| "lets_in (Unmetered i r got) = Some got"
| "lets_in _ = None"

lemma let_in_authorized: "gate_run tokens mx s es s' \<Longrightarrow> e \<in> set es \<Longrightarrow> lets_in e = Some got \<Longrightarrow> authorized tokens got"
  by (induction rule: gate_run.induct) (auto elim: gate_step.cases)

text \<open>C7: The gate's accounts, under every interleaving of any number of requests. On each route at most
  \<open>mx\<close> requests hold a slot, and the slots taken are exactly those held; the in-flight gauge is the number of
  requests between counting and uncounting themselves; the overload counter is the number of requests shed; a
  request is turned away only when all slots of its own route are held; only authorized callers ever reach the
  limiter; and when no request is in flight every slot is free and the gauge is zero, so no slot leaks.\<close>
theorem gate_accounting:
  assumes "gate_run tokens mx (gate_init mx) es s" and "0 < mx"
  shows "tally (holds r) (reqs s) \<le> nat mx \<and> held (slotsOf s r) = tally (holds r) (reqs s) \<and>
    inflight (gmetrics s) = of_nat (tally counted (reqs s)) \<and> overloadTotal (gmetrics s) = how_many is_shed es \<and>
    (gate_step tokens mx s (Full i r got) s' \<longrightarrow> tally (holds r) (reqs s) = nat mx) \<and>
    list_all (\<lambda>e. case lets_in e of Some k \<Rightarrow> authorized tokens k | None \<Rightarrow> True) es \<and>
    (reqs s = Map.empty \<longrightarrow> held (slotsOf s r) = 0 \<and> inflight (gmetrics s) = 0)"
proof -
  have inv: "gate_inv mx es s" by (rule gate_inv_run [OF assms(1) refl])
  then have s: "slots.sound (nat mx) (tally (holds r) (reqs s)) (slotsOf s r)" by (simp add: gate_inv_def)
  have "tally (holds r) (reqs s) = nat mx" if "gate_step tokens mx s (Full i r got) s'"
    using that slots.sound_full [OF s] by (simp add: gate_step_simps)
  moreover have "list_all (\<lambda>e. case lets_in e of Some k \<Rightarrow> authorized tokens k | None \<Rightarrow> True) es"
    using let_in_authorized [OF assms(1)] by (auto simp: list_all_iff split: option.splits)
  ultimately show ?thesis using inv s by (auto simp: gate_inv_def slots.sound_def)
qed

subsection \<open>Progress and termination\<close>

text \<open>The steps a request still has before it, and what all of them together have.\<close>

fun steps_left :: "phase \<Rightarrow> nat" where
  "steps_left Holding = 3"
| "steps_left Serving = 2"
| "steps_left _ = 1"

definition pending :: "(nat \<Rightarrow> (route \<times> phase) option) \<Rightarrow> nat" where
  "pending m = (\<Sum>i\<in>dom m. steps_left (snd (the (m i))))"

fun arrives :: "gate_event \<Rightarrow> bool" where
  "arrives (Counted i) = False"
| "arrives (Given i) = False"
| "arrives (Uncounted i) = False"
| "arrives (ShedOff i) = False"
| "arrives (Done i) = False"
| "arrives _ = True"

lemma pending_split: "finite (dom m) \<Longrightarrow> m i = Some x \<Longrightarrow> pending m = steps_left (snd x) + pending (m(i := None))"
proof -
  assume f: "finite (dom m)" and i: "m i = Some x"
  then have "pending m = steps_left (snd x) + (\<Sum>j\<in>dom m - {i}. steps_left (snd (the (m j))))"
    unfolding pending_def by (subst sum.remove [of _ i]) auto
  also have "(\<Sum>j\<in>dom m - {i}. steps_left (snd (the (m j)))) = pending (m(i := None))"
    unfolding pending_def by (rule sum.cong) auto
  finally show ?thesis .
qed

lemma pending_put: "finite (dom m) \<Longrightarrow> pending (m(i \<mapsto> x)) = steps_left (snd x) + pending (m(i := None))"
  using pending_split [of "m(i \<mapsto> x)" i x] by simp

lemma pending_step:
  assumes "gate_step tokens mx s e s'" and "finite (dom (reqs s))"
  shows "finite (dom (reqs s'))" and "Suc (pending (reqs s')) \<le> pending (reqs s) + (if arrives e then 4 else 0)"
proof -
  have new: "m i = None \<Longrightarrow> m(i := None) = m" for m :: "nat \<Rightarrow> (route \<times> phase) option" and i by auto
  from assms show "finite (dom (reqs s'))" by (cases rule: gate_step.cases) auto
  from assms show "Suc (pending (reqs s')) \<le> pending (reqs s) + (if arrives e then 4 else 0)"
    by (cases rule: gate_step.cases) (simp_all add: pending_put pending_split new)
qed

lemma pending_run:
  "gate_run tokens mx s es s' \<Longrightarrow> finite (dom (reqs s)) \<Longrightarrow>
     finite (dom (reqs s')) \<and> length es + pending (reqs s') \<le> pending (reqs s) + 4 * length (filter arrives es)"
proof (induction s es s' rule: gate_run.induct)
  case (more s es s1 e s2)
  then show ?case using pending_step [OF more.hyps(2)] by (simp split: if_splits)
qed simp

lemma pending_le: "finite (dom m) \<Longrightarrow> pending m \<le> 3 * card (dom m)"
proof -
  assume "finite (dom m)"
  moreover have "steps_left p \<le> 3" for p by (cases p) simp_all
  ultimately have "pending m \<le> (\<Sum>i\<in>dom m. 3)" unfolding pending_def by (intro sum_mono)
  then show ?thesis by simp
qed

lemma in_flight_can_step: "reqs s i = Some x \<Longrightarrow> \<exists>e s'. \<not> arrives e \<and> gate_step tokens mx s e s'"
proof -
  assume i: "reqs s i = Some x"
  obtain r p where x: "x = (r, p)" by fastforce
  with i show ?thesis
    by (cases p) (metis arrives.simps gate_step.count gate_step.give gate_step.uncount gate_step.shed gate_step.finish)+
qed

lemma drain:
  "finite (dom (reqs s)) \<Longrightarrow>
   \<exists>es s'. gate_run tokens mx s es s' \<and> reqs s' = Map.empty \<and> list_all (\<lambda>e. \<not> arrives e) es"
proof (induction "pending (reqs s)" arbitrary: s rule: less_induct)
  case less
  show ?case
  proof (cases "reqs s = Map.empty")
    case True
    with gate_run.idle [of tokens mx s] show ?thesis by (intro exI [of _ "[]"] exI [of _ s]) simp
  next
    case False
    then obtain i x where "reqs s i = Some x" by (meson not_None_eq fun_eq_iff)
    then obtain e t where e: "\<not> arrives e" "gate_step tokens mx s e t" using in_flight_can_step by blast
    from pending_step [OF e(2) less.prems] e(1) have "finite (dom (reqs t))" "pending (reqs t) < pending (reqs s)" by auto
    from less.hyps [OF this(2,1)] obtain es s' where
      "gate_run tokens mx t es s'" "reqs s' = Map.empty" "list_all (\<lambda>e. \<not> arrives e) es" by blast
    with e gate_run_Cons show ?thesis by (intro exI [of _ "e # es"] exI [of _ s']) auto
  qed
qed

text \<open>What a request that arrives at a free identifier meets.\<close>

definition arrival :: "bytes list \<Rightarrow> int \<Rightarrow> gate_state \<Rightarrow> nat \<Rightarrow> route \<Rightarrow> bytes \<Rightarrow> gate_event" where
  "arrival tokens mx s i r got =
     (if \<not> authorized tokens got then Denied i r got
      else if mx \<le> 0 then Unmetered i r got
      else if tally (holds r) (reqs s) < nat mx then Taken i r got
      else Full i r got)"

text \<open>C17: The gate never blocks. From every reachable state a new request has a step at once, the one its token and the
  free slots of its route call for, so a caller is answered and never queued; and whatever is in flight can
  always be finished, in at most three steps for each request and without any new one being let in, after
  which every slot is free and the gauge is zero.\<close>
theorem gate_never_blocks:
  assumes "gate_run tokens mx (gate_init mx) es s" and "reqs s i = None"
  shows "(\<exists>s'. gate_step tokens mx s (arrival tokens mx s i r got) s') \<and>
    (\<exists>fs s'. gate_run tokens mx s fs s' \<and> length fs \<le> 3 * card (dom (reqs s)) \<and>
       list_all (\<lambda>e. lets_in e = None) fs \<and> reqs s' = Map.empty \<and>
       held (slotsOf s' r) = 0 \<and> inflight (gmetrics s') = 0)"
proof
  have inv: "gate_inv mx es s" by (rule gate_inv_run [OF assms(1) refl])
  then have snd: "slots.sound (nat mx) (tally (holds r) (reqs s)) (slotsOf s r)" and f: "finite (dom (reqs s))"
    by (simp_all add: gate_inv_def)
  show "\<exists>s'. gate_step tokens mx s (arrival tokens mx s i r got) s'"
    using slots.sound_free [OF snd] slots.sound_full [OF snd] snd assms(2)
    by (auto simp: arrival_def gate_step_simps slots.sound_def)
  obtain fs s' where d: "gate_run tokens mx s fs s'" "reqs s' = Map.empty" and na: "list_all (\<lambda>e. \<not> arrives e) fs"
    using drain [OF f] by blast
  have "filter arrives fs = []" using na by (simp add: filter_empty_conv list_all_iff)
  with pending_run [OF d(1) f] pending_le [OF f] have len: "length fs \<le> 3 * card (dom (reqs s))" by simp
  have "lets_in e = None" if "\<not> arrives e" for e using that by (cases e) simp_all
  with na have "list_all (\<lambda>e. lets_in e = None) fs" by (simp add: list_all_iff)
  have "gate_inv mx (es @ fs) s'" by (rule gate_inv_run [OF gate_run_trans [OF assms(1) d(1)] refl])
  then have "held (slotsOf s' r) = 0 \<and> inflight (gmetrics s') = 0"
    using d(2) by (simp add: gate_inv_def slots.sound_def)
  with d len \<open>list_all (\<lambda>e. lets_in e = None) fs\<close> show "\<exists>fs s'. gate_run tokens mx s fs s' \<and> length fs \<le> 3 * card (dom (reqs s)) \<and>
       list_all (\<lambda>e. lets_in e = None) fs \<and> reqs s' = Map.empty \<and>
       held (slotsOf s' r) = 0 \<and> inflight (gmetrics s') = 0" by blast
qed

text \<open>C29: Requests come to an end, whatever the interleaving. A run of the gate with \<open>n\<close> arrivals has at most \<open>4 n\<close> steps; once
  no more requests arrive, every schedule of those in flight ends after at most three steps for each; and where such a
  schedule can go no further nothing is in flight, every slot is free and the gauge is zero, which is what a drain
  waits for.\<close>
theorem gate_terminates:
  assumes "gate_run tokens mx (gate_init mx) es s" and "gate_run tokens mx s fs s'" and "list_all (\<lambda>e. \<not> arrives e) fs"
  shows "length es \<le> 4 * length (filter arrives es) \<and> length fs \<le> 3 * card (dom (reqs s)) \<and>
    ((\<forall>e t. gate_step tokens mx s' e t \<longrightarrow> arrives e) \<longrightarrow>
       reqs s' = Map.empty \<and> held (slotsOf s' r) = 0 \<and> inflight (gmetrics s') = 0)"
proof (intro conjI impI)
  have f0: "finite (dom (reqs (gate_init mx)))" "pending (reqs (gate_init mx)) = 0"
    by (simp_all add: gate_init_def pending_def)
  from pending_run [OF assms(1) f0(1)] f0(2) show "length es \<le> 4 * length (filter arrives es)" by simp
  have f: "finite (dom (reqs s))" using pending_run [OF assms(1) f0(1)] by simp
  have "filter arrives fs = []" using assms(3) by (simp add: filter_empty_conv list_all_iff)
  with pending_run [OF assms(2) f] pending_le [OF f] show "length fs \<le> 3 * card (dom (reqs s))" by simp
  assume stuck: "\<forall>e t. gate_step tokens mx s' e t \<longrightarrow> arrives e"
  show e: "reqs s' = Map.empty"
  proof
    fix i show "reqs s' i = None" using stuck in_flight_can_step [of s' i] by (cases "reqs s' i") blast+
  qed
  have "gate_inv mx (es @ fs) s'" by (rule gate_inv_run [OF gate_run_trans [OF assms(1,2)] refl])
  with e show "held (slotsOf s' r) = 0" "inflight (gmetrics s') = 0" by (simp_all add: gate_inv_def slots.sound_def)
qed

subsection \<open>Two limiters\<close>

lemma serve_one:
  assumes "gate_run tokens mx (gate_init mx) es s" and "reqs s i = None" and "authorized tokens got" and "0 < mx"
    and "tally (holds r) (reqs s) < nat mx"
  shows "\<exists>es' s'. gate_run tokens mx (gate_init mx) es' s' \<and> reqs s' = (reqs s)(i \<mapsto> (r, Serving))"
proof -
  have "slots.sound (nat mx) (tally (holds r) (reqs s)) (slotsOf s r)"
    using gate_inv_run [OF assms(1) refl] by (simp add: gate_inv_def)
  from slots.sound_free [OF this assms(5)] obtain c where c: "try_send (slotsOf s r) = Some c" by blast
  let ?s1 = "s\<lparr>slotsOf := (slotsOf s)(r := c), reqs := (reqs s)(i \<mapsto> (r, Holding))\<rparr>"
  let ?s2 = "?s1\<lparr>gmetrics := IncInflight (gmetrics ?s1), reqs := (reqs ?s1)(i \<mapsto> (r, Serving))\<rparr>"
  have "gate_step tokens mx s (Taken i r got) ?s1" using assms c by (simp add: gate_step_simps)
  from gate_run.more [OF assms(1) this] have "gate_run tokens mx (gate_init mx) (es @ [Taken i r got]) ?s1" .
  moreover have "gate_step tokens mx ?s1 (Counted i) ?s2" by (rule gate_step.count) simp
  ultimately have "gate_run tokens mx (gate_init mx) ((es @ [Taken i r got]) @ [Counted i]) ?s2" by (rule gate_run.more)
  moreover have "reqs ?s2 = (reqs s)(i \<mapsto> (r, Serving))" by simp
  ultimately show ?thesis by blast
qed

lemma serve_many:
  assumes "authorized tokens got" and "0 < mx"
  shows "a \<le> nat mx \<Longrightarrow> b \<le> nat mx \<Longrightarrow>
    \<exists>es s. gate_run tokens mx (gate_init mx) es s \<and> dom (reqs s) = {..<a + b} \<and>
      tally (holds RunRoute) (reqs s) = a \<and> tally (holds PythonRoute) (reqs s) = b \<and>
      tally executing (reqs s) = a + b \<and> tally counted (reqs s) = a + b"
proof (induction "a + b" arbitrary: a b)
  case 0
  then show ?case using gate_run.idle [of tokens mx "gate_init mx"]
    by (intro exI [of _ "[]"] exI [of _ "gate_init mx"]) (simp add: gate_init_def)
next
  case (Suc n)
  obtain a' b' r where ab: "n = a' + b'" "a = (if r = RunRoute then Suc a' else a')"
    "b = (if r = PythonRoute then Suc b' else b')"
  proof (cases a)
    case 0
    with Suc(2) show ?thesis using that [of 0 n PythonRoute] by simp
  next
    case (Suc m)
    with \<open>Suc n = a + b\<close> show ?thesis using that [of m b RunRoute] by simp
  qed
  then have le: "a' \<le> nat mx" "b' \<le> nat mx" using Suc(3,4) by (auto split: if_splits)
  obtain es s where s: "gate_run tokens mx (gate_init mx) es s" "dom (reqs s) = {..<a' + b'}"
    "tally (holds RunRoute) (reqs s) = a'" "tally (holds PythonRoute) (reqs s) = b'"
    "tally executing (reqs s) = a' + b'" "tally counted (reqs s) = a' + b'"
    using Suc(1) [OF ab(1) le] by blast
  have n: "reqs s n = None" using s(2) ab(1) by (metis domIff lessThan_iff less_irrefl)
  have "tally (holds r) (reqs s) < nat mx" using Suc(3,4) ab s(3,4) by (cases r) auto
  from serve_one [OF s(1) n assms this] obtain es' s' where
    s': "gate_run tokens mx (gate_init mx) es' s'" "reqs s' = (reqs s)(n \<mapsto> (r, Serving))" by blast
  have f: "finite (dom (reqs s))" using s(2) by simp
  have "tally P (reqs s') = (if P (r, Serving) then Suc (tally P (reqs s)) else tally P (reqs s))" for P
    unfolding s'(2) by (rule tally_new [OF f n])
  moreover have "dom (reqs s') = {..<a + b}" using s(2) s'(2) ab(1) Suc(2) by auto
  ultimately show ?case using s s'(1) ab Suc(2)
    by (intro exI [of _ es'] exI [of _ s']) (auto simp: holds_def executing_def counted_def split: if_splits)
qed

text \<open>C31: A defect: the limit on simultaneous executions is per route. Since each of the two routes has a channel of its
  own, an authorized caller can have twice the configured number of executions in progress at once; that is also
  the most there can ever be.\<close>
theorem concurrency_limit_doubled:
  assumes "0 < mx" and "authorized tokens got"
  shows "(\<exists>es s. gate_run tokens mx (gate_init mx) es s \<and> tally executing (reqs s) = 2 * nat mx) \<and>
    (\<nexists>es s. gate_run tokens mx (gate_init mx) es s \<and> 2 * nat mx < tally executing (reqs s))"
proof
  from serve_many [OF assms(2,1) order_refl order_refl]
  obtain es s where "gate_run tokens mx (gate_init mx) es s" "tally executing (reqs s) = nat mx + nat mx" by blast
  then show "\<exists>es s. gate_run tokens mx (gate_init mx) es s \<and> tally executing (reqs s) = 2 * nat mx"
    unfolding mult_2 by blast
  show "\<nexists>es s. gate_run tokens mx (gate_init mx) es s \<and> 2 * nat mx < tally executing (reqs s)"
    using executing_bound [OF gate_inv_run [OF _ refl] assms(1)] by (meson leD)
qed

theorem concurrency_limit_doubled_witness:
  "\<exists>es s. gate_run [''k''] 8 (gate_init 8) es s \<and> tally executing (reqs s) = 16"
proof -
  have "authorized [''k''] ''k''" by (simp add: authorized_def)
  from concurrency_limit_doubled [THEN conjunct1, OF _ this, of 8] show ?thesis by (simp del: split_paired_Ex)
qed

text \<open>One slot: the first request takes it, the second one is turned away.\<close>

definition demo_gate :: gate_state where
  "demo_gate = (gate_init 1)\<lparr>slotsOf := (\<lambda>_. make_chan 1)(RunRoute := \<lparr>capacity = 1, held = 1\<rparr>),
     reqs := [1 \<mapsto> (RunRoute, Holding)]\<rparr>"

lemma demo_gate_run: "gate_run [''k''] 1 (gate_init 1) [Taken 1 RunRoute ''k''] demo_gate"
  by (rule gate_run_Cons [OF _ gate_run.idle])
    (simp add: gate_step_simps demo_gate_def gate_init_def make_chan_def try_send_def authorized_def)

theorem gate_accounting_witness:
  "held (slotsOf demo_gate RunRoute) = 1 \<and> tally (holds RunRoute) (reqs demo_gate) = 1 \<and>
   tally counted (reqs demo_gate) = 0 \<and>
   (\<exists>s'. gate_step [''k''] 1 demo_gate (Full 2 RunRoute ''k'') s')"
proof -
  have h: "held (slotsOf demo_gate RunRoute) = 1" by (simp add: demo_gate_def)
  have c: "tally counted (reqs demo_gate) = 0"
    by (simp add: demo_gate_def tally_new counted_def)
  have "gate_step [''k''] 1 demo_gate (Full 2 RunRoute ''k'')
      (demo_gate\<lparr>reqs := (reqs demo_gate)(2 \<mapsto> (RunRoute, Refused))\<rparr>)"
    by (simp add: gate_step_simps demo_gate_def try_send_def authorized_def)
  moreover have "tally (holds RunRoute) (reqs demo_gate) = 1"
    using gate_accounting [OF demo_gate_run zero_less_one, of RunRoute] h by metis
  ultimately show ?thesis using h c by blast
qed

theorem gate_never_blocks_witness:
  "\<exists>fs s'. gate_run [''k''] 1 demo_gate fs s' \<and> length fs \<le> 3 \<and> reqs s' = Map.empty \<and> held (slotsOf s' RunRoute) = 0"
proof -
  have "card (dom (reqs demo_gate)) = 1" "reqs demo_gate 2 = None" by (simp_all add: demo_gate_def)
  with gate_never_blocks [OF demo_gate_run, of 2 RunRoute "''k''"] show ?thesis by (metis mult.right_neutral)
qed

text \<open>The one request in flight takes its three remaining steps.\<close>

theorem gate_terminates_witness:
  "\<exists>s'. gate_run [''k''] 1 demo_gate [Counted 1, Given 1, Uncounted 1] s' \<and> reqs s' = Map.empty \<and>
     3 \<le> 3 * card (dom (reqs demo_gate)) \<and> held (slotsOf s' RunRoute) = 0"
proof -
  let ?g2 = "demo_gate\<lparr>gmetrics := IncInflight (gmetrics demo_gate), reqs := [1 \<mapsto> (RunRoute, Serving)]\<rparr>"
  let ?g3 = "?g2\<lparr>slotsOf := \<lambda>_. make_chan 1, reqs := [1 \<mapsto> (RunRoute, Returned)]\<rparr>"
  let ?g4 = "?g3\<lparr>gmetrics := DecInflight (gmetrics ?g3), reqs := Map.empty\<rparr>"
  have "gate_step [''k''] 1 demo_gate (Counted 1) ?g2" "gate_step [''k''] 1 ?g2 (Given 1) ?g3"
    "gate_step [''k''] 1 ?g3 (Uncounted 1) ?g4"
    by (simp_all add: gate_step_simps demo_gate_def make_chan_def receive_def fun_eq_iff)
  then have r: "gate_run [''k''] 1 demo_gate [Counted 1, Given 1, Uncounted 1] ?g4"
    by (meson gate_run_Cons gate_run.idle)
  have "gate_step [''k''] 1 ?g4 e t \<longrightarrow> arrives e" for e t by (cases e) (simp_all add: gate_step_simps)
  with gate_terminates [OF demo_gate_run r, of RunRoute] r show ?thesis by auto
qed

end
