(* ===== verification/Config.thy ===== *)
theory Config
  imports GoStrings GoStrconv
begin

text \<open>
  \<^verbatim>\<open>internal/config/config.go\<close>: the configuration, read from the environment once, at startup. The
  environment is a function from names to values, as \<open>os.Getenv\<close> presents it: an unset variable is the empty
  string. The numbers are Go's 64-bit \<open>int\<close>; a sum or product of them that the source computes is wrapped.
\<close>

type_synonym environ = "bytes \<Rightarrow> bytes"

record Config =
  cfAddr :: bytes
  cfServiceToken :: bytes
  cfServiceTokens :: "bytes list"
  cfDevelopment :: bool
  cfSandboxPolicy :: bytes
  cfNetworkPolicy :: bytes
  cfCgroupPolicy :: bytes
  cfCgroupMount :: bytes
  cfMaxProcesses :: int
  cfMaxFileSizeMB :: int
  cfMaxConcurrentRuns :: int
  cfMetricsToken :: bytes
  cfMetricsTokens :: "bytes list"
  cfReadyRequiresNsjail :: bool
  cfDefaultTimeoutMs :: int
  cfMaxTimeoutMs :: int
  cfDefaultMemoryMB :: int
  cfMaxMemoryMB :: int
  cfMaxSourceBytes :: int
  cfMaxStdinBytes :: int
  cfMaxOutputBytes :: int
  cfDefaultTestTimeoutMs :: int
  cfMaxTestTimeoutMs :: int
  cfMaxTestReportBytes :: int
  cfMaxTraceReportBytes :: int
  cfMaxTraceSteps :: int
  cfMaxFiles :: int
  cfMaxFileBytes :: int
  cfMaxFilesBytes :: int
  cfMaxPathBytes :: int
  cfMaxPathDepth :: int
  cfMaxBatch :: int
  cfMaxBatchTotalMs :: int
  cfMaxBatchStdinBytes :: int
  cfCompileTimeoutMs :: int
  cfMaxCompileTimeoutMs :: int
  cfCompileMemoryMB :: int
  cfMaxArtifactBytes :: int
  cfShutdownGraceMs :: int
  cfStaticSeccomp :: bytes

definition minTokenBytes :: int where "minTokenBytes = 32"
definition maxTokens :: int where "maxTokens = 8"
definition shutdownGraceSlackMs :: int where "shutdownGraceSlackMs = 5000"

text \<open>Why \<open>Load\<close> refuses a configuration.\<close>

datatype config_error = TokenRequired | WeakTokens bytes

subsection \<open>Reading one variable\<close>

definition envInt :: "environ \<Rightarrow> bytes \<Rightarrow> int \<Rightarrow> int" where
  "envInt env key def =
     (let v = env key in
      if v \<noteq> [] then (case atoi v of Some n \<Rightarrow> (if n > 0 then n else def) | None \<Rightarrow> def)
      else def)"

definition port :: "environ \<Rightarrow> bytes" where
  "port env = (if env ''RUNNER_PORT'' \<noteq> [] then env ''RUNNER_PORT''
               else if env ''PORT'' \<noteq> [] then env ''PORT'' else ''8090'')"

definition cgroupPolicy :: "environ \<Rightarrow> bool \<Rightarrow> bytes" where
  "cgroupPolicy env development =
     (let policy = trim_space (env ''RUNNER_CGROUP'') in
      if policy = [] \<and> \<not> development then ''require'' else policy)"

definition cgroupMount :: "environ \<Rightarrow> bytes" where
  "cgroupMount env =
     (let m = trim_space (env ''RUNNER_CGROUP_MOUNT'') in if m \<noteq> [] then m else ''/sys/fs/cgroup/dalivim'')"

definition readyRequiresNsjail :: "environ \<Rightarrow> bool" where
  "readyRequiresNsjail env =
     (let v = to_lower (trim_space (env ''RUNNER_READY_REQUIRES'')) in
      if v = ''none'' \<or> v = ''off'' \<or> v = ''any'' then False else True)"

definition token_sep :: "char \<Rightarrow> bool" where
  "token_sep r \<longleftrightarrow> r = CHR '','' \<or> r = CHR '' '' \<or> r = CHR 0x09 \<or> r = CHR 0x0A"

text \<open>The two nested loops of \<open>tokenSet\<close> run over the fields of the sources in order; \<open>return\<close> leaves both.\<close>

fun collect_tokens :: "bytes list \<Rightarrow> bytes list \<Rightarrow> bytes list" where
  "collect_tokens out [] = out"
| "collect_tokens out (tok # toks) =
     (if tok = [] then collect_tokens out toks
      else if tok \<in> set out then collect_tokens out toks
      else (let out1 = out @ [tok] in if len out1 = maxTokens then out1 else collect_tokens out1 toks))"

definition tokenSet :: "bytes list \<Rightarrow> bytes list" where
  "tokenSet sources = collect_tokens [] (concat (map (fields_by token_sep []) sources))"

fun requireStrongTokens :: "bytes \<Rightarrow> bytes list \<Rightarrow> config_error + unit" where
  "requireStrongTokens name [] = Inr ()"
| "requireStrongTokens name (token # tokens) =
     (if len token < minTokenBytes then Inl (WeakTokens name) else requireStrongTokens name tokens)"

definition shutdownGraceMs :: "environ \<Rightarrow> int \<Rightarrow> int \<Rightarrow> int \<Rightarrow> int \<Rightarrow> int" where
  "shutdownGraceMs env maxCompileMs maxRunMs maxBatchTotalMs maxTestMs =
     (let worst0 = i64 (maxCompileMs + maxRunMs);
          batchWorst = i64 (maxBatchTotalMs + maxRunMs);
          worst1 = (if batchWorst > worst0 then batchWorst else worst0);
          worst = (if maxTestMs > worst1 then maxTestMs else worst1);
          floor_ms = i64 (worst + shutdownGraceSlackMs);
          v = envInt env ''RUNNER_SHUTDOWN_GRACE_MS'' floor_ms
      in if v > floor_ms then v else floor_ms)"

subsection \<open>Load\<close>

definition is_development :: "environ \<Rightarrow> bool" where
  "is_development env \<longleftrightarrow> equal_fold (trim_space (env ''RUNNER_ENV'')) ''development''"

text \<open>The composite literal of \<open>Load\<close>, and \<open>Load\<close> itself, which completes and checks it.\<close>

definition config_literal :: "environ \<Rightarrow> bytes list \<Rightarrow> bytes \<Rightarrow> bool \<Rightarrow> Config" where
  "config_literal env serviceTokens primary development =
   \<lparr>cfAddr = '':'' @ port env, cfServiceToken = primary, cfServiceTokens = serviceTokens,
    cfDevelopment = development, cfSandboxPolicy = env ''RUNNER_SANDBOX'',
    cfNetworkPolicy = env ''RUNNER_NETWORK_ISOLATION'', cfCgroupPolicy = cgroupPolicy env development,
    cfCgroupMount = cgroupMount env,
    cfMaxProcesses = envInt env ''RUNNER_MAX_PROCESSES'' 256,
    cfMaxFileSizeMB = envInt env ''RUNNER_MAX_FILE_SIZE_MB'' 64,
    cfMaxConcurrentRuns = envInt env ''RUNNER_MAX_CONCURRENT_RUNS'' 8,
    cfMetricsToken = env ''RUNNER_METRICS_TOKEN'',
    cfMetricsTokens = tokenSet [env ''RUNNER_METRICS_TOKEN'', env ''RUNNER_METRICS_TOKENS''],
    cfReadyRequiresNsjail = readyRequiresNsjail env,
    cfDefaultTimeoutMs = envInt env ''RUNNER_DEFAULT_TIMEOUT_MS'' 3000,
    cfMaxTimeoutMs = envInt env ''RUNNER_MAX_TIMEOUT_MS'' 10000,
    cfDefaultMemoryMB = envInt env ''RUNNER_DEFAULT_MEMORY_MB'' 128,
    cfMaxMemoryMB = envInt env ''RUNNER_MAX_MEMORY_MB'' 512,
    cfMaxSourceBytes = envInt env ''RUNNER_MAX_SOURCE_BYTES'' 200000,
    cfMaxStdinBytes = envInt env ''RUNNER_MAX_STDIN_BYTES'' 1000000,
    cfMaxOutputBytes = envInt env ''RUNNER_MAX_OUTPUT_BYTES'' (64 * 1024),
    cfDefaultTestTimeoutMs = envInt env ''RUNNER_TEST_TIMEOUT_MS'' 15000,
    cfMaxTestTimeoutMs = envInt env ''RUNNER_MAX_TEST_TIMEOUT_MS'' 30000,
    cfMaxTestReportBytes = envInt env ''RUNNER_MAX_TEST_REPORT_BYTES'' 4000000,
    cfMaxTraceReportBytes = envInt env ''RUNNER_MAX_TRACE_REPORT_BYTES'' 2000000,
    cfMaxTraceSteps = envInt env ''RUNNER_MAX_TRACE_STEPS'' 2500,
    cfMaxFiles = envInt env ''RUNNER_MAX_FILES'' 50,
    cfMaxFileBytes = envInt env ''RUNNER_MAX_FILE_BYTES'' 262144,
    cfMaxFilesBytes = envInt env ''RUNNER_MAX_FILES_BYTES'' 1048576,
    cfMaxPathBytes = envInt env ''RUNNER_MAX_PATH_BYTES'' 180,
    cfMaxPathDepth = envInt env ''RUNNER_MAX_PATH_DEPTH'' 8,
    cfMaxBatch = envInt env ''RUNNER_MAX_BATCH'' 100,
    cfMaxBatchTotalMs = envInt env ''RUNNER_MAX_BATCH_TOTAL_MS'' 60000,
    cfMaxBatchStdinBytes = envInt env ''RUNNER_MAX_BATCH_STDIN_BYTES'' 4000000,
    cfCompileTimeoutMs = envInt env ''RUNNER_COMPILE_TIMEOUT_MS'' 10000,
    cfMaxCompileTimeoutMs = envInt env ''RUNNER_MAX_COMPILE_TIMEOUT_MS'' 20000,
    cfCompileMemoryMB = envInt env ''RUNNER_COMPILE_MEMORY_MB'' 512,
    cfMaxArtifactBytes = i64 (i64 (envInt env ''RUNNER_MAX_ARTIFACT_MB'' 32 * 1024) * 1024),
    cfShutdownGraceMs = 0,
    cfStaticSeccomp = env ''RUNNER_STATIC_SECCOMP''\<rparr>"

definition Load :: "environ \<Rightarrow> config_error + Config" where
  "Load env =
     (let serviceTokens = tokenSet [env ''RUNNER_SERVICE_TOKEN'', env ''RUNNER_SERVICE_TOKENS''];
          development = is_development env;
          primary = (if length serviceTokens > 0 then serviceTokens ! 0 else []);
          cfg0 = config_literal env serviceTokens primary development;
          cfg = cfg0\<lparr>cfShutdownGraceMs :=
                  shutdownGraceMs env (cfMaxCompileTimeoutMs cfg0) (cfMaxTimeoutMs cfg0) (cfMaxBatchTotalMs cfg0)
                    (cfMaxTestTimeoutMs cfg0)\<rparr>
      in if length (cfServiceTokens cfg) = 0 \<and> \<not> cfDevelopment cfg then Inl TokenRequired
         else if \<not> cfDevelopment cfg
         then rbind (requireStrongTokens ''RUNNER_SERVICE_TOKEN(S)'' (cfServiceTokens cfg)) (\<lambda>_.
              rbind (requireStrongTokens ''RUNNER_METRICS_TOKEN(S)'' (cfMetricsTokens cfg)) (\<lambda>_. Inr cfg))
         else Inr cfg)"

subsection \<open>The token sets\<close>

text \<open>The first occurrences of a list's elements, in order.\<close>

fun firsts :: "'a list \<Rightarrow> 'a list" where
  "firsts [] = []"
| "firsts (x # xs) = x # filter (\<lambda>y. y \<noteq> x) (firsts xs)"

lemma firsts_props: "set (firsts xs) = set xs" "distinct (firsts xs)"
  by (induction xs) auto

lemma collect_tokens_firsts:
  assumes "length out < 8" and "[] \<notin> set toks"
  shows "collect_tokens out toks = take 8 (out @ filter (\<lambda>t. t \<notin> set out) (firsts toks))"
  using assms
proof (induction out toks rule: collect_tokens.induct)
  case (2 out tok toks)
  let ?rest = "filter (\<lambda>t. t \<notin> set (out @ [tok])) (firsts toks)"
  have nb: "tok \<noteq> []" "[] \<notin> set toks" using 2(5) by auto
  show ?case
  proof (cases "tok \<in> set out")
    case True
    then have "filter (\<lambda>t. t \<notin> set out) (firsts (tok # toks)) = filter (\<lambda>t. t \<notin> set out) (firsts toks)"
      by (auto intro: filter_cong)
    with 2(2) 2(4) nb True show ?thesis by simp
  next
    case False
    then have f: "filter (\<lambda>t. t \<notin> set out) (firsts (tok # toks)) = tok # ?rest"
      by (auto intro: filter_cong)
    show ?thesis
    proof (cases "length out = 7")
      case True
      with f False nb show ?thesis by (simp add: maxTokens_def len_def)
    next
      case ne: False
      then have l: "len (out @ [tok]) \<noteq> maxTokens" "length (out @ [tok]) < 8"
        using 2(4) by (simp_all add: maxTokens_def len_def)
      from 2(3) [OF nb(1) False refl l(1) l(2) nb(2)]
      have "collect_tokens (out @ [tok]) toks = take 8 (out @ tok # ?rest)" by simp
      with l(1) f False nb show ?thesis by simp
    qed
  qed
qed simp

lemma token_fields: "w \<in> set (fields_by token_sep [] s) \<Longrightarrow> w \<noteq> [] \<and> (\<forall>c\<in>set w. \<not> token_sep c)"
  by (rule fields_by_props) simp_all

lemma tokenSet_firsts: "tokenSet sources = take 8 (firsts (concat (map (fields_by token_sep []) sources)))"
proof -
  have "[] \<notin> set (concat (map (fields_by token_sep []) sources))" using token_fields by fastforce
  then show ?thesis by (simp add: tokenSet_def collect_tokens_firsts)
qed

definition token_set_ok :: "bytes list \<Rightarrow> bool" where
  "token_set_ok ts \<longleftrightarrow> distinct ts \<and> length ts \<le> 8 \<and> list_all (\<lambda>t. t \<noteq> [] \<and> list_all (\<lambda>c. \<not> token_sep c) t) ts"

lemma tokenSet_ok: "token_set_ok (tokenSet sources)"
proof -
  have "t \<noteq> [] \<and> (\<forall>c\<in>set t. \<not> token_sep c)" if "t \<in> set (tokenSet sources)" for t
    using in_set_takeD [OF that [unfolded tokenSet_firsts]] token_fields by (auto simp: firsts_props)
  then show ?thesis by (auto simp: token_set_ok_def tokenSet_firsts firsts_props list_all_iff)
qed

subsection \<open>Fail-closed loading\<close>

definition strong :: "bytes list \<Rightarrow> bool" where
  "strong ts \<longleftrightarrow> list_all (\<lambda>t. 32 \<le> length t) ts"

lemma requireStrongTokens_iff: "requireStrongTokens name ts = (if strong ts then Inr () else Inl (WeakTokens name))"
  by (induction ts) (auto simp: strong_def minTokenBytes_def len_def)

lemma literal_fields:
  "cfServiceToken (config_literal env ts p d) = p"
  "cfServiceTokens (config_literal env ts p d) = ts"
  "cfDevelopment (config_literal env ts p d) = d"
  "cfSandboxPolicy (config_literal env ts p d) = env ''RUNNER_SANDBOX''"
  "cfNetworkPolicy (config_literal env ts p d) = env ''RUNNER_NETWORK_ISOLATION''"
  "cfCgroupPolicy (config_literal env ts p d) = cgroupPolicy env d"
  "cfCgroupMount (config_literal env ts p d) = cgroupMount env"
  "cfMaxProcesses (config_literal env ts p d) = envInt env ''RUNNER_MAX_PROCESSES'' 256"
  "cfMaxFileSizeMB (config_literal env ts p d) = envInt env ''RUNNER_MAX_FILE_SIZE_MB'' 64"
  "cfMaxConcurrentRuns (config_literal env ts p d) = envInt env ''RUNNER_MAX_CONCURRENT_RUNS'' 8"
  "cfMetricsTokens (config_literal env ts p d) = tokenSet [env ''RUNNER_METRICS_TOKEN'', env ''RUNNER_METRICS_TOKENS'']"
  "cfReadyRequiresNsjail (config_literal env ts p d) = readyRequiresNsjail env"
  "cfDefaultTimeoutMs (config_literal env ts p d) = envInt env ''RUNNER_DEFAULT_TIMEOUT_MS'' 3000"
  "cfMaxTimeoutMs (config_literal env ts p d) = envInt env ''RUNNER_MAX_TIMEOUT_MS'' 10000"
  "cfDefaultMemoryMB (config_literal env ts p d) = envInt env ''RUNNER_DEFAULT_MEMORY_MB'' 128"
  "cfMaxMemoryMB (config_literal env ts p d) = envInt env ''RUNNER_MAX_MEMORY_MB'' 512"
  "cfMaxSourceBytes (config_literal env ts p d) = envInt env ''RUNNER_MAX_SOURCE_BYTES'' 200000"
  "cfMaxStdinBytes (config_literal env ts p d) = envInt env ''RUNNER_MAX_STDIN_BYTES'' 1000000"
  "cfMaxOutputBytes (config_literal env ts p d) = envInt env ''RUNNER_MAX_OUTPUT_BYTES'' (64 * 1024)"
  "cfDefaultTestTimeoutMs (config_literal env ts p d) = envInt env ''RUNNER_TEST_TIMEOUT_MS'' 15000"
  "cfMaxTestTimeoutMs (config_literal env ts p d) = envInt env ''RUNNER_MAX_TEST_TIMEOUT_MS'' 30000"
  "cfMaxTestReportBytes (config_literal env ts p d) = envInt env ''RUNNER_MAX_TEST_REPORT_BYTES'' 4000000"
  "cfMaxTraceReportBytes (config_literal env ts p d) = envInt env ''RUNNER_MAX_TRACE_REPORT_BYTES'' 2000000"
  "cfMaxTraceSteps (config_literal env ts p d) = envInt env ''RUNNER_MAX_TRACE_STEPS'' 2500"
  "cfMaxFiles (config_literal env ts p d) = envInt env ''RUNNER_MAX_FILES'' 50"
  "cfMaxFileBytes (config_literal env ts p d) = envInt env ''RUNNER_MAX_FILE_BYTES'' 262144"
  "cfMaxFilesBytes (config_literal env ts p d) = envInt env ''RUNNER_MAX_FILES_BYTES'' 1048576"
  "cfMaxPathBytes (config_literal env ts p d) = envInt env ''RUNNER_MAX_PATH_BYTES'' 180"
  "cfMaxPathDepth (config_literal env ts p d) = envInt env ''RUNNER_MAX_PATH_DEPTH'' 8"
  "cfMaxBatch (config_literal env ts p d) = envInt env ''RUNNER_MAX_BATCH'' 100"
  "cfMaxBatchTotalMs (config_literal env ts p d) = envInt env ''RUNNER_MAX_BATCH_TOTAL_MS'' 60000"
  "cfMaxBatchStdinBytes (config_literal env ts p d) = envInt env ''RUNNER_MAX_BATCH_STDIN_BYTES'' 4000000"
  "cfCompileTimeoutMs (config_literal env ts p d) = envInt env ''RUNNER_COMPILE_TIMEOUT_MS'' 10000"
  "cfMaxCompileTimeoutMs (config_literal env ts p d) = envInt env ''RUNNER_MAX_COMPILE_TIMEOUT_MS'' 20000"
  "cfCompileMemoryMB (config_literal env ts p d) = envInt env ''RUNNER_COMPILE_MEMORY_MB'' 512"
  "cfMaxArtifactBytes (config_literal env ts p d) = i64 (i64 (envInt env ''RUNNER_MAX_ARTIFACT_MB'' 32 * 1024) * 1024)"
  "cfShutdownGraceMs (config_literal env ts p d) = 0"
  by (simp_all add: config_literal_def)

text \<open>The value \<open>Load\<close> returns when it accepts.\<close>

definition loaded :: "environ \<Rightarrow> Config" where
  "loaded env =
     (let ts = tokenSet [env ''RUNNER_SERVICE_TOKEN'', env ''RUNNER_SERVICE_TOKENS''];
          primary = (if length ts > 0 then ts ! 0 else []);
          lit = config_literal env ts primary (is_development env)
      in lit\<lparr>cfShutdownGraceMs := shutdownGraceMs env (cfMaxCompileTimeoutMs lit) (cfMaxTimeoutMs lit)
               (cfMaxBatchTotalMs lit) (cfMaxTestTimeoutMs lit)\<rparr>)"

lemma loaded_fields:
  "cfServiceTokens (loaded env) = tokenSet [env ''RUNNER_SERVICE_TOKEN'', env ''RUNNER_SERVICE_TOKENS'']"
  "cfMetricsTokens (loaded env) = tokenSet [env ''RUNNER_METRICS_TOKEN'', env ''RUNNER_METRICS_TOKENS'']"
  "cfDevelopment (loaded env) = is_development env"
  by (simp_all add: loaded_def literal_fields Let_def)

lemma Load_cases:
  "Load env =
     (if is_development env then Inr (loaded env)
      else if cfServiceTokens (loaded env) = [] then Inl TokenRequired
      else if \<not> strong (cfServiceTokens (loaded env)) then Inl (WeakTokens ''RUNNER_SERVICE_TOKEN(S)'')
      else if \<not> strong (cfMetricsTokens (loaded env)) then Inl (WeakTokens ''RUNNER_METRICS_TOKEN(S)'')
      else Inr (loaded env))"
proof -
  have "Load env =
     (let cfg = loaded env in
      if length (cfServiceTokens cfg) = 0 \<and> \<not> cfDevelopment cfg then Inl TokenRequired
      else if \<not> cfDevelopment cfg
      then rbind (requireStrongTokens ''RUNNER_SERVICE_TOKEN(S)'' (cfServiceTokens cfg)) (\<lambda>_.
           rbind (requireStrongTokens ''RUNNER_METRICS_TOKEN(S)'' (cfMetricsTokens cfg)) (\<lambda>_. Inr cfg))
      else Inr cfg)"
    unfolding Load_def loaded_def Let_def ..
  then show ?thesis by (simp add: Let_def loaded_fields(3) requireStrongTokens_iff)
qed

lemma Load_loaded: "Load env = Inr cfg \<Longrightarrow> cfg = loaded env"
  by (auto simp: Load_cases split: if_splits)

lemma Load_fields:
  assumes "Load env = Inr cfg"
  shows "cfServiceTokens cfg = tokenSet [env ''RUNNER_SERVICE_TOKEN'', env ''RUNNER_SERVICE_TOKENS'']"
    and "cfMetricsTokens cfg = tokenSet [env ''RUNNER_METRICS_TOKEN'', env ''RUNNER_METRICS_TOKENS'']"
    and "cfServiceToken cfg = (if cfServiceTokens cfg = [] then [] else hd (cfServiceTokens cfg))"
    and "cfDevelopment cfg = is_development env"
    and "cfCgroupPolicy cfg = cgroupPolicy env (is_development env)"
    and "cfSandboxPolicy cfg = env ''RUNNER_SANDBOX''" "cfNetworkPolicy cfg = env ''RUNNER_NETWORK_ISOLATION''"
    and "cfCgroupMount cfg = cgroupMount env" "cfReadyRequiresNsjail cfg = readyRequiresNsjail env"
    and "cfShutdownGraceMs cfg = shutdownGraceMs env (cfMaxCompileTimeoutMs cfg) (cfMaxTimeoutMs cfg)
           (cfMaxBatchTotalMs cfg) (cfMaxTestTimeoutMs cfg)"
  unfolding Load_loaded [OF assms] by (simp_all add: loaded_def literal_fields Let_def hd_conv_nth)

text \<open>The knobs that are plain positive integers.\<close>

definition int_knobs :: "Config \<Rightarrow> int list" where
  "int_knobs c =
     [cfMaxProcesses c, cfMaxFileSizeMB c, cfMaxConcurrentRuns c, cfDefaultTimeoutMs c,
      cfMaxTimeoutMs c, cfDefaultMemoryMB c, cfMaxMemoryMB c, cfMaxSourceBytes c, cfMaxStdinBytes c,
      cfMaxOutputBytes c, cfDefaultTestTimeoutMs c, cfMaxTestTimeoutMs c, cfMaxTestReportBytes c,
      cfMaxTraceReportBytes c, cfMaxTraceSteps c, cfMaxFiles c, cfMaxFileBytes c, cfMaxFilesBytes c,
      cfMaxPathBytes c, cfMaxPathDepth c, cfMaxBatch c, cfMaxBatchTotalMs c, cfMaxBatchStdinBytes c,
      cfCompileTimeoutMs c, cfMaxCompileTimeoutMs c, cfCompileMemoryMB c]"

lemma envInt_exact:
  "envInt env k d = (case atoi (env k) of Some n \<Rightarrow> if 0 < n then n else d | None \<Rightarrow> d)"
  by (simp add: envInt_def atoi_def Let_def)

lemma envInt_pos [simp]: "0 < d \<Longrightarrow> 0 < envInt env k d"
  by (auto simp: envInt_exact split: option.splits)

lemma envInt_fits: "0 < d \<Longrightarrow> d < 2 ^ 31 \<Longrightarrow> fits64 (envInt env k d)"
  using fits64_small [of d] by (auto simp: envInt_exact atoi_fits split: option.splits)

lemma Load_positive: "Load env = Inr cfg \<Longrightarrow> list_all (\<lambda>n. 0 < n \<and> fits64 n) (int_knobs cfg)"
  by (drule Load_loaded) (simp add: loaded_def Let_def int_knobs_def literal_fields envInt_fits)

text \<open>C14: Loading fails closed. Outside development a configuration is accepted exactly if the two service variables
  hold at least one token and no service or metrics token is shorter than 32 bytes. An accepted configuration, whatever the
  mode, has the first eight different tokens of its variables, in order, none of them empty or holding a
  separator, and the first one is the primary; and outside development an omitted accounting policy is \<open>require\<close>, never
  a silent fallback.\<close>
theorem load_fails_closed:
  "((\<exists>cfg. Load env = Inr cfg) \<longleftrightarrow>
      is_development env \<or>
      (let ts = tokenSet [env ''RUNNER_SERVICE_TOKEN'', env ''RUNNER_SERVICE_TOKENS''];
           ms = tokenSet [env ''RUNNER_METRICS_TOKEN'', env ''RUNNER_METRICS_TOKENS'']
       in ts \<noteq> [] \<and> strong ts \<and> strong ms)) \<and>
   (case Load env of
      Inl e \<Rightarrow> e = TokenRequired \<longleftrightarrow> tokenSet [env ''RUNNER_SERVICE_TOKEN'', env ''RUNNER_SERVICE_TOKENS''] = []
    | Inr cfg \<Rightarrow>
        cfServiceTokens cfg = take 8 (firsts (fields_by token_sep [] (env ''RUNNER_SERVICE_TOKEN'') @
                                              fields_by token_sep [] (env ''RUNNER_SERVICE_TOKENS''))) \<and>
        token_set_ok (cfServiceTokens cfg) \<and> token_set_ok (cfMetricsTokens cfg) \<and>
        cfServiceToken cfg = (if cfServiceTokens cfg = [] then [] else hd (cfServiceTokens cfg)) \<and>
        cfDevelopment cfg = is_development env \<and>
        cfCgroupPolicy cfg = (if trim_space (env ''RUNNER_CGROUP'') \<noteq> [] then trim_space (env ''RUNNER_CGROUP'')
                              else if is_development env then [] else ''require''))"
proof
  show "(\<exists>cfg. Load env = Inr cfg) \<longleftrightarrow>
      is_development env \<or>
      (let ts = tokenSet [env ''RUNNER_SERVICE_TOKEN'', env ''RUNNER_SERVICE_TOKENS''];
           ms = tokenSet [env ''RUNNER_METRICS_TOKEN'', env ''RUNNER_METRICS_TOKENS'']
       in ts \<noteq> [] \<and> strong ts \<and> strong ms)"
    unfolding Load_cases Let_def by (simp add: loaded_fields)
  show "case Load env of
      Inl e \<Rightarrow> e = TokenRequired \<longleftrightarrow> tokenSet [env ''RUNNER_SERVICE_TOKEN'', env ''RUNNER_SERVICE_TOKENS''] = []
    | Inr cfg \<Rightarrow>
        cfServiceTokens cfg = take 8 (firsts (fields_by token_sep [] (env ''RUNNER_SERVICE_TOKEN'') @
                                              fields_by token_sep [] (env ''RUNNER_SERVICE_TOKENS''))) \<and>
        token_set_ok (cfServiceTokens cfg) \<and> token_set_ok (cfMetricsTokens cfg) \<and>
        cfServiceToken cfg = (if cfServiceTokens cfg = [] then [] else hd (cfServiceTokens cfg)) \<and>
        cfDevelopment cfg = is_development env \<and>
        cfCgroupPolicy cfg = (if trim_space (env ''RUNNER_CGROUP'') \<noteq> [] then trim_space (env ''RUNNER_CGROUP'')
                              else if is_development env then [] else ''require'')"
  proof (cases "Load env")
    case (Inl e)
    then show ?thesis unfolding Load_cases by (auto simp: loaded_fields split: if_splits)
  next
    case (Inr cfg)
    have "token_set_ok (cfServiceTokens cfg)" "token_set_ok (cfMetricsTokens cfg)"
      by (simp_all add: Load_fields [OF Inr] tokenSet_ok)
    with Load_fields(1,3,4,5) [OF Inr] show ?thesis unfolding Inr sum.case
      by (simp add: tokenSet_firsts cgroupPolicy_def Let_def)
  qed
qed

subsection \<open>The drain window\<close>

text \<open>
  The ceilings are small enough that the sums of \<open>shutdownGraceMs\<close> do not wrap, and the drain window that its
  conversion to nanoseconds does not.
\<close>

definition ceilings_sane :: "Config \<Rightarrow> bool" where
  "ceilings_sane c \<longleftrightarrow>
     list_all (\<lambda>n. n < 2 ^ 60) [cfMaxCompileTimeoutMs c, cfMaxTimeoutMs c, cfMaxBatchTotalMs c, cfMaxTestTimeoutMs c] \<and>
     cfShutdownGraceMs c < 2 ^ 43"

lemma shutdownGraceMs_exact:
  assumes "0 < c" "0 < r" "0 < b" "0 < t" "c < 2 ^ 60" "r < 2 ^ 60" "b < 2 ^ 60" "t < 2 ^ 60"
  defines "f \<equiv> max (max (c + r) (b + r)) t + 5000"
  shows "shutdownGraceMs env c r b t =
    max f (case atoi (env ''RUNNER_SHUTDOWN_GRACE_MS'') of Some n \<Rightarrow> n | None \<Rightarrow> f)"
proof -
  have fit: "fits64 (c + r)" "fits64 (b + r)" "fits64 f" using assms by (auto simp: fits64_def)
  have m: "(if t > (if b + r > c + r then b + r else c + r) then t else (if b + r > c + r then b + r else c + r)) =
      max (max (c + r) (b + r)) t" by auto
  have "shutdownGraceMs env c r b t =
      (let v = envInt env ''RUNNER_SHUTDOWN_GRACE_MS'' f in if v > f then v else f)"
    unfolding shutdownGraceMs_def Let_def shutdownGraceSlackMs_def i64_id [OF fit(1)] i64_id [OF fit(2)] m
      f_def [symmetric] i64_id [OF fit(3)] ..
  moreover have "0 < f" using assms by (auto simp: f_def)
  ultimately show ?thesis by (auto simp: envInt_exact Let_def max_def split: option.splits)
qed

lemma Load_grace:
  assumes "Load env = Inr cfg" and "ceilings_sane cfg"
  shows "cfMaxCompileTimeoutMs cfg + cfMaxTimeoutMs cfg + 5000 \<le> cfShutdownGraceMs cfg"
    and "cfMaxBatchTotalMs cfg + cfMaxTimeoutMs cfg + 5000 \<le> cfShutdownGraceMs cfg"
    and "cfMaxTestTimeoutMs cfg + 5000 \<le> cfShutdownGraceMs cfg"
    and "0 < cfShutdownGraceMs cfg"
proof -
  have p: "0 < cfMaxCompileTimeoutMs cfg" "0 < cfMaxTimeoutMs cfg" "0 < cfMaxBatchTotalMs cfg" "0 < cfMaxTestTimeoutMs cfg"
    using Load_positive [OF assms(1)] by (simp_all add: int_knobs_def)
  have g: "max (max (cfMaxCompileTimeoutMs cfg + cfMaxTimeoutMs cfg) (cfMaxBatchTotalMs cfg + cfMaxTimeoutMs cfg))
      (cfMaxTestTimeoutMs cfg) + 5000 \<le> cfShutdownGraceMs cfg"
    using shutdownGraceMs_exact [OF p] assms(2) by (simp add: Load_fields(10) [OF assms(1)] ceilings_sane_def)
  with p show "cfMaxCompileTimeoutMs cfg + cfMaxTimeoutMs cfg + 5000 \<le> cfShutdownGraceMs cfg"
    "cfMaxBatchTotalMs cfg + cfMaxTimeoutMs cfg + 5000 \<le> cfShutdownGraceMs cfg"
    "cfMaxTestTimeoutMs cfg + 5000 \<le> cfShutdownGraceMs cfg" "0 < cfShutdownGraceMs cfg" by linarith+
qed

end
