(* ===== verification/Handlers.thy ===== *)
theory Handlers
  imports Gate Exposition Service
begin

text \<open>
  \<^verbatim>\<open>internal/transport/httpapi/handlers.go\<close> and \<^verbatim>\<open>languages.go\<close>: what one request does from its arrival at a
  handler to its response. The JSON decoder is a parameter: it maps the part of the body that the bounded
  reader lets through to the request it decodes, or to nothing. The random source of a minted request
  identifier is a parameter too. A log line has no effect and is not modelled.
\<close>

record 'w http_env =
  hostOf :: "'w host"
  json_decode :: "bytes \<Rightarrow> RunRequest option"
  rand_read :: "'w \<Rightarrow> bytes option \<times> 'w"
  format_sum :: "int list \<Rightarrow> bytes"

record 'w handler =
  hSvc :: svc
  hMaxSourceBytes :: int
  hMaxStdinBytes :: int
  hMaxFilesBytes :: int
  hMaxBatch :: int
  hMaxBatchStdinBytes :: int
  hBackend :: bytes
  hNetworkIsolated :: bool
  hMemoryAccounting :: bytes
  hReadyRequiresNsjail :: bool
  hContainmentReady :: "('w world \<Rightarrow> bool) option"

text \<open>The state a request finds: the outside world with the sandbox, and the metrics registry.\<close>

record 'w server =
  wld :: "'w world"
  met :: Metrics

record limitsInfo =
  liDefaultTimeoutMs :: int
  liMaxTimeoutMs :: int
  liDefaultMemoryMB :: int
  liMaxMemoryMB :: int
  liMaxOutputBytes :: int
  liDefaultCompileTimeoutMs :: int
  liMaxCompileTimeoutMs :: int
  liMaxSourceBytes :: int
  liMaxStdinBytes :: int
  liMaxFiles :: int
  liMaxFileBytes :: int
  liMaxFilesBytes :: int
  liMaxBatch :: int
  liMaxBatchStdinBytes :: int

record languagesResponse =
  lrLanguages :: "LanguageInfo list"
  lrLimits :: limitsInfo

record readiness =
  rdReady :: bool
  rdBackend :: bytes
  rdNetworkIsolated :: bool
  rdContainmentReady :: bool
  rdMemoryAccounting :: bytes

text \<open>
  The bodies: the JSON of a result, the text of a rejected submission (known by its code), and the payloads of
  the read-only routes.
\<close>

datatype body =
  RunJson RunResult
| BatchJson BatchResult
| RejectedMsg bytes
| ReadyJson readiness
| LanguagesJson languagesResponse

type_synonym 'w http_handle = "(body, 'w server) handle"

subsection \<open>Request identifiers\<close>

definition newRequestID :: "'w http_env \<Rightarrow> 'w server \<Rightarrow> bytes \<times> 'w server" where
  "newRequestID env s =
     (case rand_read env (Ext (wld s)) of (b, e) \<Rightarrow>
        let s1 = s\<lparr>wld := (wld s)\<lparr>Ext := e\<rparr>\<rparr> in
        (case b of None \<Rightarrow> (''req-unknown'', s1) | Some bs \<Rightarrow> (concat (map hex2 bs), s1)))"

definition ensureRequestID :: "'w http_env \<Rightarrow> http_request \<Rightarrow> 'w server \<Rightarrow> bytes \<times> headers \<times> 'w server" where
  "ensureRequestID env r s =
     (let given = trim_space (rqHeader r ''X-Request-ID'');
          (i, s1) = (if given = [] \<or> len given > 200 then newRequestID env s else (given, s))
      in (i, [''X-Request-ID'' \<mapsto> i], s1))"

subsection \<open>Decoding\<close>

definition body_limit :: "'w handler \<Rightarrow> int" where
  "body_limit h =
     (let bodyCap = (if hMaxFilesBytes h > hMaxSourceBytes h then hMaxFilesBytes h else hMaxSourceBytes h);
          stdinCap = (if hMaxBatchStdinBytes h > hMaxStdinBytes h then hMaxBatchStdinBytes h else hMaxStdinBytes h)
      in i64 (i64 (bodyCap + stdinCap) + 64 * 1024))"

fun b64_decode_all :: "bytes list \<Rightarrow> bytes list option" where
  "b64_decode_all [] = Some []"
| "b64_decode_all (x # xs) = obind (b64_decode x) (\<lambda>d. obind (b64_decode_all xs) (\<lambda>ds. Some (d # ds)))"

definition decode_streams :: "RunRequest \<Rightarrow> bytes + RunRequest" where
  "decode_streams req =
     (let enc = to_lower (trim_space (Encoding req)) in
      if enc = [] \<or> enc = ''utf8'' then Inr req
      else if enc = ''base64'' then
        (case b64_decode (Stdin req) of
           None \<Rightarrow> Inl ''invalid base64 in stdin''
         | Some dec \<Rightarrow>
             (case b64_decode_all (Stdins req) of
                None \<Rightarrow> Inl ''invalid base64 in stdins''
              | Some decs \<Rightarrow> Inr (req\<lparr>Stdin := dec, Stdins := decs\<rparr>)))
      else Inl ''unsupported encoding (use \"utf8\" or \"base64\")'')"

text \<open>The loop over \<open>req.Stdins\<close>: the summed length, or nothing when an element is too large.\<close>

fun stdin_total :: "int \<Rightarrow> int \<Rightarrow> bytes list \<Rightarrow> int option" where
  "stdin_total mx tot [] = Some tot"
| "stdin_total mx tot (x # xs) =
     (if mx > 0 \<and> len x > mx then None else stdin_total mx (i64 (tot + len x)) xs)"

definition check_sizes :: "'w handler \<Rightarrow> RunRequest \<Rightarrow> bytes + RunRequest" where
  "check_sizes h req =
     (if len (SourceCode req) > hMaxSourceBytes h then Inl ''source_code too large''
      else if hMaxStdinBytes h > 0 \<and> len (Stdin req) > hMaxStdinBytes h then Inl ''stdin too large''
      else if len (Stdins req) > 0 then
        (if hMaxBatch h > 0 \<and> len (Stdins req) > hMaxBatch h then Inl ''too many stdins''
         else (case stdin_total (hMaxStdinBytes h) 0 (Stdins req) of
                 None \<Rightarrow> Inl ''stdin element too large''
               | Some tot \<Rightarrow>
                   if hMaxBatchStdinBytes h > 0 \<and> tot > hMaxBatchStdinBytes h
                   then Inl ''batch stdin total too large''
                   else Inr req))
      else Inr req)"

definition h_decode :: "'w http_env \<Rightarrow> 'w handler \<Rightarrow> http_request \<Rightarrow> bytes + RunRequest" where
  "h_decode env h r =
     (case json_decode env (take (nat (body_limit h)) (rqBody r)) of
        None \<Rightarrow> Inl ''invalid json''
      | Some req \<Rightarrow> rbind (decode_streams req) (check_sizes h))"

subsection \<open>Executing\<close>

definition encode_response :: "headers \<Rightarrow> bytes \<Rightarrow> body \<Rightarrow> body response" where
  "encode_response hs status b =
     (let hs1 = hs(''Content-Type'' \<mapsto> ''application/json'') in
      if status = StatusInternalError
      then \<lparr>rsCode = 503, rsHeader = hs1(''Retry-After'' \<mapsto> ''1''), rsBody = Payload b\<rparr>
      else \<lparr>rsCode = 200, rsHeader = hs1, rsBody = Payload b\<rparr>)"

text \<open>The error ladder shared by the two entries; the third rung, for any other error, is unreachable.\<close>

definition reject :: "headers \<Rightarrow> run_error \<Rightarrow> body response" where
  "reject hs e =
     (case e of
        ErrUnsupportedLanguage \<Rightarrow> http_Error hs ''unsupported language'' 400
      | ValidationError code \<Rightarrow> (http_Error hs [] 400)\<lparr>rsBody := Payload (RejectedMsg code)\<rparr>)"

text \<open>The loop over the results of a batch: the shared compile time goes with the first one.\<close>

fun observe_results :: "bytes \<Rightarrow> int \<Rightarrow> RunResult list \<Rightarrow> Metrics \<Rightarrow> Metrics" where
  "observe_results lang compileMs [] m = m"
| "observe_results lang compileMs (r # rs) m =
     observe_results lang 0 rs (ObserveRun lang (Status r) (DurationMs r) compileMs m)"

definition executeBatch ::
  "'w http_env \<Rightarrow> 'w handler \<Rightarrow> RunRequest \<Rightarrow> headers \<Rightarrow> 'w server \<Rightarrow> body response \<times> 'w server" where
  "executeBatch env h req hs s =
     (case sv_RunBatch (hostOf env) (hSvc h) req (wld s) of (out, w1) \<Rightarrow>
        let s1 = s\<lparr>wld := w1\<rparr> in
        (case out of
           Inl e \<Rightarrow> (reject hs e, s1)
         | Inr res \<Rightarrow>
             (let lang = (if BatchRuntimeName res = [] then Language req else BatchRuntimeName res);
                  m1 = (if length (Results res) = 0
                        then ObserveRun lang (BatchStatus res) 0 (BatchCompileMs res) (met s1) else met s1);
                  m2 = observe_results lang (BatchCompileMs res) (Results res) m1
              in (encode_response hs (BatchStatus res) (BatchJson res), s1\<lparr>met := m2\<rparr>))))"

definition execute ::
  "'w http_env \<Rightarrow> 'w handler \<Rightarrow> RunRequest \<Rightarrow> headers \<Rightarrow> 'w server \<Rightarrow> body response \<times> 'w server" where
  "execute env h req hs s =
     (if len (Stdins req) > 0 then executeBatch env h req hs s
      else
        (case sv_Run (hostOf env) (hSvc h) req (wld s) of (out, w1) \<Rightarrow>
           let s1 = s\<lparr>wld := w1\<rparr> in
           (case out of
              Inl e \<Rightarrow> (reject hs e, s1)
            | Inr res \<Rightarrow>
                (let lang = (if RuntimeName res = [] then Language req else RuntimeName res);
                     m1 = ObserveRun lang (Status res) (DurationMs res) (CompileMs res) (met s1)
                 in (encode_response hs (Status res) (RunJson res), s1\<lparr>met := m1\<rparr>)))))"

definition h_run :: "'w http_env \<Rightarrow> 'w handler \<Rightarrow> 'w http_handle" where
  "h_run env h r s =
     (case ensureRequestID env r s of (reqID, hs, s1) \<Rightarrow>
        (case h_decode env h r of
           Inl msg \<Rightarrow> (http_Error hs msg 400, s1)
         | Inr req \<Rightarrow>
             if Language req = [] then (http_Error hs ''language is required'' 400, s1)
             else execute env h req hs s1))"

definition h_runPythonCompat :: "'w http_env \<Rightarrow> 'w handler \<Rightarrow> 'w http_handle" where
  "h_runPythonCompat env h r s =
     (case ensureRequestID env r s of (reqID, hs, s1) \<Rightarrow>
        (case h_decode env h r of
           Inl msg \<Rightarrow> (http_Error hs msg 400, s1)
         | Inr req \<Rightarrow> execute env h (req\<lparr>Language := ''python''\<rparr>) hs s1))"

subsection \<open>Read-only routes\<close>

definition h_health :: "'w http_handle" where
  "h_health r s = (\<lparr>rsCode = 200, rsHeader = Map.empty, rsBody = Text ''ok''\<rparr>, s)"

definition h_ready :: "'w handler \<Rightarrow> 'w http_handle" where
  "h_ready h r s =
     (let containmentOK = (case hContainmentReady h of None \<Rightarrow> True | Some f \<Rightarrow> f (wld s));
          ok = ((\<not> hReadyRequiresNsjail h \<or> hBackend h = ''nsjail'') \<and> containmentOK)
      in (\<lparr>rsCode = (if \<not> ok then 503 else 200), rsHeader = [''Content-Type'' \<mapsto> ''application/json''],
           rsBody = Payload (ReadyJson
             \<lparr>rdReady = ok, rdBackend = hBackend h, rdNetworkIsolated = hNetworkIsolated h,
              rdContainmentReady = containmentOK, rdMemoryAccounting = hMemoryAccounting h\<rparr>)\<rparr>, s))"

definition h_serveMetrics :: "'w http_env \<Rightarrow> 'w http_handle" where
  "h_serveMetrics env r s =
     (\<lparr>rsCode = 200, rsHeader = [''Content-Type'' \<mapsto> ''text/plain; version=0.0.4; charset=utf-8''],
       rsBody = Text (Render (format_sum env) (met s))\<rparr>, s)"

definition h_limits :: "'w handler \<Rightarrow> limitsInfo" where
  "h_limits h =
     (let lim = svLimits (hSvc h) in
      \<lparr>liDefaultTimeoutMs = DefaultTimeout lim, liMaxTimeoutMs = MaxTimeoutMs lim,
       liDefaultMemoryMB = DefaultMemory lim, liMaxMemoryMB = MaxMemoryMB lim,
       liMaxOutputBytes = MaxOutputBytes lim, liDefaultCompileTimeoutMs = DefaultCompileTimeout lim,
       liMaxCompileTimeoutMs = MaxCompileTimeoutMs lim, liMaxSourceBytes = hMaxSourceBytes h,
       liMaxStdinBytes = hMaxStdinBytes h, liMaxFiles = CapMaxFiles (FileLimits lim),
       liMaxFileBytes = CapMaxFileBytes (FileLimits lim), liMaxFilesBytes = hMaxFilesBytes h,
       liMaxBatch = hMaxBatch h, liMaxBatchStdinBytes = hMaxBatchStdinBytes h\<rparr>)"

definition h_languages :: "'w handler \<Rightarrow> 'w http_handle" where
  "h_languages h r s =
     (\<lparr>rsCode = 200, rsHeader = [''Content-Type'' \<mapsto> ''application/json''],
       rsBody = Payload (LanguagesJson \<lparr>lrLanguages = Catalog (hSvc h), lrLimits = h_limits h\<rparr>)\<rparr>, s)"

subsection \<open>What is decoded\<close>

lemma b64_decode_all_iff: "b64_decode_all xs = Some ys \<longleftrightarrow> map b64_decode xs = map Some ys"
proof (induction xs arbitrary: ys)
  case (Cons x xs)
  have "b64_decode_all (x # xs) = Some ys \<longleftrightarrow>
      (\<exists>d ds. b64_decode x = Some d \<and> b64_decode_all xs = Some ds \<and> ys = d # ds)"
    by (auto simp: obind_def split: option.splits)
  also have "\<dots> \<longleftrightarrow> map b64_decode (x # xs) = map Some ys" unfolding Cons.IH by (cases ys) auto
  finally show ?case .
qed auto

text \<open>How the two input streams of an accepted body are read.\<close>

definition stream_reader :: "bytes \<Rightarrow> (bytes \<Rightarrow> bytes option) option" where
  "stream_reader encoding =
     (let enc = to_lower (trim_space encoding) in
      if enc \<in> {[], ''utf8''} then Some Some else if enc = ''base64'' then Some b64_decode else None)"

lemma streams_replaced:
  "(\<exists>d ds. P d \<and> Q ds \<and> req = raw\<lparr>Stdin := d, Stdins := ds\<rparr>) \<longleftrightarrow>
     P (Stdin req) \<and> Q (Stdins req) \<and> req = raw\<lparr>Stdin := Stdin req, Stdins := Stdins req\<rparr>"
  (is "?L \<longleftrightarrow> ?R")
proof
  assume ?L
  then show ?R by clarsimp
next
  assume ?R
  then show ?L by blast
qed

lemma decode_streams_iff:
  "decode_streams raw = Inr req \<longleftrightarrow>
     (\<exists>f. stream_reader (Encoding raw) = Some f \<and> f (Stdin raw) = Some (Stdin req) \<and>
        map f (Stdins raw) = map Some (Stdins req) \<and> req = raw\<lparr>Stdin := Stdin req, Stdins := Stdins req\<rparr>)"
proof -
  have "decode_streams raw = Inr req \<longleftrightarrow>
      (\<exists>f. stream_reader (Encoding raw) = Some f \<and>
        (\<exists>d ds. f (Stdin raw) = Some d \<and> map f (Stdins raw) = map Some ds \<and> req = raw\<lparr>Stdin := d, Stdins := ds\<rparr>))"
  proof -
    consider (utf8) "to_lower (trim_space (Encoding raw)) \<in> {[], ''utf8''}"
      | (base64) "to_lower (trim_space (Encoding raw)) = ''base64''"
      | (other) "to_lower (trim_space (Encoding raw)) \<notin> {[], ''utf8'', ''base64''}" by blast
    then show ?thesis
    proof cases
      case utf8
      have "raw\<lparr>Stdin := Stdin raw, Stdins := Stdins raw\<rparr> = raw" by (cases raw) simp
      with utf8 show ?thesis by (auto simp: decode_streams_def stream_reader_def Let_def)
    next
      case base64
      then show ?thesis
        by (auto simp: decode_streams_def stream_reader_def Let_def b64_decode_all_iff [symmetric] split: option.splits)
    next
      case other
      then show ?thesis by (simp add: decode_streams_def stream_reader_def Let_def)
    qed
  qed
  then show ?thesis unfolding streams_replaced .
qed

lemma stdin_total_iff:
  assumes "0 \<le> n" and "n + sum_list (map len xs) < 2 ^ 63"
  shows "stdin_total mx n xs =
    (if list_all (\<lambda>x. mx \<le> 0 \<or> len x \<le> mx) xs then Some (n + sum_list (map len xs)) else None)"
  using assms
proof (induction xs arbitrary: n)
  case (Cons x xs)
  have nn: "0 \<le> sum_list (map len xs)" by (rule sum_list_nonneg) auto
  have p: "0 \<le> n + len x" using Cons.prems(1) by simp
  have "\<bar>n + len x\<bar> < 2 ^ 63" using p nn Cons.prems(2) by simp
  then have "fits64 (n + len x)" by (rule fits64_small)
  with p show ?case using Cons.IH [of "n + len x"] Cons.prems(2) by (auto simp: not_le add.assoc)
qed simp

text \<open>The size caps of a request; a cap on inputs that is not positive is no cap.\<close>

definition within_caps :: "'w handler \<Rightarrow> RunRequest \<Rightarrow> bool" where
  "within_caps h req \<longleftrightarrow>
     len (SourceCode req) \<le> hMaxSourceBytes h \<and>
     list_all (\<lambda>x. hMaxStdinBytes h \<le> 0 \<or> len x \<le> hMaxStdinBytes h) (Stdin req # Stdins req) \<and>
     (hMaxBatch h \<le> 0 \<or> len (Stdins req) \<le> hMaxBatch h) \<and>
     (hMaxBatchStdinBytes h \<le> 0 \<or> sum_list (map len (Stdins req)) \<le> hMaxBatchStdinBytes h)"

text \<open>The inputs of a request that fitted in memory: their summed length is a 64-bit number.\<close>

definition in_memory :: "RunRequest \<Rightarrow> bool" where
  "in_memory req \<longleftrightarrow> sum_list (map len (Stdins req)) < 2 ^ 63"

lemma check_sizes_same: "check_sizes h req = Inr r \<Longrightarrow> r = req"
  by (auto simp: check_sizes_def split: if_splits option.splits)

lemma check_sizes_iff:
  assumes "in_memory req"
  shows "check_sizes h req = Inr r \<longleftrightarrow> r = req \<and> within_caps h req"
proof (cases "Stdins req")
  case Nil
  then show ?thesis by (auto simp: check_sizes_def within_caps_def)
next
  case (Cons x xs)
  have "stdin_total (hMaxStdinBytes h) 0 (Stdins req) =
     (if list_all (\<lambda>x. hMaxStdinBytes h \<le> 0 \<or> len x \<le> hMaxStdinBytes h) (Stdins req)
      then Some (sum_list (map len (Stdins req))) else None)"
    using stdin_total_iff [of 0 "Stdins req"] assms by (simp add: in_memory_def)
  moreover have "Stdins req \<noteq> []" using Cons by simp
  ultimately show ?thesis by (auto simp: check_sizes_def within_caps_def not_less not_le)
qed

text \<open>C18: What the transport lets through. A body is accepted exactly if the JSON decoder makes a request of the part
  that the reader's limit lets through, its encoding is one of the closed set (the default, utf8 or base64,
  in any case and surrounded by any white space), every input stream decodes under it, and the decoded request
  is within the size caps: source, each input, their number and their sum. The accepted request is the one that
  was sent with its input streams decoded, and nothing else of it changed.\<close>
theorem decode_exact:
  assumes "in_memory req"
  shows "h_decode env h r = Inr req \<longleftrightarrow>
    (\<exists>raw f. json_decode env (take (nat (body_limit h)) (rqBody r)) = Some raw \<and>
       stream_reader (Encoding raw) = Some f \<and> f (Stdin raw) = Some (Stdin req) \<and>
       map f (Stdins raw) = map Some (Stdins req) \<and> req = raw\<lparr>Stdin := Stdin req, Stdins := Stdins req\<rparr> \<and>
       within_caps h req)"
proof (cases "json_decode env (take (nat (body_limit h)) (rqBody r))")
  case (Some raw)
  have "rbind (decode_streams raw) (check_sizes h) = Inr req \<longleftrightarrow> decode_streams raw = Inr req \<and> within_caps h req"
    using check_sizes_iff [OF assms, of h req] check_sizes_same by fastforce
  with Some show ?thesis by (auto simp: h_decode_def decode_streams_iff)
qed (simp add: h_decode_def)

subsection \<open>What is answered and observed\<close>

definition admissible :: "svc \<Rightarrow> RunRequest \<Rightarrow> bool" where
  "admissible s req \<longleftrightarrow> (if Stdins req = [] then run_admissible s req else batch_admissible s req)"

fun body_status :: "body \<Rightarrow> bytes option" where
  "body_status (RunJson res) = Some (Status res)"
| "body_status (BatchJson b) = Some (BatchStatus b)"
| "body_status _ = None"

text \<open>The observations an answered request leaves in the metrics.\<close>

fun observations :: "bytes \<Rightarrow> body \<Rightarrow> metric_op list" where
  "observations lang (RunJson res) = [Observe lang (Status res) (DurationMs res) (CompileMs res)]"
| "observations lang (BatchJson b) =
     (if Results b = [] then [Observe lang (BatchStatus b) 0 (BatchCompileMs b)]
      else map2 (\<lambda>res c. Observe lang (Status res) (DurationMs res) c) (Results b)
             (BatchCompileMs b # replicate (length (Results b) - 1) 0))"
| "observations lang _ = []"

lemma observe_results_fold:
  "observe_results lang c rs m =
     fold apply_op (map2 (\<lambda>res c. Observe lang (Status res) (DurationMs res) c) rs (c # replicate (length rs - 1) 0)) m"
proof (induction rs arbitrary: c m)
  case (Cons x xs)
  then show ?case by (cases xs) simp_all
qed simp

text \<open>
  The labels of an observation: its language, and a status. A batch cut off before its first input has no result and
  the status \<open>ok\<close>, which is not one of a run's, and is counted under it.
\<close>

fun labelled :: "bytes \<Rightarrow> metric_op \<Rightarrow> bool" where
  "labelled l (Observe l' st d c) \<longleftrightarrow> l' = l \<and> st \<in> insert BatchStatusOK all_statuses"
| "labelled l _ \<longleftrightarrow> False"

lemma observations_labelled:
  "Status res \<in> all_statuses \<Longrightarrow> list_all (labelled l) (observations l (RunJson res))"
  "list_all (\<lambda>res. Status res \<in> all_statuses) (Results b) \<Longrightarrow> BatchStatus b \<in> insert BatchStatusOK all_statuses \<Longrightarrow>
     list_all (labelled l) (observations l (BatchJson b))"
  by (auto simp: list_all_iff dest!: set_zip_leftD)

text \<open>The answer to a request the service executed: what its outcome is, and the failover headers.\<close>

definition answers :: "bytes \<Rightarrow> headers \<Rightarrow> Metrics \<Rightarrow> body response \<Rightarrow> Metrics \<Rightarrow> bool" where
  "answers lang hs m resp m' \<longleftrightarrow>
     (\<exists>b st. rsBody resp = Payload b \<and> body_status b = Some st \<and> st \<in> insert BatchStatusOK all_statuses \<and>
        rsCode resp = (if st = StatusInternalError then 503 else 200) \<and>
        rsHeader resp ''Retry-After'' = (if st = StatusInternalError then Some ''1'' else hs ''Retry-After'') \<and>
        rsHeader resp ''X-Request-ID'' = hs ''X-Request-ID'' \<and>
        observations lang b \<noteq> [] \<and> list_all (labelled lang) (observations lang b) \<and> m' = fold apply_op (observations lang b) m)"

lemma encode_response_simps [simp]:
  "rsBody (encode_response hs st b) = Payload b"
  "rsCode (encode_response hs st b) = (if st = StatusInternalError then 503 else 200)"
  "rsHeader (encode_response hs st b) ''X-Request-ID'' = hs ''X-Request-ID''"
  "rsHeader (encode_response hs st b) ''Retry-After'' = (if st = StatusInternalError then Some ''1'' else hs ''Retry-After'')"
  by (simp_all add: encode_response_def Let_def)

lemma reject_simps [simp]:
  "rsCode (reject hs e) = 400" "rsHeader (reject hs e) ''X-Request-ID'' = hs ''X-Request-ID''"
  "rsHeader (reject hs e) ''Retry-After'' = hs ''Retry-After''"
  by (cases e; simp add: reject_def http_Error_def)+

lemma execute_rejected:
  assumes "\<not> admissible (hSvc h) req"
  obtains e where "execute env h req hs s = (reject hs e, s)"
proof (cases "Stdins req = []")
  case True
  with assms have "isl (admit_run (hSvc h) req)" by (simp add: admit_run_ok admissible_def)
  then obtain e where "sv_Run (hostOf env) (hSvc h) req (wld s) = (Inl e, wld s)"
    by (cases "admit_run (hSvc h) req") (auto simp: sv_Run_def)
  with True show ?thesis by (intro that [of e]) (simp add: execute_def)
next
  case False
  with assms have "isl (admit_batch (hSvc h) req)" by (simp add: admit_batch_ok admissible_def)
  then obtain e where "sv_RunBatch (hostOf env) (hSvc h) req (wld s) = (Inl e, wld s)"
    by (cases "admit_batch (hSvc h) req") (auto simp: sv_RunBatch_def)
  with False show ?thesis by (intro that [of e]) (simp add: execute_def executeBatch_def)
qed

lemma execute_answered:
  assumes "admissible (hSvc h) req" and "hSvc h = NewService l rts" and "Language req \<noteq> []"
    and "execute env h req hs s = (resp, s')"
  shows "answers (Language req) hs (met s) resp (met s')"
proof (cases "Stdins req = []")
  case True
  with assms(1) have "\<not> isl (fst (sv_Run (hostOf env) (hSvc h) req (wld s)))"
    by (simp add: admissible_def sv_Run_admit admit_run_ok)
  then obtain res w1 where x: "sv_Run (hostOf env) (hSvc h) req (wld s) = (Inr res, w1)" by (metis isl_iff prod.collapse)
  from sv_Run_provenance [OF this [unfolded assms(2)]] have p: "Status res \<in> all_statuses" "RuntimeName res = Language req"
    by simp_all
  have "resp = encode_response hs (Status res) (RunJson res)"
    "met s' = fold apply_op (observations (Language req) (RunJson res)) (met s)"
    using x assms(3,4) True p(2) by (auto simp: execute_def Let_def)
  with p(1) show ?thesis
    unfolding answers_def using observations_labelled(1) [of res]
    by (intro exI [of _ "RunJson res"] exI [of _ "Status res"]) simp
next
  case False
  with assms(1) have "\<not> isl (fst (sv_RunBatch (hostOf env) (hSvc h) req (wld s)))"
    by (simp add: admissible_def sv_RunBatch_admit admit_batch_ok)
  then obtain b w1 where x: "sv_RunBatch (hostOf env) (hSvc h) req (wld s) = (Inr b, w1)" by (metis isl_iff prod.collapse)
  note f = sv_RunBatch_form [OF this [unfolded assms(2)]]
  then have p: "BatchRuntimeName b = Language req" by blast
  have st: "BatchStatus b \<in> insert BatchStatusOK all_statuses"
    using f status_in_all by (cases "BatchStatus b = BatchStatusOK") auto
  let ?m1 = "if Results b = [] then ObserveRun (Language req) (BatchStatus b) 0 (BatchCompileMs b) (met s) else met s"
  have m: "observe_results (Language req) (BatchCompileMs b) (Results b) ?m1 =
      fold apply_op (observations (Language req) (BatchJson b)) (met s)"
    by (auto simp: observe_results_fold)
  have ne: "observations (Language req) (BatchJson b) \<noteq> []" by (cases "Results b") auto
  have "resp = encode_response hs (BatchStatus b) (BatchJson b)"
    "met s' = fold apply_op (observations (Language req) (BatchJson b)) (met s)"
    using x assms(3,4) False p m by (auto simp: execute_def executeBatch_def Let_def simp del: observations.simps)
  with st ne show ?thesis
    unfolding answers_def using observations_labelled(2) [of b] f
    by (intro exI [of _ "BatchJson b"] exI [of _ "BatchStatus b"]) (simp del: observations.simps)
qed

text \<open>The identifier that rides on every response.\<close>

definition random_ok :: "'w http_env \<Rightarrow> bool" where
  "random_ok env \<longleftrightarrow> (\<forall>w b w'. rand_read env w = (Some b, w') \<longrightarrow> length b = 16)"

lemma ensureRequestID_keeps:
  assumes "ensureRequestID env r s = (i, hs, s1)"
  shows "hs = [''X-Request-ID'' \<mapsto> i]" "met s1 = met s" "Launched (wld s1) = Launched (wld s)" "Sb (wld s1) = Sb (wld s)"
    and "trim_space (rqHeader r ''X-Request-ID'') \<noteq> [] \<Longrightarrow> length (trim_space (rqHeader r ''X-Request-ID'')) \<le> 200 \<Longrightarrow>
      i = trim_space (rqHeader r ''X-Request-ID'')"
    and "random_ok env \<Longrightarrow> i \<noteq> [] \<and> length i \<le> 200"
proof -
  have hex: "length (concat (map hex2 b)) = 2 * length b" for b
    by (induction b) (simp_all add: hex2_def Let_def)
  have n: "met s2 = met s \<and> Launched (wld s2) = Launched (wld s) \<and> Sb (wld s2) = Sb (wld s) \<and>
      (random_ok env \<longrightarrow> j \<noteq> [] \<and> length j \<le> 200)" if "newRequestID env s = (j, s2)" for j s2
  proof (cases "rand_read env (Ext (wld s))")
    case (Pair b e)
    show ?thesis
    proof (cases b)
      case None
      with that Pair show ?thesis by (auto simp: newRequestID_def Let_def)
    next
      case (Some bs)
      then have "j = concat (map hex2 bs)" "s2 = s\<lparr>wld := (wld s)\<lparr>Ext := e\<rparr>\<rparr>"
        using that Pair by (auto simp: newRequestID_def Let_def)
      moreover have "random_ok env \<Longrightarrow> length bs = 16" using Pair Some by (auto simp: random_ok_def)
      ultimately show ?thesis using hex [of bs] by fastforce
    qed
  qed
  show "hs = [''X-Request-ID'' \<mapsto> i]" "met s1 = met s" "Launched (wld s1) = Launched (wld s)" "Sb (wld s1) = Sb (wld s)"
    "trim_space (rqHeader r ''X-Request-ID'') \<noteq> [] \<Longrightarrow> length (trim_space (rqHeader r ''X-Request-ID'')) \<le> 200 \<Longrightarrow>
      i = trim_space (rqHeader r ''X-Request-ID'')"
    "random_ok env \<Longrightarrow> i \<noteq> [] \<and> length i \<le> 200"
    using assms n by (auto simp: ensureRequestID_def Let_def len_def split: if_splits prod.splits)
qed

text \<open>What \<open>h_run\<close> promises: \<open>turned_away\<close> is a request that is a client error and had no effect.\<close>

definition turned_away :: "'w server \<Rightarrow> body response \<Rightarrow> 'w server \<Rightarrow> bool" where
  "turned_away s resp s' \<longleftrightarrow>
     rsCode resp = 400 \<and> rsHeader resp ''Retry-After'' = None \<and> met s' = met s \<and>
     Launched (wld s') = Launched (wld s) \<and> Sb (wld s') = Sb (wld s)"

definition run_contract :: "svc \<Rightarrow> bytes + RunRequest \<Rightarrow> headers \<Rightarrow> 'w server \<Rightarrow> body response \<Rightarrow> 'w server \<Rightarrow> bool" where
  "run_contract service decoded hs s resp s' \<longleftrightarrow>
     (case decoded of
        Inl msg \<Rightarrow> turned_away s resp s' \<and> rsBody resp = Text (msg @ [CHR 0x0A])
      | Inr req \<Rightarrow>
          if Language req = [] \<or> \<not> admissible service req then turned_away s resp s'
          else answers (Language req) hs (met s) resp (met s'))"

lemma execute_contract:
  assumes "execute env h req hs s1 = (resp, s')" and "hSvc h = NewService l rts" and "Language req \<noteq> []"
    and "hs = [''X-Request-ID'' \<mapsto> i]" "met s1 = met s" "Launched (wld s1) = Launched (wld s)" "Sb (wld s1) = Sb (wld s)"
  shows "run_contract (hSvc h) (Inr req) hs s resp s' \<and> rsHeader resp ''X-Request-ID'' = Some i"
proof (cases "admissible (hSvc h) req")
  case False
  from execute_rejected [OF this, of env hs s1] obtain err where "execute env h req hs s1 = (reject hs err, s1)" .
  with assms False show ?thesis by (auto simp: run_contract_def turned_away_def)
next
  case True
  from execute_answered [OF True assms(2,3,1)] assms(5)
  have "answers (Language req) hs (met s) resp (met s')" by simp
  with True assms(3,4) show ?thesis by (auto simp: run_contract_def answers_def)
qed

lemma h_run_contract:
  assumes "h_run env h r s = (resp, s')" and "hSvc h = NewService l rts" and "ensureRequestID env r s = (i, hs, s1)"
  shows "run_contract (hSvc h) (h_decode env h r) hs s resp s' \<and> rsHeader resp ''X-Request-ID'' = Some i"
proof -
  note k = ensureRequestID_keeps(1-4) [OF assms(3)]
  have away: "turned_away s (http_Error hs msg 400) s1 \<and> rsHeader (http_Error hs msg 400) ''X-Request-ID'' = Some i" for msg
    using k by (simp add: turned_away_def)
  consider (bad) msg where "h_decode env h r = Inl msg"
    | (nolang) req where "h_decode env h r = Inr req" "Language req = []"
    | (ok) req where "h_decode env h r = Inr req" "Language req \<noteq> []" by (cases "h_decode env h r") auto
  then show ?thesis
  proof cases
    case bad
    with assms away show ?thesis by (auto simp: h_run_def run_contract_def)
  next
    case nolang
    with assms away show ?thesis by (auto simp: h_run_def run_contract_def)
  next
    case ok
    with assms have "execute env h req hs s1 = (resp, s')" by (simp add: h_run_def)
    from execute_contract [OF this assms(2) ok(2) k] ok(1) show ?thesis by simp
  qed
qed


subsection \<open>A batch that never started\<close>

lemma ok_not_a_run_status: "BatchStatusOK \<notin> all_statuses"
  by (simp add: all_statuses_def BatchStatusOK_def StatusSuccess_def StatusRuntimeError_def StatusTimeout_def
      StatusMemoryExceeded_def StatusCompileError_def StatusInternalError_def StatusOutputLimitExceeded_def
      StatusTestsFailed_def)

text \<open>
  A batch cut off before its first input, because the compilation used up its budget or the caller has gone, is
  answered 200 with no result; and although no program was run a run is counted, under \<open>ok\<close>, which is not a status of a run.
\<close>

theorem aborted_batch_counted:
  assumes "execute env h req hs s = (resp, s')" and "sv_RunBatch (hostOf env) (hSvc h) req (wld s) = (Inr b, w1)"
    and "hSvc h = NewService l rts" and "Language req \<noteq> []" and "Results b = []" "BatchStatus b = BatchStatusOK"
  shows "rsCode resp = 200 \<and> Aborted b \<and> BatchStatusOK \<notin> all_statuses \<and>
    Mapping.lookup_default 0 (runsTotal (met s')) (Language req, BatchStatusOK) =
      Mapping.lookup_default 0 (runsTotal (met s)) (Language req, BatchStatusOK) + 1"
proof -
  note f = sv_RunBatch_form [OF assms(2) [unfolded assms(3)]]
  then have q: "Stdins req \<noteq> []" "BatchRuntimeName b = Language req" by simp_all
  have "BatchStatusOK \<noteq> StatusInternalError" using ok_not_a_run_status by (auto simp: status_simps)
  with assms q have "resp = encode_response hs BatchStatusOK (BatchJson b)" "rsCode resp = 200"
    "met s' = ObserveRun (Language req) BatchStatusOK 0 (BatchCompileMs b) (met s)"
    by (auto simp: execute_def executeBatch_def Let_def)
  moreover have "Aborted b" using f assms(5,6) q(1) by simp
  ultimately show ?thesis using ok_not_a_run_status by simp
qed

subsection \<open>The deprecated alias\<close>

lemma decode_streams_language:
  "decode_streams (req\<lparr>Language := l\<rparr>) = map_sum id (\<lambda>q. q\<lparr>Language := l\<rparr>) (decode_streams req)"
  by (simp add: decode_streams_def Let_def split: option.splits)

lemma check_sizes_language:
  "check_sizes h (req\<lparr>Language := l\<rparr>) = map_sum id (\<lambda>q. q\<lparr>Language := l\<rparr>) (check_sizes h req)"
  by (simp add: check_sizes_def split: option.splits)

lemma rbind_map_sum: "rbind (map_sum id f x) g = rbind x (\<lambda>y. g (f y))"
  by (cases x) simp_all

lemma map_sum_rbind: "map_sum id f (rbind x g) = rbind x (\<lambda>y. map_sum id f (g y))"
  by (cases x) simp_all

text \<open>A client that always names the language: its decoder yields the same request with \<open>python\<close> in it.\<close>

definition naming_python :: "'w http_env \<Rightarrow> 'w http_env" where
  "naming_python env = env\<lparr>json_decode := (\<lambda>b. map_option (\<lambda>q. q\<lparr>Language := ''python''\<rparr>) (json_decode env b))\<rparr>"

lemma h_decode_naming_python:
  "h_decode (naming_python env) h r = map_sum id (\<lambda>q. q\<lparr>Language := ''python''\<rparr>) (h_decode env h r)"
  by (simp add: h_decode_def naming_python_def decode_streams_language check_sizes_language rbind_map_sum map_sum_rbind
      split: option.splits)

text \<open>The deprecated alias. \<^verbatim>\<open>POST /run/python\<close> does, for every request, exactly what \<^verbatim>\<open>POST /run\<close> does for the same
  request naming Python as its language: the same checks in the same order, the same execution, the same
  response, headers and metrics. Whatever language the body itself names is ignored.\<close>
theorem python_alias:
  "h_runPythonCompat env h r s = h_run (naming_python env) h r s"
proof -
  have "newRequestID (naming_python env) s = newRequestID env s"
    by (simp add: newRequestID_def naming_python_def)
  then have id: "ensureRequestID (naming_python env) r s = ensureRequestID env r s"
    by (simp only: ensureRequestID_def)
  have ex: "execute (naming_python env) h req hs s1 = execute env h req hs s1" for req hs s1
    by (simp add: execute_def executeBatch_def naming_python_def)
  show ?thesis
    by (cases "h_decode env h r") (simp_all add: h_run_def h_runPythonCompat_def id ex h_decode_naming_python)
qed

subsection \<open>Examples\<close>

definition demo_env :: "int http_env" where
  "demo_env = \<lparr>hostOf = demo_host, json_decode = (\<lambda>b. if b = ''{}'' then Some demo_request else None),
     rand_read = (\<lambda>w. (Some (replicate 16 CHR 0x2A), w)), format_sum = (\<lambda>ts. FormatSeconds (sum_list ts))\<rparr>"

definition demo_handler :: "int handler" where
  "demo_handler = \<lparr>hSvc = demo_service, hMaxSourceBytes = 200000, hMaxStdinBytes = 1000000, hMaxFilesBytes = 1048576,
     hMaxBatch = 100, hMaxBatchStdinBytes = 4000000, hBackend = ''nsjail'', hNetworkIsolated = True,
     hMemoryAccounting = ''rlimit-only'', hReadyRequiresNsjail = True, hContainmentReady = Some (\<lambda>w. Ready (Sb w))\<rparr>"

definition demo_http :: "http_request" where
  "demo_http = \<lparr>rqMethod = ''POST'', rqPath = ''/run'', rqHeader = (\<lambda>_. []), rqBody = ''{}''\<rparr>"

definition demo_server :: "int server" where
  "demo_server = \<lparr>wld = demo_world, met = newMetrics\<rparr>"

lemma demo_body_limit: "body_limit demo_handler = 5114112"
  by (simp add: body_limit_def demo_handler_def fits64_def)

theorem decode_exact_witness:
  "h_decode demo_env demo_handler demo_http = Inr demo_request"
proof -
  have "in_memory demo_request" by (simp add: in_memory_def demo_request_def zero_request_def)
  moreover have "stream_reader [] = Some Some" by (simp add: stream_reader_def trim_space_id)
  moreover have "within_caps demo_handler demo_request"
    by (simp add: within_caps_def demo_handler_def demo_request_def zero_request_def)
  ultimately show ?thesis
    using decode_exact [of demo_request demo_env demo_handler demo_http]
    by (auto simp: demo_body_limit, simp add: demo_env_def demo_http_def demo_request_def zero_request_def)
qed


text \<open>A caller that has gone before its Python batch starts.\<close>

definition gone_env :: "int http_env" where
  "gone_env = demo_env\<lparr>hostOf := demo_host\<lparr>ctx_done := \<lambda>_. True\<rparr>\<rparr>"

lemma gone_batch:
  assumes "Files c = []" and "Stdins c \<noteq> []"
  shows "Results (fst (ir_RunBatch (hostOf gone_env) demo_python c 60000 demo_world)) = [] \<and>
    BatchStatus (fst (ir_RunBatch (hostOf gone_env) demo_python c 60000 demo_world)) = BatchStatusOK"
  using assms
  by (cases "Stdins c")
    (simp_all add: ir_RunBatch_def ir_prepare_def demo_run_defs pythonSpec_def gone_env_def demo_env_def MkdirTemp_def
      WriteFile_def write_file_def fresh_dir_def clock_def gone_def over_budget_def ms_ns_def fits64_def Let_def)

theorem aborted_batch_counted_witness:
  "\<exists>resp s'. execute gone_env demo_handler batch_request Map.empty demo_server = (resp, s') \<and> rsCode resp = 200 \<and>
     Mapping.lookup_default 0 (runsTotal (met s')) (''python'', BatchStatusOK) = 1"
proof -
  have "batch_admissible demo_service batch_request"
    using demo_service_lookup(1)
    by (simp add: batch_admissible_def keys_dom_lookup domIff batch_request_def demo_request_def zero_request_def
        submission_ok_def)
  then obtain rt c where a: "admit_batch demo_service batch_request = Inr (rt, c)"
    by (metis admit_batch_ok isl_iff prod.collapse)
  have l: "Language batch_request = ''python''" "SourceCode batch_request \<noteq> []" "Files batch_request = []"
    "Stdins batch_request \<noteq> []"
    by (simp_all add: batch_request_def demo_request_def zero_request_def)
  with a demo_service_lookup have rt: "rt = RInterpreted demo_python" and c: "Files c = []" "Stdins c \<noteq> []"
    by (auto simp: admit_batch_iff normalize_iff)
  obtain b w1 where b: "sv_RunBatch (hostOf gone_env) (hSvc demo_handler) batch_request (wld demo_server) = (Inr b, w1)"
    "Results b = []" "BatchStatus b = BatchStatusOK"
    using gone_batch [OF c] a rt demo_service_lookup(3)
    by (auto simp: sv_RunBatch_def demo_handler_def demo_server_def demo_limits_def Let_def split_beta)
  have v: "hSvc demo_handler = NewService demo_limits [RInterpreted demo_python, RCompiled demo_c]"
    by (simp add: demo_handler_def demo_service_def)
  obtain resp s' where e: "execute gone_env demo_handler batch_request Map.empty demo_server = (resp, s')" by fastforce
  have "met demo_server = newMetrics" by (simp add: demo_server_def)
  with aborted_batch_counted [OF e b(1) v _ b(2,3)] e l(1) show ?thesis by (simp add: lookup_default_empty)
qed

end
