(* ===== verification/Server.thy ===== *)
theory Server
  imports Handlers
begin

text \<open>
  \<^verbatim>\<open>internal/transport/httpapi/server.go\<close>: the routes and what stands before each of them, and the life of the
  server. \<open>serve\<close> is one request through the router, seen from that request: the slots it finds taken
  are an argument, because other requests hold them (how they come and go is \<open>Gate\<close>'s step relation).
\<close>

record 'w http_config =
  hcAddr :: bytes
  hcToken :: bytes
  hcTokens :: "bytes list"
  hcMaxSourceBytes :: int
  hcMaxStdinBytes :: int
  hcMaxFilesBytes :: int
  hcMaxConcurrentRuns :: int
  hcMaxBatch :: int
  hcMaxBatchStdinBytes :: int
  hcMetricsToken :: bytes
  hcMetricsTokens :: "bytes list"
  hcShutdownGrace :: int
  hcBackend :: bytes
  hcNetworkIsolated :: bool
  hcMemoryAccounting :: bytes
  hcReadyRequiresNsjail :: bool
  hcContainmentReady :: "('w world \<Rightarrow> bool) option"

text \<open>A built server: its address, its handler, the two token sets, the limit and the drain window in nanoseconds.\<close>

record 'w srv =
  svAddr :: bytes
  svHandler :: "'w handler"
  svServiceTokens :: "bytes list"
  svMetricsTokens :: "bytes list"
  svMaxRuns :: int
  svShutdownGrace :: int

definition defaultShutdownGrace :: int where
  "defaultShutdownGrace = 15 * 1000000000"

definition new_handler :: "svc \<Rightarrow> 'w http_config \<Rightarrow> 'w handler" where
  "new_handler sv cfg =
     \<lparr>hSvc = sv, hMaxSourceBytes = hcMaxSourceBytes cfg, hMaxStdinBytes = hcMaxStdinBytes cfg,
      hMaxFilesBytes = hcMaxFilesBytes cfg, hMaxBatch = hcMaxBatch cfg,
      hMaxBatchStdinBytes = hcMaxBatchStdinBytes cfg, hBackend = hcBackend cfg,
      hNetworkIsolated = hcNetworkIsolated cfg, hMemoryAccounting = hcMemoryAccounting cfg,
      hReadyRequiresNsjail = hcReadyRequiresNsjail cfg, hContainmentReady = hcContainmentReady cfg\<rparr>"

definition New :: "svc \<Rightarrow> 'w http_config \<Rightarrow> 'w srv" where
  "New sv cfg =
     (let serviceTokens = unionTokens (hcToken cfg) (hcTokens cfg);
          metricsTokens = metrics_tokens (hcMetricsToken cfg) (hcMetricsTokens cfg) serviceTokens;
          grace = (if hcShutdownGrace cfg \<le> 0 then defaultShutdownGrace else hcShutdownGrace cfg)
      in \<lparr>svAddr = hcAddr cfg, svHandler = new_handler sv cfg, svServiceTokens = serviceTokens,
          svMetricsTokens = metricsTokens, svMaxRuns = hcMaxConcurrentRuns cfg, svShutdownGrace = grace\<rparr>)"

subsection \<open>One request\<close>

text \<open>The limiter as one request meets it; \<open>c\<close> is its route's channel at that moment.\<close>

definition LimitConcurrency :: "int \<Rightarrow> chan \<Rightarrow> 'w http_handle \<Rightarrow> 'w http_handle" where
  "LimitConcurrency mx c next_h r s =
     (if mx \<le> 0 then next_h r s
      else (case try_send c of
              Some _ \<Rightarrow>
                (case next_h r (s\<lparr>met := IncInflight (met s)\<rparr>) of
                   (resp, s1) \<Rightarrow> (resp, s1\<lparr>met := DecInflight (met s1)\<rparr>))
            | None \<Rightarrow>
                (http_Error [''Retry-After'' \<mapsto> ''1''] ''runner at capacity'' 503, s\<lparr>met := Overload (met s)\<rparr>)))"

definition gate :: "'w srv \<Rightarrow> chan \<Rightarrow> 'w http_handle \<Rightarrow> 'w http_handle" where
  "gate sv c next_h = RequireTokens (svServiceTokens sv) (LimitConcurrency (svMaxRuns sv) c next_h)"

definition run_route :: "bytes \<Rightarrow> route option" where
  "run_route p = (if p = ''/run'' then Some RunRoute else if p = ''/run/python'' then Some PythonRoute else None)"

definition run_handler :: "'w http_env \<Rightarrow> 'w handler \<Rightarrow> route \<Rightarrow> 'w http_handle" where
  "run_handler env h rt = (case rt of RunRoute \<Rightarrow> h_run env h | PythonRoute \<Rightarrow> h_runPythonCompat env h)"

definition get_handler :: "'w http_env \<Rightarrow> 'w srv \<Rightarrow> bytes \<Rightarrow> 'w http_handle option" where
  "get_handler env sv p =
     (if p = ''/healthz'' then Some h_health
      else if p = ''/readyz'' then Some (h_ready (svHandler sv))
      else if p = ''/languages'' then Some (h_languages (svHandler sv))
      else if p = ''/metrics'' then Some (RequireTokens (svMetricsTokens sv) (h_serveMetrics env))
      else None)"

text \<open>
  The router on a clean path: the method and path patterns registered by \<open>New\<close>; a \<open>GET\<close> pattern also serves \<open>HEAD\<close>; a
  registered path with another method is a 405, any other path a 404.
\<close>

definition serve :: "'w http_env \<Rightarrow> 'w srv \<Rightarrow> (route \<Rightarrow> chan) \<Rightarrow> 'w http_handle" where
  "serve env sv slots_of r s =
     (case run_route (rqPath r) of
        Some rt \<Rightarrow>
          if rqMethod r = ''POST'' then gate sv (slots_of rt) (run_handler env (svHandler sv) rt) r s
          else (http_Error [''Allow'' \<mapsto> ''POST''] ''Method Not Allowed'' 405, s)
      | None \<Rightarrow>
          (case get_handler env sv (rqPath r) of
             Some g \<Rightarrow>
               if rqMethod r = ''GET'' \<or> rqMethod r = ''HEAD'' then g r s
               else (http_Error [''Allow'' \<mapsto> ''GET, HEAD''] ''Method Not Allowed'' 405, s)
           | None \<Rightarrow> (http_Error Map.empty ''404 page not found'' 404, s)))"

subsection \<open>Shutdown\<close>

text \<open>
  What ends \<open>ListenAndServe\<close>: the listener fails, or the process is told to stop while requests are in flight, each with
  some time left to run, in nanoseconds. \<open>Shutdown\<close> waits for them for the drain window.
\<close>

datatype serve_end = ListenFailed bool | Signalled "int list"

datatype serve_error = ListenError | DrainTimeout

definition ListenAndServe :: "'w srv \<Rightarrow> serve_end \<Rightarrow> serve_error + unit" where
  "ListenAndServe sv ev =
     (case ev of
        ListenFailed closed \<Rightarrow> if closed then Inr () else Inl ListenError
      | Signalled left \<Rightarrow> if list_all (\<lambda>t. t \<le> svShutdownGrace sv) left then Inr () else Inl DrainTimeout)"

subsection \<open>What a request can start\<close>

lemma ran_upto_jail: "ran_upto j Qs w w' \<Longrightarrow> \<exists>j'. Sb w' = Nsjail j' \<and> same_jail j j'"
  by (auto simp: ran_upto_def ran_def)

lemma sv_Run_jail:
  assumes "sv_Run h s req w = (out, w')" and "Sb w = Nsjail j"
  shows "\<exists>j'. Sb w' = Nsjail j' \<and> same_jail j j'"
proof (cases "admit_run s req")
  case (Inl e)
  with assms show ?thesis by (auto simp: sv_Run_def)
next
  case (Inr p)
  obtain rt c where p: "p = (rt, c)" by fastforce
  obtain res w1 where x: "rt_Run h rt c w = (res, w1)" by fastforce
  with assms(1) Inr p have w: "w' = w1" by (auto simp: sv_Run_def Let_def)
  show ?thesis
  proof (cases rt)
    case (RInterpreted r)
    with x assms(2) show ?thesis using ir_Run_ran [of h r c w res w1 j] ran_upto_jail w by fastforce
  next
    case (RCompiled r)
    with x assms(2) show ?thesis using cr_Run_ran [of h r c w res w1 j] ran_upto_jail w by fastforce
  qed
qed

lemma sv_RunBatch_jail:
  assumes "sv_RunBatch h s req w = (out, w')" and "Sb w = Nsjail j"
  shows "\<exists>j'. Sb w' = Nsjail j' \<and> same_jail j j'"
proof (cases "admit_batch s req")
  case (Inl e)
  with assms show ?thesis by (auto simp: sv_RunBatch_def)
next
  case (Inr p)
  obtain rt c where p: "p = (rt, c)" by fastforce
  with Inr have m: "Mode c \<notin> {modeTest, modeTrace}"
    by (auto simp: admit_batch_iff normalize_iff modeRun_def modeTest_def modeTrace_def split: if_splits)
  obtain b w1 where x: "rt_RunBatch h rt c (MaxBatchTotalMs (svLimits s)) w = (b, w1)" by fastforce
  with assms(1) Inr p have w: "w' = w1" by (auto simp: sv_RunBatch_def Let_def)
  show ?thesis
  proof (cases rt)
    case (RInterpreted r)
    with x assms(2) m show ?thesis
      using ir_RunBatch_ran [of h r c "MaxBatchTotalMs (svLimits s)" w b w1 j] ran_upto_jail w by fastforce
  next
    case (RCompiled r)
    with x assms(2) show ?thesis
      using cr_RunBatch_ran [of h r c "MaxBatchTotalMs (svLimits s)" w b w1 j] ran_upto_jail w by fastforce
  qed
qed

text \<open>How many processes one request may start: compilation and run, or one run for each input and the compilation.\<close>

definition launch_budget :: "RunRequest \<Rightarrow> nat" where
  "launch_budget req = (if Stdins req = [] then 2 else Suc (length (Stdins req)))"

definition started_within :: "svc \<Rightarrow> nsjailSandbox \<Rightarrow> RunRequest \<Rightarrow> 'w world \<Rightarrow> 'w world \<Rightarrow> bool" where
  "started_within s j req w w' \<longleftrightarrow>
     (\<exists>j'. Sb w' = Nsjail j' \<and> same_jail j j') \<and>
     (Launched w' = Launched w \<or> contained_launches s j req (launch_budget req) w w')"

lemma execute_started:
  assumes "execute env h req hs s = (resp, s')" and "Sb (wld s) = Nsjail j" and "limits_ok (svLimits (hSvc h))"
    and "hSvc h = NewService l rts"
  shows "started_within (hSvc h) j req (wld s) (wld s')"
proof (cases "Stdins req = []")
  case True
  obtain out w1 where x: "sv_Run (hostOf env) (hSvc h) req (wld s) = (out, w1)" by fastforce
  with assms(1) True have w: "wld s' = w1" by (cases out) (auto simp: execute_def Let_def)
  show ?thesis
  proof (cases out)
    case (Inl e)
    with x have "Launched w1 = Launched (wld s)" using sv_Run_admit by (metis fst_conv snd_conv sum.disc(1))
    with sv_Run_jail [OF x assms(2)] w show ?thesis by (simp add: started_within_def)
  next
    case (Inr res)
    with x have "sv_Run (hostOf env) (hSvc h) req (wld s) = (Inr res, w1)" by simp
    from sv_Run_contained [OF this assms(2,3)] sv_Run_jail [OF x assms(2)] w True show ?thesis
      by (simp add: started_within_def contained_launches_def launch_budget_def)
  qed
next
  case False
  obtain out w1 where x: "sv_RunBatch (hostOf env) (hSvc h) req (wld s) = (out, w1)" by fastforce
  with assms(1) False have w: "wld s' = w1" by (cases out) (auto simp: execute_def executeBatch_def Let_def)
  show ?thesis
  proof (cases out)
    case (Inl e)
    with x have "Launched w1 = Launched (wld s)" using sv_RunBatch_admit by (metis fst_conv snd_conv sum.disc(1))
    with sv_RunBatch_jail [OF x assms(2)] w show ?thesis by (simp add: started_within_def)
  next
    case (Inr b)
    with x have b: "sv_RunBatch (hostOf env) (hSvc h) req (wld s) = (Inr b, w1)" by simp
    have "length (Results b) \<le> length (Stdins req)" using sv_RunBatch_form [OF b [unfolded assms(4)]] by simp
    then have "contained_launches (hSvc h) j req (Suc (length (Stdins req))) (wld s) w1"
      using sv_RunBatch_contained [OF b assms(2,3)] unfolding contained_launches_def by (meson Suc_le_mono le_trans)
    with sv_RunBatch_jail [OF x assms(2)] w False show ?thesis by (simp add: started_within_def launch_budget_def)
  qed
qed

text \<open>The request a run handler executes, if it gets as far as that.\<close>

definition executed :: "'w http_env \<Rightarrow> 'w handler \<Rightarrow> route \<Rightarrow> http_request \<Rightarrow> RunRequest option" where
  "executed env h rt r =
     (case h_decode env h r of
        Inl msg \<Rightarrow> None
      | Inr req \<Rightarrow>
          (case rt of
             RunRoute \<Rightarrow> if Language req = [] then None else Some req
           | PythonRoute \<Rightarrow> Some (req\<lparr>Language := ''python''\<rparr>)))"

definition quiet :: "nsjailSandbox \<Rightarrow> 'w server \<Rightarrow> 'w server \<Rightarrow> bool" where
  "quiet j s s' \<longleftrightarrow> Sb (wld s') = Nsjail j \<and> Launched (wld s') = Launched (wld s)"

lemma run_handler_started:
  assumes "run_handler env h rt r s = (resp, s')" and "Sb (wld s) = Nsjail j" and "limits_ok (svLimits (hSvc h))"
    and "hSvc h = NewService l rts"
  shows "case executed env h rt r of
      None \<Rightarrow> quiet j s s'
    | Some req \<Rightarrow> started_within (hSvc h) j req (wld s) (wld s')"
proof -
  obtain i hs s1 where e: "ensureRequestID env r s = (i, hs, s1)" by (metis prod_cases3)
  note k = ensureRequestID_keeps(3,4) [OF e]
  have go: "started_within (hSvc h) j req (wld s) (wld s')" if "execute env h req hs s1 = (resp, s')" for req
    using execute_started [OF that _ assms(3,4)] k assms(2)
    unfolding started_within_def contained_launches_def by simp
  show ?thesis
  proof (cases rt)
    case RunRoute
    with assms(1) e go k assms(2) show ?thesis
      by (auto simp: run_handler_def h_run_def executed_def quiet_def split: sum.splits if_splits)
  next
    case PythonRoute
    with assms(1) e go k assms(2) show ?thesis
      by (auto simp: run_handler_def h_runPythonCompat_def executed_def quiet_def split: sum.splits)
  qed
qed

subsection \<open>What stands before the handlers\<close>

text \<open>The route whose handler a request reaches: a POST to one of the two, with a token and a free slot.\<close>

definition admitted :: "'w srv \<Rightarrow> (route \<Rightarrow> chan) \<Rightarrow> http_request \<Rightarrow> route option" where
  "admitted sv slots_of r =
     (case run_route (rqPath r) of
        Some rt \<Rightarrow>
          if rqMethod r = ''POST'' \<and> authorized (svServiceTokens sv) (rqHeader r ''X-Runner-Token'') \<and>
             (svMaxRuns sv \<le> 0 \<or> held (slots_of rt) < capacity (slots_of rt))
          then Some rt else None
      | None \<Rightarrow> None)"

lemma serve_admitted:
  assumes "serve env sv slots_of r s = (resp, s')" and "admitted sv slots_of r = Some rt"
  obtains s1 s2 where "run_handler env (svHandler sv) rt r s1 = (resp, s2)" "wld s1 = wld s" "wld s' = wld s2"
    and "svMaxRuns sv \<le> 0 \<longrightarrow> s1 = s \<and> s' = s2"
    and "0 < svMaxRuns sv \<longrightarrow> met s1 = IncInflight (met s) \<and> met s' = DecInflight (met s2)"
proof -
  have a: "run_route (rqPath r) = Some rt" "rqMethod r = ''POST''"
    "authorized (svServiceTokens sv) (rqHeader r ''X-Runner-Token'')"
    "svMaxRuns sv \<le> 0 \<or> held (slots_of rt) < capacity (slots_of rt)"
    using assms(2) by (auto simp: admitted_def split: option.splits if_splits)
  let ?h = "run_handler env (svHandler sv) rt"
  from assms(1) a(1-3) have l: "LimitConcurrency (svMaxRuns sv) (slots_of rt) ?h r s = (resp, s')"
    by (simp add: serve_def gate_def RequireTokens_cases)
  show thesis
  proof (cases "svMaxRuns sv \<le> 0")
    case True
    with l show thesis by (intro that [of s s']) (simp_all add: LimitConcurrency_def)
  next
    case False
    let ?s1 = "s\<lparr>met := IncInflight (met s)\<rparr>"
    obtain s2 where s2: "?h r ?s1 = (resp, s2)" "s' = s2\<lparr>met := DecInflight (met s2)\<rparr>"
      using l False a(4) by (auto simp: LimitConcurrency_def try_send_def split: prod.splits)
    then show thesis by (intro that [of ?s1 s2]) (use False in simp_all)
  qed
qed

definition shed_here :: "'w srv \<Rightarrow> (route \<Rightarrow> chan) \<Rightarrow> http_request \<Rightarrow> bool" where
  "shed_here sv slots_of r \<longleftrightarrow>
     run_route (rqPath r) \<noteq> None \<and> rqMethod r = ''POST'' \<and>
     authorized (svServiceTokens sv) (rqHeader r ''X-Runner-Token'') \<and> admitted sv slots_of r = None"

lemma get_handler_pure: "get_handler env sv p = Some g \<Longrightarrow> snd (g r s) = s"
  by (auto simp: get_handler_def h_health_def h_ready_def h_languages_def h_serveMetrics_def RequireTokens_def Let_def
      split: if_splits)

lemma serve_gated:
  assumes "serve env sv slots_of r s = (resp, s')" and "admitted sv slots_of r = None"
  shows "s' = (if shed_here sv slots_of r then s\<lparr>met := Overload (met s)\<rparr> else s) \<and>
    (shed_here sv slots_of r \<longrightarrow> rsCode resp = 503 \<and> rsHeader resp ''Retry-After'' = Some ''1'') \<and>
    (run_route (rqPath r) \<noteq> None \<and> rqMethod r = ''POST'' \<and> \<not> shed_here sv slots_of r \<longrightarrow> rsCode resp = 401)"
proof (cases "run_route (rqPath r)")
  case None
  then show ?thesis
  proof (cases "get_handler env sv (rqPath r)")
    case (Some g)
    with None assms(1) get_handler_pure [OF Some, of r s] show ?thesis
      by (auto simp: serve_def shed_here_def split: if_splits)
  qed (use None assms(1) in \<open>auto simp: serve_def shed_here_def\<close>)
next
  case (Some rt)
  show ?thesis
  proof (cases "rqMethod r = ''POST'' \<and> authorized (svServiceTokens sv) (rqHeader r ''X-Runner-Token'')")
    case True
    with assms Some show ?thesis
      by (auto simp: serve_def gate_def RequireTokens_cases LimitConcurrency_def admitted_def shed_here_def try_send_def
          split: if_splits)
  next
    case False
    with assms(1) Some show ?thesis
      by (auto simp: serve_def gate_def RequireTokens_cases shed_here_def split: if_splits)
  qed
qed

lemma serve_unadmitted: "serve env sv slots_of r s = (resp, s') \<Longrightarrow> admitted sv slots_of r = None \<Longrightarrow> wld s' = wld s"
  using serve_gated by fastforce

text \<open>C15: What cannot reach a handler has no effect. A request that is not a POST to one of the two run routes with a
  valid token and a free slot leaves the world exactly as it was; the only trace it can leave is one
  overload count, and that exactly if it was turned away for want of a slot, which is answered 503
  with Retry-After; without a valid token a run route answers 401.\<close>
theorem serve_gatekeeping:
  assumes "serve env sv slots_of r s = (resp, s')" and "admitted sv slots_of r = None"
  shows "s' = (if shed_here sv slots_of r then s\<lparr>met := Overload (met s)\<rparr> else s) \<and>
    (shed_here sv slots_of r \<longrightarrow> rsCode resp = 503 \<and> rsHeader resp ''Retry-After'' = Some ''1'') \<and>
    (run_route (rqPath r) \<noteq> None \<and> rqMethod r = ''POST'' \<and> \<not> shed_here sv slots_of r \<longrightarrow> rsCode resp = 401)"
  by (rule serve_gated [OF assms])

subsection \<open>The limiter seen from one request\<close>

text \<open>The gauges of the two registries agree; the observations are the handlers' business.\<close>

definition same_gauges :: "Metrics \<Rightarrow> Metrics \<Rightarrow> bool" where
  "same_gauges m n \<longleftrightarrow> inflight m = inflight n \<and> overloadTotal m = overloadTotal n"

lemma observe_results_gauges: "same_gauges (observe_results l c rs m) n = same_gauges m n"
  by (induction l c rs m rule: observe_results.induct) (simp_all add: same_gauges_def)

lemma execute_gauges: "execute env h req hs s = (resp, s') \<Longrightarrow> same_gauges (met s') n = same_gauges (met s) n"
  by (auto simp: execute_def executeBatch_def Let_def observe_results_gauges split: prod.splits sum.splits if_splits)
    (simp_all add: same_gauges_def)

lemma run_handler_gauges:
  assumes "run_handler env h rt r s = (resp, s')"
  shows "same_gauges (met s') n = same_gauges (met s) n"
proof -
  obtain i hs s1 where e: "ensureRequestID env r s = (i, hs, s1)" by (metis prod_cases3)
  have "met s' = met s1 \<or> (\<exists>hd req hs. execute env hd req hs s1 = (resp, s'))"
    using assms e by (cases rt) (fastforce simp: run_handler_def h_run_def h_runPythonCompat_def split: sum.splits if_splits)+
  then have "same_gauges (met s') n = same_gauges (met s1) n" using execute_gauges by metis
  with ensureRequestID_keeps(2) [OF e] show ?thesis by simp
qed

text \<open>The steps one request takes when nothing happens in between.\<close>

definition solo_steps :: "bytes list \<Rightarrow> int \<Rightarrow> chan \<Rightarrow> nat \<Rightarrow> route \<Rightarrow> bytes \<Rightarrow> gate_event list" where
  "solo_steps tokens mx c i rt got =
     (if \<not> authorized tokens got then [Denied i rt got]
      else if mx \<le> 0 then [Unmetered i rt got, Done i]
      else if held c < capacity c then [Taken i rt got, Counted i, Given i, Uncounted i]
      else [Full i rt got, ShedOff i])"

lemma solo_run:
  assumes i: "reqs g i = None"
  shows "\<exists>g'. gate_run tokens mx g (solo_steps tokens mx (slotsOf g rt) i rt got) g' \<and>
    slotsOf g' = slotsOf g \<and> reqs g' = reqs g \<and>
    (if authorized tokens got \<and> 0 < mx \<and> \<not> held (slotsOf g rt) < capacity (slotsOf g rt)
     then gmetrics g' = Overload (gmetrics g) else same_gauges (gmetrics g') (gmetrics g))"
proof -
  have none: "(reqs g)(i := None) = reqs g" using i by auto
  consider (deny) "\<not> authorized tokens got" | (pass) "authorized tokens got" "mx \<le> 0"
    | (take) "authorized tokens got" "\<not> mx \<le> 0" "held (slotsOf g rt) < capacity (slotsOf g rt)"
    | (full) "authorized tokens got" "\<not> mx \<le> 0" "\<not> held (slotsOf g rt) < capacity (slotsOf g rt)" by blast
  then show ?thesis
  proof cases
    case deny
    then have "gate_run tokens mx g [Denied i rt got] g"
      using i by (intro gate_run_Cons [OF gate_step.deny gate_run.idle])
    with deny show ?thesis by (auto simp: solo_steps_def same_gauges_def)
  next
    case pass
    then have "gate_run tokens mx g [Unmetered i rt got, Done i] g"
      using i none by (intro gate_run_Cons [OF gate_step.pass] gate_run_Cons [OF _ gate_run.idle]) (simp_all add: gate_step_simps)
    with pass show ?thesis by (auto simp: solo_steps_def same_gauges_def)
  next
    case take
    let ?c = "(slotsOf g rt)\<lparr>held := held (slotsOf g rt) + 1\<rparr>"
    let ?g = "g\<lparr>gmetrics := DecInflight (IncInflight (gmetrics g))\<rparr>"
    have t: "try_send (slotsOf g rt) = Some ?c" and g: "(slotsOf g)(rt := receive ?c) = slotsOf g"
      using take(3) by (simp_all add: try_send_def receive_def)
    let ?g1 = "g\<lparr>slotsOf := (slotsOf g)(rt := ?c), reqs := (reqs g)(i \<mapsto> (rt, Holding))\<rparr>"
    let ?g2 = "?g1\<lparr>gmetrics := IncInflight (gmetrics ?g1), reqs := (reqs ?g1)(i \<mapsto> (rt, Serving))\<rparr>"
    let ?g3 = "?g2\<lparr>slotsOf := (slotsOf ?g2)(rt := receive (slotsOf ?g2 rt)), reqs := (reqs ?g2)(i \<mapsto> (rt, Returned))\<rparr>"
    have "gate_step tokens mx g (Taken i rt got) ?g1" using i take(1,2) t by (rule gate_step.take)
    moreover have "gate_step tokens mx ?g1 (Counted i) ?g2" by (rule gate_step.count) simp
    moreover have "gate_step tokens mx ?g2 (Given i) ?g3" by (rule gate_step.give) simp
    moreover have "gate_step tokens mx ?g3 (Uncounted i) ?g" using g none by (simp add: gate_step_simps)
    ultimately have "gate_run tokens mx g [Taken i rt got, Counted i, Given i, Uncounted i] ?g"
      by (meson gate_run_Cons gate_run.idle)
    with take show ?thesis by (fastforce simp: solo_steps_def same_gauges_def)
  next
    case full
    then have "try_send (slotsOf g rt) = None" by (simp add: try_send_def)
    with full i none have "gate_run tokens mx g [Full i rt got, ShedOff i] (g\<lparr>gmetrics := Overload (gmetrics g)\<rparr>)"
      by (intro gate_run_Cons [OF gate_step.full] gate_run_Cons [OF _ gate_run.idle]) (simp_all add: gate_step_simps)
    with full show ?thesis by (fastforce simp: solo_steps_def)
  qed
qed

lemma serve_gauges:
  assumes "serve env sv slots_of r s = (resp, s')"
  shows "same_gauges (met s') (if shed_here sv slots_of r then Overload (met s) else met s)"
proof (cases "admitted sv slots_of r")
  case None
  from serve_gated [OF assms None] show ?thesis by (simp add: same_gauges_def)
next
  case (Some rt)
  from assms Some obtain s1 s2 where h: "run_handler env (svHandler sv) rt r s1 = (resp, s2)"
    and m: "svMaxRuns sv \<le> 0 \<longrightarrow> s1 = s \<and> s' = s2"
      "0 < svMaxRuns sv \<longrightarrow> met s1 = IncInflight (met s) \<and> met s' = DecInflight (met s2)"
    by (rule serve_admitted)
  have "same_gauges (met s2) (met s1)" using run_handler_gauges [OF h, of "met s1"] by (simp add: same_gauges_def)
  with m Some show ?thesis by (cases "svMaxRuns sv \<le> 0") (auto simp: same_gauges_def shed_here_def)
qed

lemma shed_here_iff:
  "run_route (rqPath r) = Some rt \<Longrightarrow> rqMethod r = ''POST'' \<Longrightarrow>
     shed_here sv slots_of r \<longleftrightarrow> authorized (svServiceTokens sv) (rqHeader r ''X-Runner-Token'') \<and> 0 < svMaxRuns sv \<and>
       \<not> held (slots_of rt) < capacity (slots_of rt)"
  by (auto simp: shed_here_def admitted_def)


subsection \<open>Label safety\<close>

text \<open>An operation whose labels, if it has any, are a registered language and a status of the wire contract.\<close>

fun closed_op :: "svc \<Rightarrow> metric_op \<Rightarrow> bool" where
  "closed_op sv (Observe l st d c) \<longleftrightarrow> l \<in> sv_Languages sv \<and> st \<in> insert BatchStatusOK all_statuses"
| "closed_op sv _ \<longleftrightarrow> True"

text \<open>The registry has moved on by such operations.\<close>

definition closed_move :: "svc \<Rightarrow> Metrics \<Rightarrow> Metrics \<Rightarrow> bool" where
  "closed_move sv m m' \<longleftrightarrow> (\<exists>ops. list_all (closed_op sv) ops \<and> m' = fold apply_op ops m)"

lemma closed_move_refl: "closed_move sv m m"
  unfolding closed_move_def by (rule exI [of _ "[]"]) simp

lemma closed_move_trans: "closed_move sv m m1 \<Longrightarrow> closed_move sv m1 m2 \<Longrightarrow> closed_move sv m m2"
  unfolding closed_move_def by (metis fold_append comp_apply list_all_append)

lemma closed_move_op: "closed_op sv x \<Longrightarrow> closed_move sv m (apply_op x m)"
  unfolding closed_move_def by (rule exI [of _ "[x]"]) simp

lemma closed_move_gauges: "closed_move sv m (Overload m)" "closed_move sv m (IncInflight m)" "closed_move sv m (DecInflight m)"
  using closed_move_op [of sv Shed m] closed_move_op [of sv Enter m] closed_move_op [of sv Leave m] by simp_all

lemma execute_closed:
  assumes "execute env h req hs s = (resp, s')" and "hSvc h = NewService l rts" and "Language req \<noteq> []"
  shows "closed_move (hSvc h) (met s) (met s')"
proof (cases "admissible (hSvc h) req")
  case False
  from execute_rejected [OF this, of env hs s] obtain e where "execute env h req hs s = (reject hs e, s)" .
  with assms(1) closed_move_refl show ?thesis by simp
next
  case True
  then have "Language req \<in> sv_Languages (hSvc h)"
    by (auto simp: admissible_def run_admissible_def batch_admissible_def sv_Languages_def split: if_splits)
  then have c: "list_all (closed_op (hSvc h)) ops" if "list_all (labelled (Language req)) ops" for ops
    using that by (auto simp: list_all_iff elim!: labelled.elims)
  from execute_answered [OF True assms(2,3,1)] c show ?thesis
    unfolding answers_def closed_move_def by blast
qed

lemma run_handler_closed:
  assumes "run_handler env h rt r s = (resp, s')" and "hSvc h = NewService l rts"
  shows "closed_move (hSvc h) (met s) (met s')"
proof -
  obtain i hs s1 where e: "ensureRequestID env r s = (i, hs, s1)" by (metis prod_cases3)
  have "met s' = met s1 \<or> (\<exists>req. Language req \<noteq> [] \<and> execute env h req hs s1 = (resp, s'))"
  proof (cases "h_decode env h r")
    case (Inr q)
    show ?thesis
    proof (cases rt)
      case PythonRoute
      with assms(1) e Inr have "execute env h (q\<lparr>Language := ''python''\<rparr>) hs s1 = (resp, s')"
        by (simp add: run_handler_def h_runPythonCompat_def)
      moreover have "Language (q\<lparr>Language := ''python''\<rparr>) \<noteq> []" by simp
      ultimately show ?thesis by blast
    qed (use assms(1) e Inr in \<open>auto simp: run_handler_def h_run_def split: if_splits\<close>)
  qed (use assms(1) e in \<open>cases rt; simp add: run_handler_def h_run_def h_runPythonCompat_def\<close>)
  with execute_closed [OF _ assms(2)] closed_move_refl ensureRequestID_keeps(2) [OF e] show ?thesis by metis
qed

lemma serve_closed:
  assumes "serve env sv slots_of r s = (resp, s')" and "hSvc (svHandler sv) = NewService l rts"
  shows "closed_move (hSvc (svHandler sv)) (met s) (met s')"
proof (cases "admitted sv slots_of r")
  case None
  from serve_gated [OF assms(1) None] closed_move_refl closed_move_gauges(1) show ?thesis by (simp split: if_splits)
next
  case (Some rt)
  from assms(1) Some obtain s1 s2 where h: "run_handler env (svHandler sv) rt r s1 = (resp, s2)"
    and m: "svMaxRuns sv \<le> 0 \<longrightarrow> s1 = s \<and> s' = s2"
      "0 < svMaxRuns sv \<longrightarrow> met s1 = IncInflight (met s) \<and> met s' = DecInflight (met s2)"
    by (rule serve_admitted)
  note c = run_handler_closed [OF h assms(2)]
  show ?thesis
  proof (cases "svMaxRuns sv \<le> 0")
    case True
    with m c show ?thesis by simp
  next
    case False
    with m c closed_move_gauges(2,3) closed_move_trans show ?thesis by (metis not_le)
  qed
qed

text \<open>What may be a label in the text: a registered language, a status, or a bound of a bucket.\<close>

definition closed_label :: "svc \<Rightarrow> bytes \<times> bytes \<Rightarrow> bool" where
  "closed_label sv x \<longleftrightarrow>
     fst x = ''language'' \<and> snd x \<in> sv_Languages sv \<or> fst x = ''status'' \<and> snd x \<in> insert BatchStatusOK all_statuses \<or>
     fst x = ''le'' \<and> snd x \<in> {''0.05'', ''0.1'', ''0.25'', ''0.5'', ''1'', ''2.5'', ''5'', ''10'', ''20'', ''+Inf''}"
lemma samples_closed:
  assumes "list_all (closed_op sv) ops" and "x \<in> set (samples fmt (after ops))"
  shows "list_all (closed_label sv) (snd (fst x))"
proof -
  have run: "l \<in> sv_Languages sv \<and> st \<in> insert BatchStatusOK all_statuses" if "list_ex (is_run l st) ops" for l st
  proof -
    from that obtain y where "y \<in> set ops" "is_run l st y" by (auto simp: list_ex_iff)
    with assms(1) show ?thesis by (cases y) (auto simp: list_all_iff)
  qed
  have obs: "l \<in> sv_Languages sv" if "list_ex (is_obs l) ops \<or> list_ex (is_compiled l) ops" for l
  proof -
    from that obtain y where "y \<in> set ops" "is_obs l y \<or> is_compiled l y" by (auto simp: list_ex_iff)
    with assms(1) show ?thesis by (cases y) (auto simp: list_all_iff)
  qed
  have le: "closed_label sv (''le'', FormatSeconds (bs ! i))" if "bs \<in> {runBuckets, compileBuckets}" "i < length bs" for bs i
  proof -
    have "FormatSeconds (bs ! i) \<in> set (map FormatSeconds bs)" using that(2) by simp
    with that(1) show ?thesis by (auto simp only: bucket_texts closed_label_def) auto
  qed
  have h: "list_all (closed_label sv) (snd (fst x))"
    if "x \<in> set (hist_samples fmt name l h)" "l \<in> sv_Languages sv" "hist_ok bs h" "bs \<in> {runBuckets, compileBuckets}" for name l h bs
    using that le [of bs] by (auto simp: hist_samples_def bucket_samples_def Let_def hist_ok_def, auto simp: closed_label_def)
  have hs: "list_all (closed_label sv) (snd (fst x))"
    if x: "x \<in> set (histogram_samples fmt name hs)" and "finite (Mapping.keys hs)" and "bs \<in> {runBuckets, compileBuckets}"
      and ok: "\<And>l h. Mapping.lookup hs l = Some h \<Longrightarrow> hist_ok bs h \<and> l \<in> sv_Languages sv" for name hs bs
  proof -
    from histogram_samples_member [OF that(2,1)] obtain l k where "Mapping.lookup hs l = Some k" "x \<in> set (hist_samples fmt name l k)" .
    with h ok that(3) show ?thesis by blast
  qed
  have r: "Mapping.lookup (runDur (after ops)) l = Some k \<Longrightarrow> hist_ok runBuckets k \<and> l \<in> sv_Languages sv"
    "Mapping.lookup (compileDur (after ops)) l = Some k \<Longrightarrow> hist_ok compileBuckets k \<and> l \<in> sv_Languages sv" for l k
    using after_hists [of ops l k] obs [of l] after_keys(4,5) [of l ops] by (auto simp: keys_dom_lookup domIff)
  from assms(2) show ?thesis
    unfolding samples_def using run obs after_finite hs [OF _ after_finite(4) _ r(1)] hs [OF _ after_finite(5) _ r(2)]
    by (auto simp: run_samples_def lang_samples_def plain_sample_def after_keys closed_label_def)
qed

definition demo_http_config :: "int http_config" where
  "demo_http_config =
     \<lparr>hcAddr = '':8090'', hcToken = [], hcTokens = [''k''], hcMaxSourceBytes = 200000, hcMaxStdinBytes = 1000000,
      hcMaxFilesBytes = 1048576, hcMaxConcurrentRuns = 1, hcMaxBatch = 100, hcMaxBatchStdinBytes = 4000000,
      hcMetricsToken = [], hcMetricsTokens = [], hcShutdownGrace = 75000000000, hcBackend = ''nsjail'',
      hcNetworkIsolated = True, hcMemoryAccounting = ''rlimit-only'', hcReadyRequiresNsjail = True,
      hcContainmentReady = Some (\<lambda>w. Ready (Sb w))\<rparr>"

lemma demo_srv_fields:
  "svServiceTokens (New demo_service demo_http_config) = [''k'']" "svMaxRuns (New demo_service demo_http_config) = 1"
  by (simp_all add: New_def Let_def demo_http_config_def unionTokens_def)

text \<open>The one slot of the route is taken: a caller with the token is turned away, one without it is unauthorized.\<close>

theorem serve_gatekeeping_witness:
  "let full = (\<lambda>_::route. \<lparr>capacity = 1, held = 1\<rparr>); sv = New demo_service demo_http_config;
       known = demo_http\<lparr>rqHeader := (\<lambda>_. ''k'')\<rparr>
   in rsCode (fst (serve demo_env sv full known demo_server)) = 503 \<and>
      rsCode (fst (serve demo_env sv full demo_http demo_server)) = 401 \<and>
      snd (serve demo_env sv full demo_http demo_server) = demo_server"
proof -
  let ?full = "\<lambda>_::route. \<lparr>capacity = 1, held = 1\<rparr>" and ?sv = "New demo_service demo_http_config"
  let ?known = "demo_http\<lparr>rqHeader := (\<lambda>_. ''k'')\<rparr>"
  have a: "admitted ?sv ?full ?known = None" "admitted ?sv ?full demo_http = None" "shed_here ?sv ?full ?known"
    "\<not> shed_here ?sv ?full demo_http" "run_route (rqPath demo_http) \<noteq> None" "rqMethod demo_http = ''POST''"
    by (simp_all add: admitted_def shed_here_def demo_srv_fields demo_http_def run_route_def authorized_def)
  obtain r1 s1 where 1: "serve demo_env ?sv ?full ?known demo_server = (r1, s1)" by fastforce
  obtain r2 s2 where 2: "serve demo_env ?sv ?full demo_http demo_server = (r2, s2)" by fastforce
  from serve_gatekeeping [OF 1 a(1)] serve_gatekeeping [OF 2 a(2)] a(3-6) 1 2 show ?thesis by (simp add: Let_def)
qed


end
