(* ===== verification/RunnerMain.thy ===== *)
theory RunnerMain
  imports Server Config
begin

text \<open>
  \<^verbatim>\<open>cmd/runner/main.go\<close>: the composition root. It loads the configuration, resolves the sandbox, builds the
  thirteen runtimes and the service with the limits of the configuration, and the HTTP server around it. The
  theorems of the components meet here: what they assume of their arguments is what the wiring supplies.
\<close>

definition staticSeccompProfile :: "bytes \<Rightarrow> SeccompProfile" where
  "staticSeccompProfile mode =
     (let m = to_lower (trim_space mode) in
      if m = ''enforce'' then SeccompStaticEnforce
      else if m = ''complain'' then SeccompStaticComplain
      else SeccompDenylist)"

definition compiledConfig :: "Config \<Rightarrow> CompiledConfig" where
  "compiledConfig cfg =
     \<lparr>ccOutputLimit = cfMaxOutputBytes cfg, ccMaxProcesses = cfMaxProcesses cfg,
      ccMaxFileSizeMB = cfMaxFileSizeMB cfg, ccCompileMemoryMB = cfCompileMemoryMB cfg,
      ccMaxArtifactBytes = cfMaxArtifactBytes cfg, ccRunSeccomp = staticSeccompProfile (cfStaticSeccomp cfg),
      ccMaxReportBytes = cfMaxTestReportBytes cfg\<rparr>"

definition main_limits :: "Config \<Rightarrow> Limits" where
  "main_limits cfg =
     \<lparr>DefaultTimeout = cfDefaultTimeoutMs cfg, MaxTimeoutMs = cfMaxTimeoutMs cfg,
      DefaultMemory = cfDefaultMemoryMB cfg, MaxMemoryMB = cfMaxMemoryMB cfg,
      MaxOutputBytes = cfMaxOutputBytes cfg, DefaultTestTimeout = cfDefaultTestTimeoutMs cfg,
      MaxTestTimeoutMs = cfMaxTestTimeoutMs cfg, DefaultCompileTimeout = cfCompileTimeoutMs cfg,
      MaxCompileTimeoutMs = cfMaxCompileTimeoutMs cfg,
      FileLimits = \<lparr>CapMaxFiles = cfMaxFiles cfg, CapMaxFileBytes = cfMaxFileBytes cfg,
        CapMaxFilesBytes = cfMaxFilesBytes cfg, CapMaxPathBytes = cfMaxPathBytes cfg,
        CapMaxPathDepth = cfMaxPathDepth cfg\<rparr>,
      MaxBatchTotalMs = cfMaxBatchTotalMs cfg\<rparr>"

text \<open>
  \<open>NewPython\<close> to \<open>NewOdin\<close>, in the order in which the arguments of \<open>NewService\<close> are evaluated: each asks its toolchain
  for its version. Python and Odin take the trace limits.
\<close>

definition interp :: "Config \<Rightarrow> 'w ir_new \<Rightarrow> 'w \<Rightarrow> interpretedRuntime \<times> 'w" where
  "interp cfg mk w =
     mk (cfMaxOutputBytes cfg) (cfMaxProcesses cfg) (cfMaxFileSizeMB cfg) (cfMaxTestReportBytes cfg) w"

fun build_all :: "('w \<Rightarrow> runtime \<times> 'w) list \<Rightarrow> 'w \<Rightarrow> runtime list \<times> 'w" where
  "build_all [] w = ([], w)"
| "build_all (b # bs) w = (case b w of (rt, w1) \<Rightarrow> case build_all bs w1 of (rts, w2) \<Rightarrow> (rt # rts, w2))"

definition main_builders :: "'w host \<Rightarrow> Config \<Rightarrow> ('w \<Rightarrow> runtime \<times> 'w) list" where
  "main_builders h cfg =
     (let plain = (\<lambda>mk w. map_prod RInterpreted id (interp cfg mk w));
          compiled = (\<lambda>mk w. map_prod RCompiled id (mk (compiledConfig cfg) w));
          ir_traced = (\<lambda>r. ir_WithTraceLimits r (cfMaxTraceReportBytes cfg) (cfMaxTraceSteps cfg));
          cr_traced = (\<lambda>r. cr_WithTraceLimits r (cfMaxTraceReportBytes cfg) (cfMaxTraceSteps cfg))
      in [\<lambda>w. map_prod (RInterpreted \<circ> ir_traced) id (interp cfg (NewPython h) w),
          plain (NewNode h), plain (NewLua h), plain (NewPHP h), plain (NewSQL h),
          compiled (NewC h), compiled (NewCpp h), compiled (NewGo h), compiled (NewJava h), compiled (NewRust h),
          compiled (NewTypeScript h), compiled (NewCSharp h),
          \<lambda>w. map_prod (RCompiled \<circ> cr_traced) id (NewOdin h (compiledConfig cfg) w)])"

definition main_service :: "'w host \<Rightarrow> Config \<Rightarrow> 'w \<Rightarrow> svc \<times> 'w" where
  "main_service h cfg w =
     (case build_all (main_builders h cfg) w of (rts, w1) \<Rightarrow> (NewService (main_limits cfg) rts, w1))"

definition main_http :: "Config \<Rightarrow> sandbox \<Rightarrow> 'w http_config" where
  "main_http cfg sb =
     \<lparr>hcAddr = cfAddr cfg, hcToken = [], hcTokens = cfServiceTokens cfg,
      hcMaxSourceBytes = cfMaxSourceBytes cfg, hcMaxStdinBytes = cfMaxStdinBytes cfg,
      hcMaxFilesBytes = cfMaxFilesBytes cfg, hcMaxConcurrentRuns = cfMaxConcurrentRuns cfg,
      hcMaxBatch = cfMaxBatch cfg, hcMaxBatchStdinBytes = cfMaxBatchStdinBytes cfg,
      hcMetricsToken = [], hcMetricsTokens = cfMetricsTokens cfg,
      hcShutdownGrace = ms_ns (cfShutdownGraceMs cfg), hcBackend = Backend sb,
      hcNetworkIsolated = NetworkIsolated sb, hcMemoryAccounting = MemoryAccounting sb,
      hcReadyRequiresNsjail = cfReadyRequiresNsjail cfg,
      hcContainmentReady = Some (\<lambda>w. Ready (Sb w))\<rparr>"

text \<open>Why the process exits before it serves.\<close>

datatype boot_error = BootConfig config_error | BootSandbox conf_error

definition boot :: "'w host \<Rightarrow> environ \<Rightarrow> 'w \<Rightarrow> (boot_error + (Config \<times> sandbox \<times> 'w srv)) \<times> 'w" where
  "boot h env w =
     (case Load env of
        Inl e \<Rightarrow> (Inl (BootConfig e), w)
      | Inr cfg \<Rightarrow>
          (case Configure h (cfSandboxPolicy cfg) (cfNetworkPolicy cfg) (cfCgroupPolicy cfg) (cfCgroupMount cfg) w of
             (Inl e, w1) \<Rightarrow> (Inl (BootSandbox e), w1)
           | (Inr sb, w1) \<Rightarrow>
               (case main_service h cfg w1 of
                  (sv, w2) \<Rightarrow> (Inr (cfg, sb, New sv (main_http cfg sb)), w2))))"

text \<open>The exit code of the process: \<open>ev\<close> is what ends the server, once it serves.\<close>

definition main_exit :: "'w host \<Rightarrow> environ \<Rightarrow> serve_end \<Rightarrow> 'w \<Rightarrow> nat \<times> 'w" where
  "main_exit h env ev w =
     (case boot h env w of
        (Inl e, w1) \<Rightarrow> (1, w1)
      | (Inr (cfg, sb, sv), w1) \<Rightarrow> ((case ListenAndServe sv ev of Inl e \<Rightarrow> 1 | Inr u \<Rightarrow> 0), w1))"

subsection \<open>What the wiring supplies\<close>

lemma wired_limits_ok: "Load env = Inr cfg \<Longrightarrow> limits_ok (main_limits cfg)"
  by (drule Load_positive) (simp add: limits_ok_def main_limits_def int_knobs_def)

lemma New_simps [simp]:
  "svHandler (New sv cfg) = new_handler sv cfg" "svMaxRuns (New sv cfg) = hcMaxConcurrentRuns cfg"
  "svServiceTokens (New sv cfg) = unionTokens (hcToken cfg) (hcTokens cfg)"
  "svMetricsTokens (New sv cfg) =
     metrics_tokens (hcMetricsToken cfg) (hcMetricsTokens cfg) (unionTokens (hcToken cfg) (hcTokens cfg))"
  "hSvc (new_handler sv cfg) = sv"
  by (simp_all add: New_def new_handler_def Let_def)

lemma union_add_id: "distinct (out @ ts) \<Longrightarrow> [] \<notin> set ts \<Longrightarrow> union_add out ts = out @ ts"
  by (induction out ts rule: union_add.induct) auto

lemma unionTokens_id: "token_set_ok ts \<Longrightarrow> unionTokens [] ts = ts"
  using union_add_id [of "[]" ts] by (auto simp: unionTokens_def token_set_ok_def list_all_iff)

lemma boot_Inr:
  assumes "boot h env w = (Inr (cfg, sb, sv), w')"
  obtains rts w1 where "Load env = Inr cfg"
    and "Configure h (cfSandboxPolicy cfg) (cfNetworkPolicy cfg) (cfCgroupPolicy cfg) (cfCgroupMount cfg) w = (Inr sb, w1)"
    and "build_all (main_builders h cfg) w1 = (rts, w')"
    and "sv = New (NewService (main_limits cfg) rts) (main_http cfg sb)"
proof -
  from assms obtain w1 where l: "Load env = Inr cfg"
    "Configure h (cfSandboxPolicy cfg) (cfNetworkPolicy cfg) (cfCgroupPolicy cfg) (cfCgroupMount cfg) w = (Inr sb, w1)"
    "(case main_service h cfg w1 of (sv, w2) \<Rightarrow> (Inr (cfg, sb, New sv (main_http cfg sb)), w2)) =
       ((Inr (cfg, sb, sv), w') :: (boot_error + (Config \<times> sandbox \<times> 'a srv)) \<times> 'a)"
    unfolding boot_def by (fastforce split: sum.splits prod.splits)
  obtain rts w2 where b: "build_all (main_builders h cfg) w1 = (rts, w2)" by fastforce
  with l(3) have "sv = New (NewService (main_limits cfg) rts) (main_http cfg sb)" "w2 = w'"
    by (simp_all add: main_service_def)
  with l b that show thesis by blast
qed


subsection \<open>The posture of a deployment\<close>

lemma build_all_map:
  "list_all2 (\<lambda>b y. \<forall>w. f (fst (b w)) = y) bs ys \<Longrightarrow> build_all bs w = (rts, w') \<Longrightarrow> map f rts = ys"
proof (induction bs ys arbitrary: w rts rule: list_all2_induct)
  case (Cons b bs y ys)
  obtain rt w1 where 1: "b w = (rt, w1)" by fastforce
  obtain rts' w2 where 2: "build_all bs w1 = (rts', w2)" by fastforce
  with Cons.prems 1 have r: "rts = rt # rts'" "w2 = w'" by simp_all
  have "f rt = y" using Cons.hyps(1) 1 by (metis fst_conv)
  moreover have "map f rts' = ys" using Cons.IH 2 r(2) by blast
  ultimately show ?case using r(1) by simp
qed simp

definition main_languages :: "bytes list" where
  "main_languages = [''python'', ''javascript'', ''lua'', ''php'', ''sql'', ''c'', ''cpp'', ''go'', ''java'', ''rust'',
     ''typescript'', ''csharp'', ''odin'']"

lemma newInterpreted_language [simp]: "lName (irSpec (fst (newInterpreted h spec a b c d w))) = lName spec"
  by (simp add: newInterpreted_def Let_def split_beta)

lemma traced_language [simp]:
  "lName (irSpec (ir_WithTraceLimits r a b)) = lName (irSpec r)" "cName (crSpec (cr_WithTraceLimits c a b)) = cName (crSpec c)"
  by (simp_all add: ir_WithTraceLimits_def cr_WithTraceLimits_def Let_def)

lemma main_builders_languages:
  "list_all2 (\<lambda>b l. \<forall>w. rt_Language (fst (b w)) = l) (main_builders h cfg) main_languages"
  by (simp add: main_builders_def main_languages_def Let_def interp_def ir_constructors cr_constructors newCompiled_runBin(2) pythonSpec_def javascriptSpec_def
      luaSpec_def phpSpec_def sqliteSpec_def cSpec_def cppSpec_def goSpec_def javaSpec_def rustSpec_def
      typescriptSpec_def csharpSpec_def odinSpec_def zero_cspec_def)

text \<open>Five of the runtimes are interpreted, and eight compiled.\<close>

lemma main_builders_kinds:
  "list_all2 (\<lambda>b y. \<forall>w. (rt_Language (fst (b w)), runtimeKind (fst (b w))) = y) (main_builders h cfg)
     (zip main_languages (replicate 5 ''interpreted'' @ replicate 8 ''compiled''))"
  using main_builders_languages [of h cfg]
  by (simp add: main_builders_def main_languages_def Let_def numeral_eq_Suc)

lemma deployed_kinds:
  assumes "build_all (main_builders h cfg) w = (rts, w')" and "rt \<in> set rts"
  shows "(rt_Language rt, runtimeKind rt) \<in> set (zip main_languages (replicate 5 ''interpreted'' @ replicate 8 ''compiled''))"
proof -
  have "map (\<lambda>rt. (rt_Language rt, runtimeKind rt)) rts = zip main_languages (replicate 5 ''interpreted'' @ replicate 8 ''compiled'')"
    by (rule build_all_map [OF main_builders_kinds assms(1)])
  with assms(2) show ?thesis by (metis (no_types, lifting) image_eqI list.set_map)
qed

lemma Configure_ready: "Configure h p n c m w = (Inr sb, w') \<Longrightarrow> Ready sb"
  by (drule Configure_keeps) simp

lemma require_word: "normalizePolicy ''require'' = ''require''"
  by (rule normalizePolicy_words)

lemma deployment_languages:
  assumes "boot h env w = (Inr (cfg, sb, sv), w')"
  shows "sv_Languages (hSvc (svHandler sv)) = set main_languages"
  using assms
proof (rule boot_Inr)
  fix rts w1
  assume b: "build_all (main_builders h cfg) w1 = (rts, w')"
    and sv: "sv = New (NewService (main_limits cfg) rts) (main_http cfg sb)"
  show ?thesis
    using build_all_map [OF main_builders_languages b] NewService_keys
    by (simp add: sv sv_Languages_def) (metis list.set_map)
qed

text \<open>C2: The posture of a deployment. A server that boots serves the thirteen languages with the configured
  limits. Outside development it has at least one service token, each of at least 32 bytes, so no run
  route is open; and when the accounting policy is left out it runs on nsjail with the configured, delegated
  cgroup required for every run. It boots ready, and from then on \<^verbatim>\<open>/readyz\<close> answers 200 exactly as long as the
  sandbox is the one required and no run has been refused its containment.\<close>
theorem deployment_posture:
  assumes "boot h env w = (Inr (cfg, sb, sv), w')"
  shows "sv_Languages (hSvc (svHandler sv)) = set main_languages \<and> svLimits (hSvc (svHandler sv)) = main_limits cfg \<and>
    (\<not> is_development env \<longrightarrow>
       svServiceTokens sv \<noteq> [] \<and> strong (svServiceTokens sv) \<and> svMetricsTokens sv \<noteq> [] \<and>
       (trim_space (env ''RUNNER_CGROUP'') = [] \<longrightarrow>
          (\<exists>nj. sb = Nsjail nj \<and> nj_cg nj = Some \<lparr>parent = cgroupMount env\<rparr> \<and> nj_cgRequired nj))) \<and>
    Ready sb \<and>
    (rsCode (fst (h_ready (svHandler sv) r s)) = 200 \<longleftrightarrow>
       (\<not> readyRequiresNsjail env \<or> Backend sb = ''nsjail'') \<and> Ready (Sb (wld s)))"
proof -
  from assms obtain rts w1 where b: "Load env = Inr cfg"
    "Configure h (cfSandboxPolicy cfg) (cfNetworkPolicy cfg) (cfCgroupPolicy cfg) (cfCgroupMount cfg) w = (Inr sb, w1)"
    "build_all (main_builders h cfg) w1 = (rts, w')"
    "sv = New (NewService (main_limits cfg) rts) (main_http cfg sb)" by (rule boot_Inr)
  note lang = deployment_languages [OF assms]
  have lim: "svLimits (hSvc (svHandler sv)) = main_limits cfg" by (simp add: b(4) NewService_def)
  have ts: "svServiceTokens sv = cfServiceTokens cfg"
    using tokenSet_ok by (simp add: b(4) main_http_def unionTokens_id Load_fields(1) [OF b(1)])
  have ms: "svServiceTokens sv \<noteq> [] \<Longrightarrow> svMetricsTokens sv \<noteq> []"
    by (auto simp: b(4) metrics_tokens_def Let_def)
  have prod: "cfServiceTokens cfg \<noteq> [] \<and> strong (cfServiceTokens cfg)" if "\<not> is_development env"
    using b(1) that Load_loaded [OF b(1)] by (auto simp: Load_cases split: if_splits)
  have cg: "\<exists>nj. sb = Nsjail nj \<and> nj_cg nj = Some \<lparr>parent = cgroupMount env\<rparr> \<and> nj_cgRequired nj"
    if "\<not> is_development env" "trim_space (env ''RUNNER_CGROUP'') = []"
  proof -
    have "cfCgroupPolicy cfg = ''require''" using that by (simp add: Load_fields(5) [OF b(1)] cgroupPolicy_def)
    then show ?thesis using Configure_keeps [OF b(2)] require_word by (simp add: Load_fields(8) [OF b(1)])
  qed
  have "rsCode (fst (h_ready (svHandler sv) r s)) = 200 \<longleftrightarrow>
      (\<not> readyRequiresNsjail env \<or> Backend sb = ''nsjail'') \<and> Ready (Sb (wld s))"
    by (auto simp: h_ready_def Let_def b(4) new_handler_def main_http_def Load_fields(9) [OF b(1)])
  with lang lim ts ms prod cg Configure_ready [OF b(2)] show ?thesis by simp
qed

subsection \<open>The drain window covers what it promises\<close>

lemma ran_upto_budget:
  assumes "ran_upto j Qs w w'" and "list_all2 (\<lambda>Q n. \<forall>spec. Q spec \<longrightarrow> SpecTimeoutMs spec \<le> n) Qs ns" and "\<forall>n\<in>set ns. 0 \<le> n"
  shows "\<exists>specs cmds. Launched w' = Launched w @ cmds \<and> list_all2 (jailed_for j) specs cmds \<and>
    sum_list (map SpecTimeoutMs specs) \<le> sum_list ns"
proof -
  from assms(1) obtain k cmds where c: "Launched w' = Launched w @ cmds"
    "list_all2 (\<lambda>Q cmd. \<exists>spec. jailed_for j spec cmd \<and> Q spec) (take k Qs) cmds"
    by (auto simp: ran_upto_def ran_def)
  have t: "list_all2 (\<lambda>Q n. \<forall>spec. Q spec \<longrightarrow> SpecTimeoutMs spec \<le> n) (take k Qs) (take k ns)"
    using assms(2) by (rule list_all2_takeI)
  have "\<exists>specs. list_all2 (jailed_for j) specs cmds \<and> sum_list (map SpecTimeoutMs specs) \<le> sum_list ms"
    if "list_all2 (\<lambda>Q cmd. \<exists>spec. jailed_for j spec cmd \<and> Q spec) Ps cmds"
      "list_all2 (\<lambda>Q n. \<forall>spec. Q spec \<longrightarrow> SpecTimeoutMs spec \<le> n) Ps ms" for Ps ms cmds
    using that
  proof (induction Ps cmds arbitrary: ms rule: list_all2_induct)
    case (Cons Q Ps cmd cmds)
    then obtain n ms' where m: "ms = n # ms'" "\<forall>spec. Q spec \<longrightarrow> SpecTimeoutMs spec \<le> n"
      "list_all2 (\<lambda>Q n. \<forall>spec. Q spec \<longrightarrow> SpecTimeoutMs spec \<le> n) Ps ms'" by (auto simp: list_all2_Cons1)
    from Cons.IH [OF m(3)] obtain specs where
      "list_all2 (jailed_for j) specs cmds" "sum_list (map SpecTimeoutMs specs) \<le> sum_list ms'" by blast
    moreover obtain spec where "jailed_for j spec cmd" "Q spec" using Cons.hyps(1) by blast
    ultimately show ?case using m(1,2) by (intro exI [of _ "spec # specs"]) (auto intro: add_mono)
  qed simp
  from this [OF c(2) t] obtain specs where s: "list_all2 (jailed_for j) specs cmds"
    "sum_list (map SpecTimeoutMs specs) \<le> sum_list (take k ns)" by blast
  have "0 \<le> sum_list (drop k ns)" using assms(3) by (intro sum_list_nonneg) (auto dest: in_set_dropD)
  then have "sum_list (take k ns) \<le> sum_list ns" by (metis append_take_drop_id sum_list_append le_add_same_cancel1)
  with s c(1) show ?thesis by fastforce
qed

text \<open>The wall budget of a single request: a compilation and a run, or a test, or a compilation and a trace.\<close>

definition wall_budget :: "Limits \<Rightarrow> bytes \<Rightarrow> int" where
  "wall_budget l mode =
     (if mode = modeTest then max_timeout l mode else MaxCompileTimeoutMs l + max_timeout l mode)"

lemma sv_Run_budget:
  assumes "sv_Run h s req w = (Inr res, w')" and "Sb w = Nsjail j" and "limits_ok (svLimits s)"
  shows "\<exists>specs cmds. Launched w' = Launched w @ cmds \<and> list_all2 (jailed_for j) specs cmds \<and>
    sum_list (map SpecTimeoutMs specs) \<le> wall_budget (svLimits s) (Mode req)"
proof -
  from assms(1) obtain rt r0 c res0 where 1: "c = clampLimits (svLimits s) r0 rt" "rt_Run h rt c w = (res0, w')"
    "Mode c = Mode req" by (rule sv_Run_Inr)
  have b: "0 < TimeoutMs c" "TimeoutMs c \<le> max_timeout (svLimits s) (Mode req)" "0 < CompileTimeoutMs c"
    "CompileTimeoutMs c \<le> MaxCompileTimeoutMs (svLimits s)"
    using clampLimits_in_bounds [OF assms(3), where req = r0 and rt = rt] 1(1,3) by auto
  show ?thesis
  proof (cases rt)
    case (RInterpreted r)
    with 1(2) have "ir_Run h r c w = (res0, w')" by simp
    from ran_upto_budget [OF ir_Run_ran [OF this assms(2)], of "[TimeoutMs c]"] b
    obtain specs cmds where "Launched w' = Launched w @ cmds" "list_all2 (jailed_for j) specs cmds"
      "sum_list (map SpecTimeoutMs specs) \<le> TimeoutMs c" by (auto simp: interpreted_posture_def)
    with b show ?thesis by (fastforce simp: wall_budget_def)
  next
    case (RCompiled r)
    with 1(2) have x: "cr_Run h r c w = (res0, w')" by simp
    let ?ns = "if Mode req = modeTest then [TimeoutMs c] else [CompileTimeoutMs c, TimeoutMs c]"
    have "list_all2 (\<lambda>Q n. \<forall>spec. Q spec \<longrightarrow> SpecTimeoutMs spec \<le> n) (cr_phases r c) ?ns"
      using 1(3) by (simp add: cr_phases_def compile_posture_def run_posture_def test_posture_def trace_posture_def)
    moreover have "\<forall>n\<in>set ?ns. 0 \<le> n" using b by simp
    ultimately obtain specs cmds where "Launched w' = Launched w @ cmds" "list_all2 (jailed_for j) specs cmds"
      "sum_list (map SpecTimeoutMs specs) \<le> sum_list ?ns"
      using ran_upto_budget cr_Run_ran [OF x assms(2)] by blast
    with b show ?thesis by (fastforce simp: wall_budget_def split: if_splits)
  qed
qed

lemma wired_grace:
  assumes "0 < cfShutdownGraceMs cfg" and "cfShutdownGraceMs cfg < 2 ^ 43"
  shows "svShutdownGrace (New svc (main_http cfg sb)) = cfShutdownGraceMs cfg * 1000000"
proof -
  have "ms_ns (cfShutdownGraceMs cfg) = cfShutdownGraceMs cfg * 1000000"
    using assms by (simp add: ms_ns_def fits64_def)
  with assms(1) show ?thesis by (simp add: New_def Let_def main_http_def)
qed

lemma wired_max_timeout:
  assumes "Load env = Inr cfg"
  shows "max_timeout (main_limits cfg) mode = (if long_mode mode then cfMaxTestTimeoutMs cfg else cfMaxTimeoutMs cfg)"
  using Load_positive [OF assms] by (simp add: max_timeout_def main_limits_def int_knobs_def)

lemma boot_grace:
  assumes "boot h env w0 = (Inr (cfg, sb, sv), w1)" and "ceilings_sane cfg"
  shows "svShutdownGrace sv = cfShutdownGraceMs cfg * 1000000"
proof -
  from assms(1) obtain rts where b: "Load env = Inr cfg"
    "sv = New (NewService (main_limits cfg) rts) (main_http cfg sb)" by (rule boot_Inr)
  show ?thesis
    unfolding b(2) by (rule wired_grace [OF Load_grace(4) [OF b(1) assms(2)]]) (use assms(2) in \<open>simp add: ceilings_sane_def\<close>)
qed

text \<open>
  The exit code of a process that was told to stop: 0 exactly if it had booted and everything in flight came to its end
  within the window of the configuration; a refused configuration or sandbox, and an aborted request, are a 1.
\<close>

theorem main_exit_signalled:
  "(case boot h env w of
      (Inl e, w1) \<Rightarrow> main_exit h env (Signalled left) w = (1, w1)
    | (Inr (cfg, sb, sv), w1) \<Rightarrow> ceilings_sane cfg \<longrightarrow>
        main_exit h env (Signalled left) w =
          ((if list_all (\<lambda>t. t \<le> cfShutdownGraceMs cfg * 1000000) left then 0 else 1), w1))"
proof (cases "boot h env w")
  case (Pair out w1)
  then show ?thesis
    using boot_grace [of h env w _ _ _ w1] by (cases out) (auto simp: main_exit_def ListenAndServe_def)
qed

text \<open>The drain window covers every single run and test, in the budgets of its processes. On a server that boots, with ceilings in a sane range, the
  processes of an admitted single request that is not a trace have wall budgets that add up, with the five
  seconds of slack, to no more than the window in which a shutdown waits for it; so a deploy never kills a
  run inside its own deadline.\<close>
theorem drain_covers_runs:
  assumes "boot h env w0 = (Inr (cfg, sb, sv), w1)" and "ceilings_sane cfg"
    and "sv_Run h (hSvc (svHandler sv)) req w = (Inr res, w')" and "Sb w = Nsjail j" and "Mode req \<noteq> modeTrace"
  shows "\<exists>specs cmds. Launched w' = Launched w @ cmds \<and> list_all2 (jailed_for j) specs cmds \<and>
    (sum_list (map SpecTimeoutMs specs) + 5000) * 1000000 \<le> svShutdownGrace sv"
proof -
  from assms(1) obtain rts where b: "Load env = Inr cfg"
    "sv = New (NewService (main_limits cfg) rts) (main_http cfg sb)" by (rule boot_Inr)
  have l: "svLimits (hSvc (svHandler sv)) = main_limits cfg" by (simp add: b(2) NewService_def)
  note g = Load_grace [OF b(1) assms(2)]
  have "svShutdownGrace sv = cfShutdownGraceMs cfg * 1000000" by (rule boot_grace [OF assms(1,2)])
  moreover have "wall_budget (main_limits cfg) (Mode req) + 5000 \<le> cfShutdownGraceMs cfg"
    using g(1,3) assms(5)
    by (simp add: wall_budget_def wired_max_timeout [OF b(1)] long_mode_def) (simp add: main_limits_def)
  ultimately have w: "(wall_budget (main_limits cfg) (Mode req) + 5000) * 1000000 \<le> svShutdownGrace sv" by simp
  from sv_Run_budget [OF assms(3,4)] l wired_limits_ok [OF b(1)] obtain specs cmds where
    "Launched w' = Launched w @ cmds" "list_all2 (jailed_for j) specs cmds"
    "sum_list (map SpecTimeoutMs specs) \<le> wall_budget (main_limits cfg) (Mode req)" by auto
  with w show ?thesis by (intro exI [of _ specs] exI [of _ cmds]) simp
qed

text \<open>C32: A defect: the drain window forgets compiled traces. When the test ceiling is the largest and the operator has not
  raised the window, a trace of a compiled language, whose compilation comes on top of a trace phase with the test
  ceiling, can be entitled to more wall time than the window: a shutdown that finds such a request
  just begun gives up on it.\<close>
theorem trace_outlives_drain:
  assumes "Load env = Inr cfg" and "ceilings_sane cfg" and "atoi (env ''RUNNER_SHUTDOWN_GRACE_MS'') = None"
    and "max (cfMaxCompileTimeoutMs cfg) (cfMaxBatchTotalMs cfg) + cfMaxTimeoutMs cfg \<le> cfMaxTestTimeoutMs cfg"
    and "5000 < cfMaxCompileTimeoutMs cfg" and "FloorTimeoutMs (rt_LimitFloors rt) \<le> cfMaxTestTimeoutMs cfg"
  shows "\<exists>req. Language req = ''odin'' \<and> Mode req = modeTrace \<and> mode_ok req \<and> submission_ok (main_limits cfg) req \<and>
    (let c = clampLimits (main_limits cfg) req rt; budget = CompileTimeoutMs c + TimeoutMs c
     in budget = wall_budget (main_limits cfg) modeTrace \<and> cfShutdownGraceMs cfg < budget \<and>
        ListenAndServe (New svc (main_http cfg sb)) (Signalled [budget * 1000000]) = Inl DrainTimeout)"
proof -
  let ?C = "cfMaxCompileTimeoutMs cfg" and ?T = "cfMaxTestTimeoutMs cfg"
  have p: "0 < ?C" "0 < cfMaxTimeoutMs cfg" "0 < cfMaxBatchTotalMs cfg" "0 < ?T"
    using Load_positive [OF assms(1)] by (simp_all add: int_knobs_def)
  have "cfShutdownGraceMs cfg = ?T + 5000"
    using shutdownGraceMs_exact [OF p] assms(2,3,4) by (simp add: Load_fields(10) [OF assms(1)] ceilings_sane_def)
  then have g: "cfShutdownGraceMs cfg < ?C + ?T" using assms(5) by simp
  let ?req = "zero_request\<lparr>Language := ''odin'', SourceCode := ''x'', Mode := modeTrace, TimeoutMs := ?T, CompileTimeoutMs := ?C\<rparr>"
  let ?c = "clampLimits (main_limits cfg) ?req rt"
  have ok: "mode_ok ?req" "submission_ok (main_limits cfg) ?req"
    by (simp_all add: mode_ok_def submission_ok_def zero_request_def supportsTraceMode_def traceCommands_def)
  have "max_timeout (main_limits cfg) modeTrace = ?T" by (simp add: wired_max_timeout [OF assms(1)] long_mode_def)
  then have t: "TimeoutMs ?c = ?T" "CompileTimeoutMs ?c = ?C"
    and b: "wall_budget (main_limits cfg) modeTrace = ?C + ?T"
    using p assms(6)
    by (simp_all add: clampLimits_def clamp_def raiseToFloor_def Let_def wall_budget_def modeTest_def modeTrace_def)
      (simp_all add: main_limits_def)
  have "cfShutdownGraceMs cfg < 2 ^ 43" using assms(2) by (simp add: ceilings_sane_def)
  note w = wired_grace [OF Load_grace(4) [OF assms(1,2)] this, of svc sb]
  have "ListenAndServe (New svc (main_http cfg sb)) (Signalled [(?C + ?T) * 1000000]) = Inl DrainTimeout"
    using g by (simp add: ListenAndServe_def w)
  with g t b ok show ?thesis unfolding Let_def by (intro exI [of _ ?req]) simp
qed

subsection \<open>A production environment\<close>

definition demo_token :: bytes where
  "demo_token = ''0123456789abcdef0123456789abcdef''"

definition demo_environ :: environ where
  "demo_environ k = (if k = ''RUNNER_SERVICE_TOKEN'' then demo_token else [])"

lemma demo_tokens:
  "tokenSet [demo_environ ''RUNNER_SERVICE_TOKEN'', demo_environ ''RUNNER_SERVICE_TOKENS''] = [demo_token]"
  "tokenSet [demo_environ ''RUNNER_METRICS_TOKEN'', demo_environ ''RUNNER_METRICS_TOKENS''] = []"
  "\<not> is_development demo_environ"
  by code_simp+

lemma demo_Load: "Load demo_environ = Inr (loaded demo_environ)"
  by (simp add: Load_cases loaded_fields demo_tokens strong_def) (simp add: demo_token_def)

text \<open>What boots does not look at the clock, and starts no child of a request.\<close>

lemma demo_like_boot:
  "\<exists>nj sv w1. boot (demo_host\<lparr>now_ns := f, spawn := g\<rparr>) demo_environ 0 = (Inr (loaded demo_environ, Nsjail nj, sv), w1)"
proof -
  have n: "normalizePolicy [] = ''auto''" "normalizePolicy ''require'' = ''require''" by code_simp+
  have t: "trim_space ''/sys/fs/cgroup/dalivim'' \<noteq> []" by code_simp
  have c: "cfSandboxPolicy (loaded demo_environ) = []" "cfNetworkPolicy (loaded demo_environ) = []"
    "cfCgroupPolicy (loaded demo_environ) = ''require''" "cfCgroupMount (loaded demo_environ) = ''/sys/fs/cgroup/dalivim''"
    by (simp_all add: Load_fields [OF demo_Load] demo_tokens(3) cgroupPolicy_def cgroupMount_def Let_def
        demo_environ_def trim_space_id)
  have "\<exists>nj w1. Configure (demo_host\<lparr>now_ns := f, spawn := g\<rparr>) [] [] ''require'' ''/sys/fs/cgroup/dalivim'' 0 = (Inr (Nsjail nj), w1)"
    by (auto simp: Configure_def n tryNsjail_def probeNsjail_def nsjail_Command_def resolveCgroup_def probeCgroup_def
        cg_begin_def put_ctl_def demo_host_def t Let_def split_beta)
  then show ?thesis by (auto simp: boot_def demo_Load c split: prod.splits)
qed

lemma demo_boot: "\<exists>nj sv w1. boot demo_host demo_environ 0 = (Inr (loaded demo_environ, Nsjail nj, sv), w1)"
  using demo_like_boot [where f = "now_ns demo_host" and g = "spawn demo_host"] by simp

theorem deployment_posture_witness:
  "\<exists>cfg sb sv w1. boot demo_host demo_environ 0 = (Inr (cfg, sb, sv), w1) \<and>
     ''python'' \<in> sv_Languages (hSvc (svHandler sv)) \<and> svServiceTokens sv \<noteq> [] \<and>
     (\<exists>nj. sb = Nsjail nj \<and> nj_cgRequired nj)"
proof -
  from demo_boot obtain nj sv w1 where b: "boot demo_host demo_environ 0 = (Inr (loaded demo_environ, Nsjail nj, sv), w1)"
    by blast
  have "trim_space (demo_environ ''RUNNER_CGROUP'') = []" by (simp add: demo_environ_def trim_space_id)
  with deployment_posture [OF b] demo_tokens(3) b show ?thesis by (auto simp: main_languages_def)
qed

lemma demo_serve: "\<exists>resp s'. serve demo_env sv (\<lambda>_. make_chan 8) demo_http demo_server = (resp, s')"
  by (cases "serve demo_env sv (\<lambda>_. make_chan 8) demo_http demo_server") blast

text \<open>A caller with the token and a free slot: its request is let in, and starts what it is entitled to.\<close>

definition known_http :: http_request where
  "known_http = demo_http\<lparr>rqHeader := (\<lambda>k. if k = ''X-Runner-Token'' then demo_token else [])\<rparr>"


lemma unset_envInt: "env k = [] \<Longrightarrow> envInt env k d = d"
  by (simp add: envInt_def)

lemma default_ceilings:
  assumes "Load env = Inr cfg" and "env ''RUNNER_MAX_COMPILE_TIMEOUT_MS'' = []" "env ''RUNNER_MAX_TIMEOUT_MS'' = []"
    "env ''RUNNER_MAX_BATCH_TOTAL_MS'' = []"
  shows "cfMaxCompileTimeoutMs cfg = 20000" "cfMaxTimeoutMs cfg = 10000" "cfMaxBatchTotalMs cfg = 60000"
    "cfMaxTestTimeoutMs cfg = envInt env ''RUNNER_MAX_TEST_TIMEOUT_MS'' 30000"
  using assms unset_envInt by (simp_all add: Load_loaded [OF assms(1)] loaded_def literal_fields Let_def)

lemma default_grace:
  assumes "Load env = Inr cfg" and "env ''RUNNER_MAX_COMPILE_TIMEOUT_MS'' = []" "env ''RUNNER_MAX_TIMEOUT_MS'' = []"
    "env ''RUNNER_MAX_BATCH_TOTAL_MS'' = []" "env ''RUNNER_SHUTDOWN_GRACE_MS'' = []"
    and "cfMaxTestTimeoutMs cfg < 2 ^ 40" "0 < cfMaxTestTimeoutMs cfg"
  shows "ceilings_sane cfg" and "cfShutdownGraceMs cfg = max 70000 (cfMaxTestTimeoutMs cfg) + 5000"
proof -
  note d = default_ceilings [OF assms(1-4)]
  have "shutdownGraceMs env 20000 10000 60000 (cfMaxTestTimeoutMs cfg) = max 70000 (cfMaxTestTimeoutMs cfg) + 5000"
    using shutdownGraceMs_exact [of 20000 10000 60000 "cfMaxTestTimeoutMs cfg" env] assms(5-7) by (simp add: atoi_def)
  then show g: "cfShutdownGraceMs cfg = max 70000 (cfMaxTestTimeoutMs cfg) + 5000"
    by (simp add: Load_fields(10) [OF assms(1)] d(1-3))
  show "ceilings_sane cfg" using assms(6) by (simp add: ceilings_sane_def g d(1-3))
qed

theorem drain_covers_runs_witness:
  "\<exists>sv w1 res w' specs. boot demo_host demo_environ 0 = (Inr (loaded demo_environ, sv), w1) \<and>
     sv_Run demo_host (hSvc (svHandler (snd sv))) demo_request demo_world = (Inr res, w') \<and>
     list_all2 (jailed_for plain_jail) specs (Launched w') \<and>
     (sum_list (map SpecTimeoutMs specs) + 5000) * 1000000 \<le> svShutdownGrace (snd sv)"
proof -
  from demo_boot obtain nj sv w1 where b: "boot demo_host demo_environ 0 = (Inr (loaded demo_environ, Nsjail nj, sv), w1)"
    by blast
  have "cfMaxTestTimeoutMs (loaded demo_environ) = 30000"
    using default_ceilings(4) [OF demo_Load] by (simp add: demo_environ_def unset_envInt)
  then have c: "ceilings_sane (loaded demo_environ)"
    using default_grace(1) [OF demo_Load] by (simp add: demo_environ_def)
  have "Mapping.lookup (svRuntimes (hSvc (svHandler sv))) ''python'' \<noteq> None"
    using deployment_languages [OF b] by (auto simp: sv_Languages_def keys_dom_lookup main_languages_def domIff)
  then have "run_admissible (hSvc (svHandler sv)) demo_request"
    by (auto simp: run_admissible_def keys_dom_lookup demo_request_def zero_request_def mode_ok_def submission_ok_def)
  then have "\<not> isl (fst (sv_Run demo_host (hSvc (svHandler sv)) demo_request demo_world))"
    by (simp add: sv_Run_admit admit_run_ok)
  then obtain res w' where r: "sv_Run demo_host (hSvc (svHandler sv)) demo_request demo_world = (Inr res, w')"
    by (metis isl_iff prod.collapse)
  have w: "Sb demo_world = Nsjail plain_jail" "Launched demo_world = []" "Mode demo_request \<noteq> modeTrace"
    by (simp_all add: demo_world_def demo_request_def zero_request_def)
  from drain_covers_runs [OF b c r w(1,3)] w(2) obtain specs where
    "list_all2 (jailed_for plain_jail) specs (Launched w')"
    "(sum_list (map SpecTimeoutMs specs) + 5000) * 1000000 \<le> svShutdownGrace sv" by auto
  with b r show ?thesis
    by (intro exI [of _ "(Nsjail nj, sv)"] exI [of _ w1] exI [of _ res] exI [of _ w'] exI [of _ specs]) simp
qed

text \<open>A larger test ceiling is all it takes.\<close>

definition demo_odin :: runtime where
  "demo_odin = RCompiled (demo_c\<lparr>crSpec := odinSpec\<rparr>)"

definition trace_environ :: environ where
  "trace_environ k = (if k = ''RUNNER_MAX_TEST_TIMEOUT_MS'' then ''80000'' else demo_environ k)"

lemma trace_environ_tokens:
  "tokenSet [trace_environ ''RUNNER_SERVICE_TOKEN'', trace_environ ''RUNNER_SERVICE_TOKENS''] = [demo_token]"
  "tokenSet [trace_environ ''RUNNER_METRICS_TOKEN'', trace_environ ''RUNNER_METRICS_TOKENS''] = []"
  using demo_tokens by (simp_all add: trace_environ_def)

lemma trace_environ_ceiling: "atoi ''80000'' = Some 80000"
  by (simp add: atoi_def atoi_body_def digit_val_def fits64_def)

lemma trace_environ_Load: "Load trace_environ = Inr (loaded trace_environ)"
  by (simp add: Load_cases loaded_fields trace_environ_tokens strong_def) (simp add: demo_token_def)

theorem trace_outlives_drain_witness:
  "\<exists>cfg req. Load trace_environ = Inr cfg \<and> Mode req = modeTrace \<and> cfShutdownGraceMs cfg = 85000 \<and>
     (let c = clampLimits (main_limits cfg) req demo_odin in 100000 = CompileTimeoutMs c + TimeoutMs c)"
proof -
  note l = trace_environ_Load
  have e: "trace_environ ''RUNNER_MAX_COMPILE_TIMEOUT_MS'' = []" "trace_environ ''RUNNER_MAX_TIMEOUT_MS'' = []"
    "trace_environ ''RUNNER_MAX_BATCH_TOTAL_MS'' = []" "trace_environ ''RUNNER_SHUTDOWN_GRACE_MS'' = []"
    "trace_environ ''RUNNER_MAX_TEST_TIMEOUT_MS'' = ''80000''" by (simp_all add: trace_environ_def demo_environ_def)
  have T: "cfMaxTestTimeoutMs (loaded trace_environ) = 80000"
    using default_ceilings(4) [OF l e(1-3)] by (simp add: envInt_exact e(5) trace_environ_ceiling)
  note d = default_ceilings(1-3) [OF l e(1-3)]
  have g: "ceilings_sane (loaded trace_environ)" "cfShutdownGraceMs (loaded trace_environ) = 85000"
    using default_grace [OF l e(1-4)] by (simp_all add: T)
  have f: "FloorTimeoutMs (rt_LimitFloors demo_odin) \<le> cfMaxTestTimeoutMs (loaded trace_environ)"
    by (simp add: T demo_odin_def odinSpec_def zero_cspec_def)
  have "wall_budget (main_limits (loaded trace_environ)) modeTrace = 100000"
    by (simp add: wall_budget_def wired_max_timeout [OF l] long_mode_def T modeTest_def modeTrace_def)
      (simp add: main_limits_def d)
  moreover have a: "atoi (trace_environ ''RUNNER_SHUTDOWN_GRACE_MS'') = None" by (simp add: e(4) atoi_def)
  have m: "max (cfMaxCompileTimeoutMs (loaded trace_environ)) (cfMaxBatchTotalMs (loaded trace_environ)) +
      cfMaxTimeoutMs (loaded trace_environ) \<le> cfMaxTestTimeoutMs (loaded trace_environ)"
    and c: "5000 < cfMaxCompileTimeoutMs (loaded trace_environ)" by (simp_all add: T d)
  ultimately obtain req where "Mode req = modeTrace"
    "CompileTimeoutMs (clampLimits (main_limits (loaded trace_environ)) req demo_odin) +
     TimeoutMs (clampLimits (main_limits (loaded trace_environ)) req demo_odin) = 100000"
    using trace_outlives_drain [OF l g(1) a m c f, of demo_service "Nsjail plain_jail"] unfolding Let_def by auto
  with l g(2) show ?thesis unfolding Let_def by (intro exI [of _ "loaded trace_environ"] exI [of _ req]) simp
qed

subsection \<open>What the metrics can say\<close>

lemma plain_labels: "list_all (list_all plain_char) main_languages" "\<forall>st\<in>insert BatchStatusOK all_statuses. list_all plain_char st"
  by (simp_all add: main_languages_def plain_char_def all_statuses_def BatchStatusOK_def StatusSuccess_def
      StatusRuntimeError_def StatusTimeout_def StatusMemoryExceeded_def StatusCompileError_def StatusInternalError_def
      StatusOutputLimitExceeded_def StatusTestsFailed_def)

lemma closed_plain:
  assumes "sv_Languages sv = set main_languages" and "list_all (closed_op sv) ops"
  shows "list_all plain_op ops"
proof -
  have "plain_op x" if "closed_op sv x" for x
    using that assms(1) plain_labels by (cases x) (auto simp: list_all_iff)
  with assms(2) show ?thesis by (auto simp: list_all_iff)
qed

text \<open>C26: Label safety of the deployed service. Whatever a request says, serving it moves the metrics on only by
  operations whose labels are one of the thirteen languages and a status of the wire contract; so every text the
  metrics route can answer with parses, and every label value in it is a registered language, a status or a bucket
  bound: no part of a submission, of its output or of a token ever gets there.\<close>
theorem metric_labels_closed:
  assumes "boot h env w = (Inr (cfg, sb, sv), w')" and "serve henv sv slots_of r s = (resp, s')"
    and "met s = after ops" and "list_all (closed_op (hSvc (svHandler sv))) ops"
    and "\<forall>xs. CHR 0x0A \<notin> set (format_sum henv xs)"
  shows "\<exists>ops' rs. met s' = after ops' \<and> list_all (closed_op (hSvc (svHandler sv))) ops' \<and>
    rsBody (fst (h_serveMetrics henv r s')) = Text (Render (format_sum henv) (after ops')) \<and>
    scrape (Render (format_sum henv) (after ops')) = Some rs \<and>
    list_all (\<lambda>x. list_all (closed_label (hSvc (svHandler sv))) (snd (fst x))) rs"
proof -
  let ?svc = "hSvc (svHandler sv)"
  from assms(1) obtain rts where v: "?svc = NewService (main_limits cfg) rts"
    by (rule boot_Inr) (simp add: New_def Let_def new_handler_def)
  from serve_closed [OF assms(2) v] obtain os where os: "list_all (closed_op ?svc) os" "met s' = fold apply_op os (met s)"
    unfolding closed_move_def by blast
  then have a: "met s' = after (ops @ os)" "list_all (closed_op ?svc) (ops @ os)"
    using assms(3,4) by (simp_all add: after_def)
  note t = scrape_Render [OF closed_plain [OF deployment_languages [OF assms(1)] a(2)] assms(5)]
  have "list_all (\<lambda>x. list_all (closed_label ?svc) (snd (fst x))) (samples (format_sum henv) (after (ops @ os)))"
    using samples_closed [OF a(2)] by (simp add: list_all_iff)
  with a t show ?thesis
    by (intro exI [of _ "ops @ os"] exI [of _ "samples (format_sum henv) (after (ops @ os))"]) (simp add: h_serveMetrics_def)
qed

theorem metric_labels_closed_witness:
  "\<exists>sv w1 resp s' ops'. boot demo_host demo_environ 0 = (Inr (loaded demo_environ, sv), w1) \<and>
     serve (demo_env\<lparr>format_sum := (\<lambda>_. ''0'')\<rparr>) (snd sv) (\<lambda>_. make_chan 8) known_http demo_server = (resp, s') \<and>
     met s' = after ops' \<and> list_all (closed_op (hSvc (svHandler (snd sv)))) ops'"
proof -
  from demo_boot obtain nj sv w1 where b: "boot demo_host demo_environ 0 = (Inr (loaded demo_environ, Nsjail nj, sv), w1)"
    by blast
  let ?env = "demo_env\<lparr>format_sum := (\<lambda>_. ''0'')\<rparr>"
  obtain resp s' where s: "serve ?env sv (\<lambda>_. make_chan 8) known_http demo_server = (resp, s')" by fastforce
  have "met demo_server = after []" by (simp add: demo_server_def)
  from metric_labels_closed [OF b s this] b s show ?thesis by fastforce
qed

end
