(* ===== verification/Timing.thy ===== *)
theory Timing
  imports RunnerMain
begin

text \<open>
  How long a request takes. Time is a function of the outside world: \<open>timely\<close> states that the clock tells it and that a child
  is over by its deadline, when the kill of \<^verbatim>\<open>exec.CommandContext\<close> ends it at the latest, and that nothing else takes time.
  What the rest takes in reality (creating directories, removing a cgroup leaf, the reap after a kill) is what the five
  seconds of slack in \<open>shutdownGraceMs\<close> are for.

  Each operation gets a bound from its own parts; together they bound a whole request to the deployed server by the window in
  which a shutdown waits for it.
\<close>

definition timely :: "'w host \<Rightarrow> ('w \<Rightarrow> int) \<Rightarrow> bool" where
  "timely h time \<longleftrightarrow>
     (\<forall>w. fst (now_ns h w) = time w \<and> time (snd (now_ns h w)) = time w) \<and>
     (\<forall>p pat w. time (snd (mkdir_temp h p pat w)) = time w) \<and>
     (\<forall>d f v w. time (snd (write_ctl h d f v w)) = time w) \<and>
     (\<forall>d w. time (snd (open_dir h d w)) = time w) \<and>
     (\<forall>d w. time (snd (remove_dir h d w)) = time w) \<and>
     (\<forall>cmd t w. 0 < Deadline cmd \<longrightarrow>
        time w \<le> time (snd (snd (spawn h cmd t w))) \<and> time (snd (snd (spawn h cmd t w))) \<le> time w + Deadline cmd)"

definition takes :: "('w \<Rightarrow> int) \<Rightarrow> int \<Rightarrow> 'w world \<Rightarrow> 'w world \<Rightarrow> bool" where
  "takes time d w w' \<longleftrightarrow> time (Ext w) \<le> time (Ext w') \<and> time (Ext w') \<le> time (Ext w) + d"

lemma takes_refl [simp]: "takes time d w w \<longleftrightarrow> 0 \<le> d"
  by (simp add: takes_def)

lemma takes_trans: "takes time d w w1 \<Longrightarrow> takes time e w1 w2 \<Longrightarrow> takes time (d + e) w w2"
  by (simp add: takes_def)

lemma takes_mono: "takes time d w w' \<Longrightarrow> d \<le> e \<Longrightarrow> takes time e w w'"
  by (simp add: takes_def)

subsection \<open>What takes no time\<close>

lemma timely_simps:
  assumes "timely h time"
  shows "fst (now_ns h w) = time w" "time (snd (now_ns h w)) = time w" "time (snd (mkdir_temp h p pat w)) = time w"
    "time (snd (write_ctl h d f v w)) = time w" "time (snd (open_dir h d w)) = time w" "time (snd (remove_dir h d w)) = time w"
  using assms by (simp_all add: timely_def)

lemma remove_retry_time: "timely h time \<Longrightarrow> time (remove_retry h n d w) = time w"
proof (induction n arbitrary: w)
  case (Suc n)
  from timely_simps(6) [OF Suc.prems, of d w] Suc show ?case
    by (auto split: prod.splits rm_result.splits)
qed simp

lemma cg_Close_time: "timely h time \<Longrightarrow> time (snd (cg_Close h rc w)) = time w"
  by (simp add: cg_Close_def Let_def remove_retry_time)

lemma put_ctl_time: "timely h time \<Longrightarrow> put_ctl h b d f v w = (ok, w') \<Longrightarrow> time w' = time w"
  using timely_simps(4) [of h time d f v w] by (auto simp: put_ctl_def split: if_splits)

lemma cg_begin_time:
  assumes "timely h time" and "cg_begin h m mb pids w = (r, w')"
  shows "time w' = time w"
proof -
  obtain od w1 where m: "mkdir_temp h (parent m) ''run-'' w = (od, w1)" by fastforce
  have t1: "time w1 = time w" using timely_simps(3) [OF assms(1), of "parent m" "''run-''" w] m by simp
  show ?thesis
  proof (cases od)
    case None
    with assms(2) m t1 show ?thesis by (simp add: cg_begin_def)
  next
    case (Some dir)
    obtain a w2 where a: "put_ctl h (mb > 0) dir ''memory.max'' (memory_max_value mb) w1 = (a, w2)" by fastforce
    obtain b w3 where b: "put_ctl h (mb > 0) dir ''memory.swap.max'' ''0'' w2 = (b, w3)" by fastforce
    obtain c w4 where c: "put_ctl h (pids > 0) dir ''pids.max'' (itoa pids) w3 = (c, w4)" by fastforce
    obtain d w5 where d: "open_dir h dir w4 = (d, w5)" by fastforce
    have "time w2 = time w1" "time w3 = time w2" "time w4 = time w3"
      using put_ctl_time [OF assms(1)] a b c by blast+
    moreover have "time w5 = time w4" using timely_simps(5) [OF assms(1), of dir w4] d by simp
    ultimately show ?thesis using assms(2) t1
      by (auto simp: cg_begin_def m Some a b c d Let_def cg_Close_time [OF assms(1)] split: if_splits option.splits)
  qed
qed

lemma clock_time: "timely h time \<Longrightarrow> clock h w = (t, w') \<Longrightarrow> t = time (Ext w) \<and> time (Ext w') = time (Ext w)"
  using timely_simps(1,2) [of h time "Ext w"] by (auto simp: clock_def split: prod.splits)

lemma MkdirTemp_time: "timely h time \<Longrightarrow> MkdirTemp h p w = (d, w') \<Longrightarrow> time (Ext w') = time (Ext w)"
  using timely_simps(3) [of h time "[]" p "Ext w"] by (auto simp: MkdirTemp_def split: prod.splits option.splits)

lemma Command_time:
  assumes "timely h time" and "Command h spec w = (r, w')"
  shows "time (Ext w') = time (Ext w)"
proof (cases "Sb w")
  case (Nsjail s)
  with Command_sb [OF assms(2)] cg_begin_time [OF assms(1)] show ?thesis
    by (auto simp: nsjail_Command_def split: option.splits prod.splits if_splits)
qed (use Command_sb [OF assms(2)] in auto)

lemma acct_Close_time: "timely h time \<Longrightarrow> time (Ext (acct_Close h acct w)) = time (Ext w)"
  by (simp add: acct_Close_def cg_Close_time split: option.splits)

lemma WriteFile_Ext: "WriteFile h q c w = Some w' \<Longrightarrow> Ext w' = Ext w"
  using WriteFile_keeps by blast

subsection \<open>One process\<close>

lemma cmd_Run_time:
  "timely h time \<Longrightarrow> 0 < Deadline cmd \<Longrightarrow> takes time (Deadline cmd) w (snd (cmd_Run h cmd w))"
  by (auto simp: timely_def takes_def cmd_Run_def split: prod.splits) (metis snd_conv)+

text \<open>The shape of every phase: a command that is refused, or one that runs between two looks at the clock and is closed.\<close>

lemma process_time:
  assumes "timely h time" and "0 < Deadline cmd"
  shows "takes time (Deadline cmd) w (acct_Close h acct (snd (clock h (snd (cmd_Run h cmd (snd (clock h (snd (Command h spec w)))))))))"
    and "takes time (Deadline cmd) w (acct_Close h acct (snd (cmd_Run h cmd (snd (Command h spec w)))))"
    and "takes time (Deadline cmd) w (snd (Command h spec w))"
proof -
  have c: "time (Ext (snd (clock h v))) = time (Ext v)" for v
    using clock_time [OF assms(1) surjective_pairing] by blast
  have w1: "time (Ext (snd (Command h spec w))) = time (Ext w)" by (rule Command_time [OF assms(1) surjective_pairing])
  show "takes time (Deadline cmd) w (acct_Close h acct (snd (clock h (snd (cmd_Run h cmd (snd (clock h (snd (Command h spec w)))))))))"
    using cmd_Run_time [OF assms, of "snd (clock h (snd (Command h spec w)))"] w1 acct_Close_time [OF assms(1)] c
    by (simp add: takes_def)
  show "takes time (Deadline cmd) w (acct_Close h acct (snd (cmd_Run h cmd (snd (Command h spec w)))))"
    using cmd_Run_time [OF assms, of "snd (Command h spec w)"] w1 acct_Close_time [OF assms(1)] by (simp add: takes_def)
  show "takes time (Deadline cmd) w (snd (Command h spec w))" using w1 assms(2) by (simp add: takes_def)
qed

lemma process_times:
  assumes "timely h time" and "0 < d"
  shows "takes time d w (acct_Close h acct (snd (clock h (snd (cmd_Run h (c\<lparr>StdinData := i, Env := e, Deadline := d\<rparr>)
      (snd (clock h (snd (Command h spec w)))))))))"
    and "takes time d w (acct_Close h acct (snd (cmd_Run h (c\<lparr>Env := e, Deadline := d\<rparr>) (snd (Command h spec w)))))"
    and "takes time d w (snd (Command h spec w))"
  using process_time [OF assms(1), of "c\<lparr>StdinData := i, Env := e, Deadline := d\<rparr>"]
    process_time [OF assms(1), of "c\<lparr>Env := e, Deadline := d\<rparr>"] assms(2) by simp_all

lemma ir_phases_time:
  assumes "timely h time" and "0 < ms_ns (TimeoutMs req)"
  shows "takes time (ms_ns (TimeoutMs req)) w (snd (ir_execute h r req d tail env w))"
    and "takes time (ms_ns (TimeoutMs req)) w (snd (ir_executeTest h r req d target tc w))"
    and "takes time (ms_ns (TimeoutMs req)) w (snd (ir_executeTrace h r req d target root tr w))"
  using process_times [OF assms]
  by (auto simp: ir_execute_def ir_executeTest_def ir_executeTrace_def Let_def split_beta split: prod.split option.split)

lemma cr_phases_time:
  assumes "timely h time" and "0 < ms_ns (TimeoutMs req)"
  shows "takes time (ms_ns (TimeoutMs req)) w (snd (cr_execute h r req d plan w))"
    and "takes time (ms_ns (TimeoutMs req)) w (snd (cr_executeTest h r req d tc w))"
    and "takes time (ms_ns (TimeoutMs req)) w (snd (cr_executeTrace h r req d tr w))"
  using process_times [OF assms]
  by (auto simp: cr_execute_def cr_executeTest_def cr_executeTrace_def Let_def split_beta split: prod.split option.split)

lemma cr_compile_time:
  assumes "timely h time" and "0 < ms_ns (CompileTimeoutMs req)"
  shows "takes time (ms_ns (CompileTimeoutMs req)) w (snd (cr_compile h r req d plan w))"
  using process_times [OF assms]
  by (auto simp: cr_compile_def Let_def split_beta split: prod.split option.split)

subsection \<open>A single run\<close>

lemma prepare_Ext:
  "ir_prepare h r req w = (p1, w') \<Longrightarrow> Ext w' = Ext w"
  "ir_prepareTest h req f w = (p2, w') \<Longrightarrow> Ext w' = Ext w"
  "ir_prepareTrace h r req w = (p3, w') \<Longrightarrow> Ext w' = Ext w"
  by (auto simp: ir_prepare_def ir_prepareTest_def ir_prepareTrace_def dest: WriteFile_Ext
      split: if_splits option.splits sum.splits prod.splits)

lemma plan_Ext:
  "cr_plan h c req w = (p4, w') \<Longrightarrow> Ext w' = Ext w"
  "cr_prepareTest h req ct w = (p5, w') \<Longrightarrow> Ext w' = Ext w"
  by (auto simp: cr_plan_def cr_prepareTest_def Let_def dest: WriteFile_Ext
      split: if_splits option.splits sum.splits prod.splits)

lemma takes_Ext: "time (Ext v) = time (Ext w) \<Longrightarrow> time (Ext v') = time (Ext w') \<Longrightarrow> takes time d v v' \<longleftrightarrow> takes time d w w'"
  by (simp add: takes_def)

lemma takes_sndD: "takes time d w (snd x) \<Longrightarrow> x = (r, w') \<Longrightarrow> takes time d w w'"
  by simp

lemma ir_Run_time:
  assumes "timely h time" and "0 < ms_ns (TimeoutMs req)" and "ir_Run h r req w = (res, w')"
  shows "takes time (ms_ns (TimeoutMs req)) w w'"
proof -
  note x = ir_phases_time [OF assms(1,2), THEN takes_sndD] MkdirTemp_time [OF assms(1)]
  have "takes time (ms_ns (TimeoutMs req)) w w'" if "Mode req = modeTest"
    using assms(3) assms(2) that
    by (auto simp: ir_Run_def ir_runTest_def Let_def takes_def dest!: x prepare_Ext WriteFile_Ext
        split: option.splits prod.splits sum.splits)
  moreover have "takes time (ms_ns (TimeoutMs req)) w w'" if "Mode req = modeTrace"
    using assms(3) assms(2) that
    by (auto simp: ir_Run_def ir_runTrace_def Let_def takes_def dest!: x prepare_Ext WriteFile_Ext
        split: option.splits prod.splits sum.splits if_splits)
  moreover have "takes time (ms_ns (TimeoutMs req)) w w'" if "Mode req \<notin> {modeTest, modeTrace}"
    using assms(3) assms(2) that
    by (auto simp: ir_Run_def Let_def takes_def dest!: x prepare_Ext split: option.splits prod.splits sum.splits)
  ultimately show ?thesis by blast
qed

lemma cr_Run_time:
  assumes "timely h time" and "0 < ms_ns (TimeoutMs req)" and "0 < ms_ns (CompileTimeoutMs req)"
    and "cr_Run h r req w = (res, w')"
  shows "takes time (if Mode req = modeTest then ms_ns (TimeoutMs req) else ms_ns (CompileTimeoutMs req) + ms_ns (TimeoutMs req)) w w'"
proof -
  note x = cr_phases_time [OF assms(1,2), THEN takes_sndD] cr_compile_time [OF assms(1,3), THEN takes_sndD]
    MkdirTemp_time [OF assms(1)] clock_time [OF assms(1)]
  have "takes time (ms_ns (TimeoutMs req)) w w'" if "Mode req = modeTest"
    using assms(2-4) that
    by (auto simp: cr_Run_def cr_runTest_def Let_def takes_def dest!: x plan_Ext
        split: option.splits prod.splits sum.splits)
  moreover have "takes time (ms_ns (CompileTimeoutMs req) + ms_ns (TimeoutMs req)) w w'" if "Mode req = modeTrace"
    using assms(2-4) that
    by (auto simp: cr_Run_def cr_runTrace_def Let_def takes_def dest!: x plan_Ext WriteFile_Ext
        split: option.splits prod.splits sum.splits if_splits)
  moreover have "takes time (ms_ns (CompileTimeoutMs req) + ms_ns (TimeoutMs req)) w w'" if "Mode req \<notin> {modeTest, modeTrace}"
    using assms(2-4) that
    by (auto simp: cr_Run_def Let_def takes_def dest!: x plan_Ext split: option.splits prod.splits sum.splits)
  ultimately show ?thesis by (auto simp: modeTest_def modeTrace_def)
qed

subsection \<open>A batch\<close>

text \<open>
  The budget of a batch is looked at before each input, so the last one may start just before it runs out: what bounds a
  batch is its budget and one more run.
\<close>

lemma batchLoop_time:
  assumes now: "\<And>s. fst (now s) = tm s \<and> tm (snd (now s)) = tm s"
    and run: "\<And>x s. tm s \<le> tm (snd (run x s)) \<and> tm (snd (run x s)) \<le> tm s + d"
    and m: "0 < budget" "ms_ns budget + d \<le> m" "m < 2 ^ 63"
    and loop: "batchLoop now away start budget run xs s = (rs, ab, s')"
    and s: "start \<le> tm s" "tm s - start \<le> m"
  shows "tm s \<le> tm s' \<and> tm s' - start \<le> m"
  using loop s
proof (induction xs arbitrary: s rs)
  case (Cons x xs)
  have same: "tm s1 = tm s" "(over \<longleftrightarrow> ms_ns budget \<le> tm s - start)"
    if "over_budget now start budget s = (over, s1)" for over s1
  proof -
    have "fits64 (tm s - start)" using Cons.prems(2,3) m(3) by (simp add: fits64_def)
    with that now [of s] m(1) show "tm s1 = tm s" "(over \<longleftrightarrow> ms_ns budget \<le> tm s - start)"
      by (auto simp: over_budget_def split: prod.splits)
  qed
  from Cons.prems(1) show ?case
  proof (rule batchLoop_step)
    fix over s1 assume "over_budget now start budget s = (over, s1)" "s' = s1"
    with same Cons.prems(2,3) show ?thesis by simp
  next
    fix s1 r s2 rs'
    assume 1: "over_budget now start budget s = (False, s1)" "run x s1 = (r, s2)"
      and rest: "batchLoop now away start budget run xs s2 = (rs', ab, s')"
    have t: "tm s \<le> tm s2" "tm s2 - start \<le> m"
      using same [OF 1(1)] run [of s1 x] 1(2) m(2) by auto
    from Cons.IH [OF rest _ t(2)] Cons.prems(2) t(1) show ?thesis by simp
  qed
qed simp

lemma batch_executes:
  assumes "timely h time" and "0 < ms_ns (TimeoutMs req)"
  shows "time (Ext w) \<le> time (Ext (snd (ir_execute h r (req\<lparr>Stdin := x\<rparr>) d tail env w))) \<and>
      time (Ext (snd (ir_execute h r (req\<lparr>Stdin := x\<rparr>) d tail env w))) \<le> time (Ext w) + ms_ns (TimeoutMs req)"
    and "time (Ext w) \<le> time (Ext (snd (cr_execute h c (req\<lparr>Stdin := x\<rparr>) d plan w))) \<and>
      time (Ext (snd (cr_execute h c (req\<lparr>Stdin := x\<rparr>) d plan w))) \<le> time (Ext w) + ms_ns (TimeoutMs req)"
  using ir_phases_time(1) [OF assms(1), of "req\<lparr>Stdin := x\<rparr>"] cr_phases_time(1) [OF assms(1), of "req\<lparr>Stdin := x\<rparr>"] assms(2)
  by (simp_all add: takes_def)

lemma ir_RunBatch_time:
  assumes "timely h time" and "0 < ms_ns (TimeoutMs req)" and "ir_RunBatch h r req n w = (b, w')"
    and m: "0 < n" "0 \<le> ms_ns n" "ms_ns n + ms_ns (TimeoutMs req) < 2 ^ 63"
  shows "takes time (ms_ns n + ms_ns (TimeoutMs req)) w w'"
proof -
  obtain start w0 where c: "clock h w = (start, w0)" by fastforce
  obtain d w1 where mk: "MkdirTemp h ''dalivim-run-*'' w0 = (d, w1)" by fastforce
  have t1: "start = time (Ext w)" "time (Ext w1) = time (Ext w)"
    using clock_time [OF assms(1) c] MkdirTemp_time [OF assms(1) mk] by simp_all
  have now: "fst (clock h v) = time (Ext v) \<and> time (Ext (snd (clock h v))) = time (Ext v)" for v
    using clock_time [OF assms(1) surjective_pairing] by blast
  show ?thesis
  proof (cases d)
    case None
    with assms(3) c mk t1 m(2) assms(2) show ?thesis by (auto simp: ir_RunBatch_def takes_def)
  next
    case (Some dir)
    obtain p w2 where p: "ir_prepare h r req w1 = (p, w2)" by fastforce
    have t2: "time (Ext w2) = start" using prepare_Ext(1) [OF p] t1 by simp
    show ?thesis
    proof (cases p)
      case (Inl e)
      with assms(2,3) c mk Some p t1(1) t2 m(2) show ?thesis by (auto simp: ir_RunBatch_def takes_def)
    next
      case (Inr te)
      obtain tail env where te: "te = (tail, env)" by fastforce
      obtain rs ab w3 where l: "batchLoop (clock h) (gone h) start n
          (\<lambda>stdin. ir_execute h r (req\<lparr>Stdin := stdin\<rparr>) dir tail env) (Stdins req) w2 = (rs, ab, w3)"
        by (metis prod_cases3)
      from assms(3) c mk Some p Inr te l have "Ext w' = Ext w3" by (auto simp: ir_RunBatch_def)
      moreover have "time (Ext w2) \<le> time (Ext w3) \<and> time (Ext w3) - start \<le> ms_ns n + ms_ns (TimeoutMs req)"
        by (rule batchLoop_time [where tm = "\<lambda>v. time (Ext v)", OF now batch_executes(1) [OF assms(1,2)] m(1) order_refl m(3) l])
          (use t2 m(2) assms(2) in simp_all)
      ultimately show ?thesis using t1(1) t2 by (simp add: takes_def)
    qed
  qed
qed

lemma cr_RunBatch_time:
  assumes "timely h time" and "0 < ms_ns (TimeoutMs req)" and "0 < ms_ns (CompileTimeoutMs req)"
    and "cr_RunBatch h r req n w = (b, w')"
    and m: "0 < n" "0 \<le> ms_ns n" "ms_ns n + ms_ns (TimeoutMs req) < 2 ^ 63" "ms_ns (CompileTimeoutMs req) < 2 ^ 63"
  shows "takes time (max (ms_ns (CompileTimeoutMs req)) (ms_ns n + ms_ns (TimeoutMs req))) w w'"
proof -
  obtain epoch w0 where c: "clock h w = (epoch, w0)" by fastforce
  obtain d w1 where mk: "MkdirTemp h ''dalivim-build-*'' w0 = (d, w1)" by fastforce
  have t1: "epoch = time (Ext w)" "time (Ext w1) = time (Ext w)"
    using clock_time [OF assms(1) c] MkdirTemp_time [OF assms(1) mk] by simp_all
  have now: "fst (clock h v) = time (Ext v) \<and> time (Ext (snd (clock h v))) = time (Ext v)" for v
    using clock_time [OF assms(1) surjective_pairing] by blast
  show ?thesis
  proof (cases d)
    case None
    with assms(3,4) c mk t1 show ?thesis by (auto simp: cr_RunBatch_def takes_def)
  next
    case (Some dir)
    obtain p w2 where p: "cr_plan h r req w1 = (p, w2)" by fastforce
    have t2: "time (Ext w2) = epoch" using plan_Ext(1) [OF p] t1 by simp
    show ?thesis
    proof (cases p)
      case (Inl e)
      with assms(3,4) c mk Some p t1(1) t2 show ?thesis by (auto simp: cr_RunBatch_def takes_def)
    next
      case (Inr plan)
      obtain start w3 where s: "clock h w2 = (start, w3)" by fastforce
      obtain f w4 where f: "cr_compile h r req dir plan w3 = (f, w4)" by fastforce
      obtain stop w5 where t: "clock h w4 = (stop, w5)" by fastforce
      have t5: "epoch \<le> time (Ext w5)" "time (Ext w5) - epoch \<le> ms_ns (CompileTimeoutMs req)"
        using cr_compile_time [OF assms(1,3), THEN takes_sndD, OF f] clock_time [OF assms(1) s]
          clock_time [OF assms(1) t] t2 by (simp_all add: takes_def)
      note st = cr_RunBatch_def c mk p s f t Some Inr Let_def
      show ?thesis
      proof (cases f)
        case (Some res)
        with assms(4) t5 t1(1) show ?thesis by (auto simp: st takes_def)
      next
        case None
        obtain rs ab w6 where l: "batchLoop (clock h) (gone h) epoch n
            (\<lambda>stdin. cr_execute h r (req\<lparr>Stdin := stdin\<rparr>) dir plan) (Stdins req) w5 = (rs, ab, w6)"
          by (metis prod_cases3)
        let ?m = "max (ms_ns (CompileTimeoutMs req)) (ms_ns n + ms_ns (TimeoutMs req))"
        have "time (Ext w5) \<le> time (Ext w6) \<and> time (Ext w6) - epoch \<le> ?m"
          by (rule batchLoop_time [where tm = "\<lambda>v. time (Ext v)", OF now batch_executes(2) [OF assms(1,2)] m(1) _ _ l])
            (use t5 m in \<open>simp_all add: max_def\<close>)
        moreover have "Ext w' = Ext w6" using assms(4) None l by (auto simp: st)
        ultimately show ?thesis using t1(1) t5(1) by (simp add: takes_def)
      qed
    qed
  qed
qed

subsection \<open>A request\<close>

text \<open>The compilation that a run of a request pays for.\<close>

fun compile_ms :: "runtime \<Rightarrow> RunRequest \<Rightarrow> int" where
  "compile_ms (RInterpreted r) req = 0"
| "compile_ms (RCompiled r) req = (if Mode req = modeTest then 0 else CompileTimeoutMs req)"

lemma ms_ns_small: "0 \<le> n \<Longrightarrow> n < 2 ^ 43 \<Longrightarrow> ms_ns n = n * 1000000"
  by (simp add: ms_ns_def fits64_def)

lemma rt_time:
  assumes "timely h time" and "0 < TimeoutMs req" "TimeoutMs req < 2 ^ 43" "0 < CompileTimeoutMs req" "CompileTimeoutMs req < 2 ^ 43"
  shows "rt_Run h rt req w = (res, w') \<Longrightarrow> takes time ((compile_ms rt req + TimeoutMs req) * 1000000) w w'"
    and "rt_RunBatch h rt req n w = (b, w'') \<Longrightarrow> 0 < n \<Longrightarrow> n + TimeoutMs req < 2 ^ 43 \<Longrightarrow>
      takes time (max (CompileTimeoutMs req) (n + TimeoutMs req) * 1000000) w w''"
proof -
  have t: "ms_ns (TimeoutMs req) = TimeoutMs req * 1000000" "ms_ns (CompileTimeoutMs req) = CompileTimeoutMs req * 1000000"
    using ms_ns_small assms(2-5) by simp_all
  show "rt_Run h rt req w = (res, w') \<Longrightarrow> takes time ((compile_ms rt req + TimeoutMs req) * 1000000) w w'"
    using ir_Run_time [OF assms(1), of req] cr_Run_time [OF assms(1), of req] assms(2,4)
    by (cases rt) (auto simp: t algebra_simps split: if_splits)
  show "rt_RunBatch h rt req n w = (b, w'') \<Longrightarrow> 0 < n \<Longrightarrow> n + TimeoutMs req < 2 ^ 43 \<Longrightarrow>
      takes time (max (CompileTimeoutMs req) (n + TimeoutMs req) * 1000000) w w''"
  proof -
    assume x: "rt_RunBatch h rt req n w = (b, w'')" "0 < n" "n + TimeoutMs req < 2 ^ 43"
    have n: "ms_ns n = n * 1000000" using ms_ns_small [of n] x(2,3) assms(2) by simp
    have le: "ms_ns n + ms_ns (TimeoutMs req) \<le> max (CompileTimeoutMs req) (n + TimeoutMs req) * 1000000"
      "max (ms_ns (CompileTimeoutMs req)) (ms_ns n + ms_ns (TimeoutMs req)) = max (CompileTimeoutMs req) (n + TimeoutMs req) * 1000000"
      by (auto simp: t n max_def algebra_simps)
    have m: "0 < ms_ns (TimeoutMs req)" "0 < ms_ns (CompileTimeoutMs req)" "0 \<le> ms_ns n"
      "ms_ns n + ms_ns (TimeoutMs req) < 2 ^ 63" "ms_ns (CompileTimeoutMs req) < 2 ^ 63"
      using assms(2,4,5) x(2,3) by (simp_all add: t n)
    show ?thesis
    proof (cases rt)
      case (RInterpreted r)
      with x(1) have "ir_RunBatch h r req n w = (b, w'')" by simp
      from ir_RunBatch_time [OF assms(1) m(1) this x(2) m(3,4)] le(1) show ?thesis by (rule takes_mono)
    next
      case (RCompiled r)
      with x(1) have "cr_RunBatch h r req n w = (b, w'')" by simp
      from cr_RunBatch_time [OF assms(1) m(1,2) this x(2) m(3,4,5)] show ?thesis by (simp add: le(2))
    qed
  qed
qed

subsection \<open>Through the service and the server\<close>

text \<open>
  A window that covers what the operator's ceilings allow: a compilation and a run, a batch and its last run, and a test or
  an interpreted trace.
\<close>

definition window_covers :: "Limits \<Rightarrow> int \<Rightarrow> bool" where
  "window_covers l g \<longleftrightarrow>
     limits_ok l \<and> 0 < MaxBatchTotalMs l \<and> g < 2 ^ 43 \<and> MaxCompileTimeoutMs l + max_timeout l [] \<le> g \<and>
     MaxBatchTotalMs l + max_timeout l [] \<le> g \<and> max_timeout l modeTest \<le> g"

lemma window_ceilings:
  assumes "window_covers l g" and "c = clampLimits l r rt"
  shows "0 < TimeoutMs c" "0 < CompileTimeoutMs c" "TimeoutMs c < 2 ^ 43" "CompileTimeoutMs c < 2 ^ 43"
    and "long_mode (Mode r) \<Longrightarrow> TimeoutMs c \<le> g"
    and "\<not> long_mode (Mode r) \<Longrightarrow> CompileTimeoutMs c + TimeoutMs c \<le> g"
    and "\<not> long_mode (Mode r) \<Longrightarrow> MaxBatchTotalMs l + TimeoutMs c \<le> g"
proof -
  have l: "limits_ok l" and g: "0 < MaxBatchTotalMs l" "g < 2 ^ 43" "MaxCompileTimeoutMs l + max_timeout l [] \<le> g"
    "MaxBatchTotalMs l + max_timeout l [] \<le> g" "max_timeout l modeTest \<le> g"
    using assms(1) by (simp_all add: window_covers_def)
  note b = clampLimits_in_bounds [OF l, where req = r and rt = rt, folded assms(2)]
  have m: "max_timeout l (Mode r) = (if long_mode (Mode r) then max_timeout l modeTest else max_timeout l [])"
    by (auto simp: max_timeout_def long_mode_def modeTest_def modeTrace_def)
  have p: "0 < max_timeout l []" "0 < MaxCompileTimeoutMs l" using timeouts_pos [OF l] l by (auto simp: limits_ok_def)
  show "0 < TimeoutMs c" "0 < CompileTimeoutMs c" "TimeoutMs c < 2 ^ 43" "CompileTimeoutMs c < 2 ^ 43"
    and "long_mode (Mode r) \<Longrightarrow> TimeoutMs c \<le> g"
    and "\<not> long_mode (Mode r) \<Longrightarrow> CompileTimeoutMs c + TimeoutMs c \<le> g"
    and "\<not> long_mode (Mode r) \<Longrightarrow> MaxBatchTotalMs l + TimeoutMs c \<le> g"
    using b(1,6) g p m by (auto split: if_splits)
qed

text \<open>A trace that is let in is not served by a compiled runtime.\<close>

definition traces_interpreted :: "svc \<Rightarrow> RunRequest \<Rightarrow> bool" where
  "traces_interpreted s req \<longleftrightarrow>
     (Mode req = modeTrace \<and> mode_ok req \<longrightarrow>
        (case Mapping.lookup (svRuntimes s) (Language req) of Some (RCompiled r) \<Rightarrow> False | _ \<Rightarrow> True))"

lemma sv_Run_time:
  assumes "timely h time" and "window_covers (svLimits s) g" and "traces_interpreted s req"
    and "sv_Run h s req w = (out, w')"
  shows "takes time (g * 1000000) w w'"
proof (cases "admit_run s req")
  case (Inl e)
  with assms(4) have "w' = w" by (auto simp: sv_Run_def)
  moreover have "0 \<le> g" using assms(2) timeouts_pos [of "svLimits s" "[]"] by (auto simp: window_covers_def)
  ultimately show ?thesis by simp
next
  case (Inr p)
  obtain rt c where p: "p = (rt, c)" by fastforce
  with Inr obtain r where r: "Mapping.lookup (svRuntimes s) (Language req) = Some rt" "normalize (svLimits s) req = Inr r"
    "c = clampLimits (svLimits s) r rt" and ok: "mode_ok req" by (auto simp: admit_run_iff)
  have m: "Mode r = Mode req" "Mode c = Mode req" using r(2,3) by (auto simp: normalize_iff split: if_splits)
  obtain res w1 where x: "rt_Run h rt c w = (res, w1)" by fastforce
  have "w' = w1" using assms(4) Inr p x by (auto simp: sv_Run_def Let_def)
  note b = window_ceilings [OF assms(2) r(3), unfolded m(1)]
  have "compile_ms rt c + TimeoutMs c \<le> g"
    using b(2,5,6) assms(3) r(1) m(2) ok
    by (cases rt; cases "long_mode (Mode req)") (auto simp: traces_interpreted_def long_mode_def split: if_splits)
  with rt_time(1) [OF assms(1) b(1,3,2,4) x] \<open>w' = w1\<close> show ?thesis by (auto elim: takes_mono)
qed

lemma sv_RunBatch_time:
  assumes "timely h time" and "window_covers (svLimits s) g" and "sv_RunBatch h s req w = (out, w')"
  shows "takes time (g * 1000000) w w'"
proof (cases "admit_batch s req")
  case (Inl e)
  with assms(3) have "w' = w" by (auto simp: sv_RunBatch_def)
  moreover have "0 \<le> g" using assms(2) timeouts_pos [of "svLimits s" "[]"] by (auto simp: window_covers_def)
  ultimately show ?thesis by simp
next
  case (Inr p)
  obtain rt c where p: "p = (rt, c)" by fastforce
  with Inr obtain r where r: "Mode req \<in> {[], modeRun}" "normalize (svLimits s) req = Inr r"
    "c = clampLimits (svLimits s) r rt" by (auto simp: admit_batch_iff)
  have m: "\<not> long_mode (Mode r)"
    using r(1,2) by (auto simp: normalize_iff long_mode_def modeRun_def modeTest_def modeTrace_def split: if_splits)
  obtain b w1 where x: "rt_RunBatch h rt c (MaxBatchTotalMs (svLimits s)) w = (b, w1)" by fastforce
  have w: "w' = w1" using assms(3) Inr p x by (auto simp: sv_RunBatch_def Let_def)
  note b = window_ceilings [OF assms(2) r(3)]
  have g: "0 < MaxBatchTotalMs (svLimits s)" "MaxBatchTotalMs (svLimits s) + TimeoutMs c < 2 ^ 43"
    using assms(2) b(7) [OF m] by (auto simp: window_covers_def)
  from rt_time(2) [OF assms(1) b(1,3,2,4) x g] b(6,7) [OF m] b(1) w show ?thesis by (auto elim!: takes_mono)
qed

text \<open>An environment of the server whose host tells the time, and in which the random source takes none.\<close>

definition timely_env :: "'w http_env \<Rightarrow> ('w \<Rightarrow> int) \<Rightarrow> bool" where
  "timely_env env time \<longleftrightarrow> timely (hostOf env) time \<and> (\<forall>w. time (snd (rand_read env w)) = time w)"

lemma ensureRequestID_time:
  assumes "timely_env env time" and "ensureRequestID env r s = (i, hs, s1)"
  shows "time (Ext (wld s1)) = time (Ext (wld s))"
proof -
  have "time (snd (rand_read env (Ext (wld s)))) = time (Ext (wld s))" using assms(1) by (simp add: timely_env_def)
  with assms(2) show ?thesis
    by (auto simp: ensureRequestID_def newRequestID_def Let_def split: if_splits prod.splits option.splits)
qed

lemma execute_time:
  assumes "timely h time" and "window_covers (svLimits (hSvc k)) g" and "traces_interpreted (hSvc k) req" and "hostOf env = h"
    and "execute env k req hs s = (resp, s')"
  shows "takes time (g * 1000000) (wld s) (wld s')"
proof (cases "Stdins req = []")
  case True
  obtain out w1 where x: "sv_Run h (hSvc k) req (wld s) = (out, w1)" by fastforce
  with assms(4,5) True have "wld s' = w1" by (cases out) (auto simp: execute_def Let_def)
  with sv_Run_time [OF assms(1,2,3) x] show ?thesis by simp
next
  case False
  obtain out w1 where x: "sv_RunBatch h (hSvc k) req (wld s) = (out, w1)" by fastforce
  with assms(4,5) False have "wld s' = w1" by (cases out) (auto simp: execute_def executeBatch_def Let_def)
  with sv_RunBatch_time [OF assms(1,2) x] show ?thesis by simp
qed

lemma run_handler_time:
  assumes "timely_env env time" and "window_covers (svLimits (hSvc k)) g"
    and "pred_option (traces_interpreted (hSvc k)) (executed env k rt r)" and "run_handler env k rt r s = (resp, s')"
  shows "takes time (g * 1000000) (wld s) (wld s')"
proof -
  obtain i hs s1 where e: "ensureRequestID env r s = (i, hs, s1)" by (metis prod_cases3)
  have t: "time (Ext (wld s1)) = time (Ext (wld s))" by (rule ensureRequestID_time [OF assms(1) e])
  have h: "timely (hostOf env) time" using assms(1) by (simp add: timely_env_def)
  have g: "0 \<le> g" using assms(2) timeouts_pos [of "svLimits (hSvc k)" "[]"] by (auto simp: window_covers_def)
  have go: "takes time (g * 1000000) (wld s) (wld s')"
    if "execute env k req hs s1 = (resp, s')" "traces_interpreted (hSvc k) req" for req
    using execute_time [OF h assms(2) that(2) refl that(1)] t by (simp add: takes_def)
  have same: "takes time (g * 1000000) (wld s) (wld s1)" using t g by (simp add: takes_def)
  show ?thesis
  proof (cases rt)
    case RunRoute
    with assms(3,4) e go same show ?thesis
      by (auto simp: run_handler_def h_run_def executed_def split: sum.splits if_splits)
  next
    case PythonRoute
    with assms(3,4) e go same show ?thesis
      by (auto simp: run_handler_def h_runPythonCompat_def executed_def split: sum.splits)
  qed
qed

subsection \<open>The deployed server\<close>

definition odin_trace :: "'w http_env \<Rightarrow> 'w srv \<Rightarrow> (route \<Rightarrow> chan) \<Rightarrow> http_request \<Rightarrow> bool" where
  "odin_trace env sv slots_of r \<longleftrightarrow>
     (case admitted sv slots_of r of
        None \<Rightarrow> False
      | Some rt \<Rightarrow>
          (case executed env (svHandler sv) rt r of
             None \<Rightarrow> False
           | Some req \<Rightarrow> Mode req = modeTrace \<and> Language req = ''odin''))"

text \<open>Of the two languages that trace, Python is interpreted; a language that does not trace never gets to a runtime.\<close>

lemma deployed_python:
  assumes "build_all (main_builders h cfg) w = (rts, w')"
    and "Mapping.lookup (svRuntimes (NewService l rts)) ''python'' = Some rt"
  shows "\<exists>r. rt = RInterpreted r"
  using deployed_kinds [OF assms(1), of rt] NewService_lookup [OF assms(2)]
  by (cases rt) (auto simp: main_languages_def numeral_eq_Suc)

lemma deployed_traces:
  assumes "build_all (main_builders h cfg) w = (rts, w')" and "\<not> (Mode req = modeTrace \<and> Language req = ''odin'')"
  shows "traces_interpreted (NewService l rts) req"
proof -
  have "Language req = ''python''" if "Mode req = modeTrace" "mode_ok req"
    using that assms(2)
    by (auto simp: mode_ok_def supportsTraceMode_def traceCommands_def modeRun_def modeTest_def modeTrace_def split: if_splits)
  with deployed_python [OF assms(1)] show ?thesis by (fastforce simp: traces_interpreted_def split: option.splits runtime.splits)
qed

lemma deployed_window:
  assumes "Load env = Inr cfg" and "ceilings_sane cfg"
  shows "window_covers (main_limits cfg) (cfShutdownGraceMs cfg - 5000)"
  using wired_limits_ok [OF assms(1)] wired_max_timeout [OF assms(1)] Load_grace [OF assms] Load_positive [OF assms(1)] assms(2)
  by (simp add: window_covers_def long_mode_def modeTest_def modeTrace_def int_knobs_def ceilings_sane_def)
    (simp add: main_limits_def)


text \<open>A host whose clock is its world, and on which a child takes five milliseconds, or all it is given when that is less.\<close>

definition timely_host :: "int host" where
  "timely_host = demo_host\<lparr>now_ns := (\<lambda>w. (w, w)), spawn := (\<lambda>c t w. (demo_child, t, w + min 5000000 (Deadline c)))\<rparr>"

definition timely_http_env :: "int http_env" where
  "timely_http_env = demo_env\<lparr>hostOf := timely_host\<rparr>"

lemma timely_demo: "timely timely_host id" "timely_env timely_http_env id" "hostOf timely_http_env = timely_host"
  by (simp_all add: timely_env_def timely_def timely_http_env_def timely_host_def demo_host_def demo_env_def)

lemma h_decode_mode:
  assumes "h_decode env k r = Inr req"
  shows "\<exists>raw. json_decode env (take (nat (body_limit k)) (rqBody r)) = Some raw \<and> Mode req = Mode raw"
proof -
  from assms obtain raw q where q: "json_decode env (take (nat (body_limit k)) (rqBody r)) = Some raw"
    "decode_streams raw = Inr q" "check_sizes k q = Inr req" by (auto simp: h_decode_def split: option.splits)
  from q(2) check_sizes_same [OF q(3)] have "req = raw\<lparr>Stdin := Stdin q, Stdins := Stdins q\<rparr>"
    unfolding decode_streams_iff by blast
  then have "Mode req = Mode (raw\<lparr>Stdin := Stdin q, Stdins := Stdins q\<rparr>)" by (rule arg_cong)
  with q(1) show ?thesis by simp
qed

lemma known_not_odin: "\<not> odin_trace timely_http_env sv sl known_http"
proof -
  have "Mode req = []" if "h_decode timely_http_env k known_http = Inr req" for k req
    using h_decode_mode [OF that]
    by (auto simp: timely_http_env_def demo_env_def demo_request_def zero_request_def split: if_splits)
  then show ?thesis
    by (fastforce simp: odin_trace_def executed_def modeTrace_def split: option.splits sum.splits route.splits if_splits)
qed


end
